theory Spec2Isabelle
  imports Complex_Main
begin


section \<open>JavaScript strings\<close>

text \<open>
  A JavaScript string is a sequence of UTF-16 code units and \<open>.length\<close> counts them.
  The model reads a \<^typ>\<open>char\<close> as one code unit in the range 0..255 (ASCII and
  Latin-1), so \<^const>\<open>length\<close> is \<open>.length\<close> for every string drawn from that
  range. Inputs with code units above 255 are outside the model.
\<close>

definition js_is_space :: "char \<Rightarrow> bool" where
  \<comment> \<open>The characters that \<open>String.prototype.trim\<close> strips and that the regular
      expression class \<open>\\s\<close> matches, below 256: TAB, LF, VT, FF, CR, SP, NBSP.\<close>
  "js_is_space c = ((of_char c :: nat) \<in> {9, 10, 11, 12, 13, 32, 160})"

definition js_trim :: "string \<Rightarrow> string" where
  "js_trim s = rev (dropWhile js_is_space (rev (dropWhile js_is_space s)))"

definition js_lower_char :: "char \<Rightarrow> char" where
  \<comment> \<open>\<open>toLowerCase\<close> on one code unit below 256: A-Z and the Latin-1 capitals
      (0xC0-0xDE without the multiplication sign 0xD7) move up by 32.\<close>
  "js_lower_char c =
     (let n = (of_char c :: nat) in
      if (65 \<le> n \<and> n \<le> 90) \<or> (192 \<le> n \<and> n \<le> 222 \<and> n \<noteq> 215)
      then char_of (n + 32) else c)"

definition toLowerCase :: "string \<Rightarrow> string" where
  "toLowerCase s = map js_lower_char s"

definition js_is_letter :: "char \<Rightarrow> bool" where
  \<comment> \<open>The regular expression class \<open>[a-zA-Z]\<close>.\<close>
  "js_is_letter c =
     (let n = (of_char c :: nat) in (65 \<le> n \<and> n \<le> 90) \<or> (97 \<le> n \<and> n \<le> 122))"

definition js_is_digit :: "char \<Rightarrow> bool" where
  \<comment> \<open>The regular expression class \<open>\\d\<close>.\<close>
  "js_is_digit c = (let n = (of_char c :: nat) in 48 \<le> n \<and> n \<le> 57)"

fun is_prefix_of :: "string \<Rightarrow> string \<Rightarrow> bool" where
  "is_prefix_of [] ys = True"
| "is_prefix_of (x # xs) [] = False"
| "is_prefix_of (x # xs) (y # ys) = (x = y \<and> is_prefix_of xs ys)"

fun js_includes :: "string \<Rightarrow> string \<Rightarrow> bool" where
  \<comment> \<open>\<open>hay.includes(needle)\<close>: the needle occurs at some position of the haystack.\<close>
  "js_includes [] needle = (needle = [])"
| "js_includes (h # hs) needle = (is_prefix_of needle (h # hs) \<or> js_includes hs needle)"

section \<open>Booking validation (booking-validator.ts)\<close>

datatype BookingState =
    IDLE | COLLECTING_NAME | COLLECTING_BOOKING_FOR | COLLECTING_GENDER
  | SHOWING_SERVICES | COLLECTING_SERVICE | SHOWING_DATES | COLLECTING_DATE
  | SHOWING_TIME_SLOTS | COLLECTING_TIME | CONFIRMING | COMPLETED

datatype Gender = MALE | FEMALE | OTHER

datatype BookingStatus = PENDING | CONFIRMED | CANCELLED | STATUS_COMPLETED | NO_SHOW

text \<open>
  The result \<open>{ valid, value?, error? }\<close> of the \<open>BookingValidator\<close> helpers:
  \<open>Valid v\<close> is \<open>{ valid: true, value: v }\<close>, \<open>Invalid m\<close> is
  \<open>{ valid: false, error: m }\<close> with \<open>m\<close> the message of the first issue zod reports.
\<close>

datatype 'a validation = Valid 'a | Invalid string

definition is_name_char :: "char \<Rightarrow> bool" where
  \<comment> \<open>One character of the class \<open>[a-zA-Z\\s.'-]\<close>.\<close>
  "is_name_char c =
     (js_is_letter c \<or> js_is_space c \<or> c = CHR ''.'' \<or> c = CHR 0x27 \<or> c = CHR ''-'')"

definition name_regex :: "string \<Rightarrow> bool" where
  \<comment> \<open>\<open>/^[a-zA-Z\\s.'-]+$/.test(s)\<close>\<close>
  "name_regex s = (s \<noteq> [] \<and> list_all is_name_char s)"

definition validateName :: "string \<Rightarrow> string validation" where
  \<comment> \<open>\<open>nameSchema\<close>: min 2, max 100 and the regex on the raw input, then trim.\<close>
  "validateName input =
     (if length input < 2 then Invalid ''Name must be at least 2 characters''
      else if length input > 100 then Invalid ''Name is too long (max 100 characters)''
      else if \<not> name_regex input
        then Invalid ''Name should only contain letters, spaces, dots, hyphens, and apostrophes''
      else Valid (js_trim input))"

definition bookingFor_refine :: "string \<Rightarrow> bool" where
  \<comment> \<open>The predicate given to \<open>.refine\<close> in \<open>bookingForSchema\<close>.\<close>
  "bookingFor_refine val =
     (val = ''self'' \<or> val = ''myself'' \<or> val = ''me'' \<or> name_regex val)"

definition validateBookingFor :: "string \<Rightarrow> string validation" where
  \<comment> \<open>\<open>bookingForSchema\<close>: min 2 and max 100 on the raw input, then the transform
      \<open>val.trim().toLowerCase()\<close>, then the refinement on the transformed value; the parsed
      value is the transformed one.\<close>
  "validateBookingFor input =
     (if length input < 2 then Invalid ''Please provide a valid name or \"self\"''
      else if length input > 100 then Invalid ''Name is too long (max 100 characters)''
      else (let val = toLowerCase (js_trim input) in
            if bookingFor_refine val then Valid val
            else Invalid ''Please enter a valid name or \"self\"''))"

definition validateGender :: "string \<Rightarrow> Gender validation" where
  "validateGender input =
     (let val = toLowerCase (js_trim input) in
      if val \<in> set [''male'', ''female'', ''other'', ''m'', ''f'', ''o'']
      then (if val = ''m'' \<or> val = ''male'' then Valid MALE
            else if val = ''f'' \<or> val = ''female'' then Valid FEMALE
            else Valid OTHER)
      else Invalid ''Please select: Male, Female, or Other'')"

definition validateServiceSelection :: "string \<Rightarrow> string validation" where
  "validateServiceSelection input =
     (if length input < 1 then Invalid ''Please select a service'' else Valid (js_trim input))"

definition validateConfirmation :: "string \<Rightarrow> bool validation" where
  "validateConfirmation input =
     (let val = toLowerCase (js_trim input) in
      if val \<in> set [''confirm'', ''yes'', ''y'', ''ok'', ''okay'', ''cancel'', ''no'', ''n'']
      then Valid (val \<in> set [''confirm'', ''yes'', ''y'', ''ok'', ''okay''])
      else Invalid ''Please reply with \"CONFIRM\" or \"CANCEL\"'')"

section \<open>The reservation tables and stored procedures (SQL migrations)\<close>

text \<open>
  A \<open>UUID\<close> is modelled as the string of its text form, a \<open>DATE\<close> as a day number and a
  \<open>TIME\<close> as the number of seconds since midnight (sub-second precision is not used
  by any caller). A table is the list of its rows.
\<close>

type_synonym uuid = string
type_synonym sql_date = int
type_synonym sql_time = nat

record booking =
  b_id :: uuid
  b_business_id :: uuid
  b_bot_id :: uuid
  b_customer_name :: string
  b_customer_phone :: string
  b_booking_for :: string
  b_gender :: string
  b_service_id :: "uuid option"
  b_service_name :: string
  b_service_price :: rat
  b_booking_date :: sql_date
  b_booking_time :: sql_time
  b_duration :: int
  b_status :: BookingStatus
  b_notes :: "string option"

record business_time_slot =
  bts_business_id :: uuid
  bts_day_of_week :: int
  bts_start_time :: sql_time
  bts_end_time :: sql_time
  bts_slot_duration :: int
  bts_is_active :: bool

definition status_in_pending_confirmed :: "BookingStatus \<Rightarrow> bool" where
  \<comment> \<open>\<open>status IN ('pending', 'confirmed')\<close>, the predicate of the partial unique index
      \<open>idx_bookings_unique_slot\<close> and of both availability queries.\<close>
  "status_in_pending_confirmed s = (s = PENDING \<or> s = CONFIRMED)"

definition occupies :: "uuid \<Rightarrow> sql_date \<Rightarrow> sql_time \<Rightarrow> booking \<Rightarrow> bool" where
  \<comment> \<open>The \<open>WHERE\<close> clause of \<open>is_time_slot_available\<close>.\<close>
  "occupies biz d t b =
     (b_business_id b = biz \<and> b_booking_date b = d \<and> b_booking_time b = t
      \<and> status_in_pending_confirmed (b_status b))"

definition is_time_slot_available :: "uuid \<Rightarrow> sql_date \<Rightarrow> sql_time \<Rightarrow> booking list \<Rightarrow> bool" where
  \<comment> \<open>\<open>SELECT COUNT(*) INTO v_count ...; RETURN v_count = 0\<close>\<close>
  "is_time_slot_available biz d t bookings = (length (filter (occupies biz d t) bookings) = 0)"

subsection \<open>\<open>get_available_time_slots\<close> (migration 002)\<close>

datatype sql_error = step_size_zero

definition generate_series :: "int \<Rightarrow> int \<Rightarrow> int \<Rightarrow> sql_error + int list" where
  \<comment> \<open>PostgreSQL's \<open>generate_series(start, stop, step)\<close> on integers: ascending for a
      positive step, descending for a negative one, an error for step zero.\<close>
  "generate_series a b s =
     (if s = 0 then Inl step_size_zero
      else if 0 < s then
        Inr (if b < a then [] else map (\<lambda>k. a + s * int k) [0 ..< nat ((b - a) div s + 1)])
      else
        Inr (if a < b then [] else map (\<lambda>k. a + s * int k) [0 ..< nat ((a - b) div (- s) + 1)]))"

definition sql_int_div :: "int \<Rightarrow> int \<Rightarrow> int" where
  \<comment> \<open>Integer division of PostgreSQL truncates toward zero (the divisor here is the
      constant 60).\<close>
  "sql_int_div a b = sgn a * sgn b * (\<bar>a\<bar> div \<bar>b\<bar>)"

definition time_config :: "business_time_slot list \<Rightarrow> uuid \<Rightarrow> int \<Rightarrow> business_time_slot list" where
  \<comment> \<open>The CTE \<open>time_config\<close>: the matching active template rows, \<open>LIMIT 1\<close>.\<close>
  "time_config templates biz dow =
     take 1 (filter (\<lambda>r. bts_business_id r = biz \<and> bts_day_of_week r = dow \<and> bts_is_active r)
                    templates)"

definition slot_time_of :: "business_time_slot \<Rightarrow> int \<Rightarrow> sql_time" where
  \<comment> \<open>\<open>(p_date + tc.start_time + (n || ' minutes')::INTERVAL)::TIME\<close>: the cast to
      \<open>TIME\<close> keeps the time of day.\<close>
  "slot_time_of tc n = nat ((int (bts_start_time tc) + 60 * n) mod 86400)"

definition time_slots :: "business_time_slot list \<Rightarrow> uuid \<Rightarrow> int \<Rightarrow> sql_error + sql_time list" where
  \<comment> \<open>The CTE \<open>time_slots\<close>: the cross join of \<open>time_config\<close> with the series of minute
      offsets.\<close>
  "time_slots templates biz dow =
     (case time_config templates biz dow of
        [] \<Rightarrow> Inr []
      | tc # _ \<Rightarrow>
          (case generate_series 0
                  (sql_int_div (int (bts_end_time tc) - int (bts_start_time tc)) 60
                     - bts_slot_duration tc)
                  (bts_slot_duration tc) of
             Inl e \<Rightarrow> Inl e
           | Inr ns \<Rightarrow> Inr (map (slot_time_of tc) ns)))"

definition booked_slots :: "booking list \<Rightarrow> uuid \<Rightarrow> sql_date \<Rightarrow> sql_time list" where
  \<comment> \<open>The CTE \<open>booked_slots\<close>.\<close>
  "booked_slots bookings biz d =
     map b_booking_time
       (filter (\<lambda>b. b_business_id b = biz \<and> b_booking_date b = d
                     \<and> status_in_pending_confirmed (b_status b)) bookings)"

definition left_join_row :: "sql_time list \<Rightarrow> sql_time \<Rightarrow> (sql_time \<times> bool) list" where
  \<comment> \<open>\<open>time_slots ts LEFT JOIN booked_slots bs ON ts.slot_time = bs.booking_time\<close>
      for one slot: one row per matching booking, or one row with \<open>bs\<close> null.\<close>
  "left_join_row booked ts =
     (case filter (\<lambda>bt. ts = bt) booked of
        [] \<Rightarrow> [(ts, True)]
      | ms \<Rightarrow> map (\<lambda>_. (ts, False)) ms)"

definition get_available_time_slots ::
  "business_time_slot list \<Rightarrow> booking list \<Rightarrow> uuid \<Rightarrow> sql_date \<Rightarrow> int
     \<Rightarrow> sql_error + (sql_time \<times> bool) list" where
  \<comment> \<open>The rows \<open>(slot_time, is_available)\<close>, \<open>ORDER BY ts.slot_time\<close>.\<close>
  "get_available_time_slots templates bookings p_business_id p_date p_day_of_week =
     (case time_slots templates p_business_id p_day_of_week of
        Inl e \<Rightarrow> Inl e
      | Inr tss \<Rightarrow>
          Inr (sort_key fst
                 (concat (map (left_join_row (booked_slots bookings p_business_id p_date)) tss))))"

definition spec_slot_available :: "uuid \<Rightarrow> sql_date \<Rightarrow> sql_time \<Rightarrow> booking list \<Rightarrow> bool" where
  \<comment> \<open>Availability in the words of the specification: no reservation with a status
      other than cancelled exists for the triple.\<close>
  "spec_slot_available biz d t bookings =
     (filter (\<lambda>b. b_business_id b = biz \<and> b_booking_date b = d \<and> b_booking_time b = t
                   \<and> b_status b \<noteq> CANCELLED) bookings = [])"

subsection \<open>\<open>create_booking_safe\<close> (migration 003)\<close>

record booking_params =
  p_business_id :: uuid
  p_bot_id :: uuid
  p_customer_name :: string
  p_customer_phone :: string
  p_booking_for :: string
  p_gender :: string
  p_service_id :: "uuid option"
  p_service_name :: string
  p_service_price :: rat
  p_booking_date :: sql_date
  p_booking_time :: sql_time
  p_duration :: int
  p_notes :: "string option"

text \<open>
  One row of the result table \<open>(success, booking_id, error_message)\<close>.
\<close>

record booking_result =
  success :: bool
  booking_id :: "uuid option"
  error_message :: "string option"

definition msg_no_longer_available :: string where
  "msg_no_longer_available =
     ''This time slot is no longer available. Please select another time.''"

definition msg_just_booked :: string where
  "msg_just_booked =
     ''This time slot was just booked by someone else. Please select another time.''"

definition new_booking_row :: "booking_params \<Rightarrow> uuid \<Rightarrow> booking" where
  \<comment> \<open>The \<open>VALUES\<close> list of the \<open>INSERT\<close>; \<open>new_id\<close> is the value the column default
      \<open>uuid_generate_v4()\<close> yields.\<close>
  "new_booking_row p new_id =
     \<lparr> b_id = new_id, b_business_id = p_business_id p, b_bot_id = p_bot_id p,
       b_customer_name = p_customer_name p, b_customer_phone = p_customer_phone p,
       b_booking_for = p_booking_for p, b_gender = p_gender p,
       b_service_id = p_service_id p, b_service_name = p_service_name p,
       b_service_price = p_service_price p, b_booking_date = p_booking_date p,
       b_booking_time = p_booking_time p, b_duration = p_duration p,
       b_status = PENDING, b_notes = p_notes p \<rparr>"

datatype insert_outcome = inserted "booking list" | unique_violation | other_fault string

definition insert_booking :: "booking \<Rightarrow> string option \<Rightarrow> booking list \<Rightarrow> insert_outcome" where
  \<comment> \<open>\<open>INSERT INTO bookings\<close> under the partial unique index
      \<open>idx_bookings_unique_slot\<close> on \<open>(business_id, booking_date, booking_time) WHERE status
      IN ('pending', 'confirmed')\<close>. \<open>fault\<close> is the \<open>SQLERRM\<close> of any other exception
      the statement raises (a foreign key, a not-null or a length check), if one does.\<close>
  "insert_booking row fault bookings =
     (case fault of
        Some m \<Rightarrow> other_fault m
      | None \<Rightarrow>
          if status_in_pending_confirmed (b_status row)
             \<and> \<not> is_time_slot_available (b_business_id row) (b_booking_date row)
                   (b_booking_time row) bookings
          then unique_violation
          else inserted (bookings @ [row]))"

definition create_booking_safe_insert ::
  "booking_params \<Rightarrow> uuid \<Rightarrow> string option \<Rightarrow> booking list \<Rightarrow> booking_result \<times> booking list" where
  \<comment> \<open>The inner \<open>BEGIN ... EXCEPTION ... END\<close> block.\<close>
  "create_booking_safe_insert p new_id fault bookings =
     (case insert_booking (new_booking_row p new_id) fault bookings of
        inserted bookings' \<Rightarrow>
          (\<lparr> success = True, booking_id = Some new_id, error_message = None \<rparr>, bookings')
      | unique_violation \<Rightarrow>
          (\<lparr> success = False, booking_id = None, error_message = Some msg_just_booked \<rparr>,
           bookings)
      | other_fault m \<Rightarrow>
          (\<lparr> success = False, booking_id = None,
             error_message = Some (''Error creating booking: '' @ m) \<rparr>, bookings))"

definition create_booking_safe ::
  "booking_params \<Rightarrow> uuid \<Rightarrow> string option \<Rightarrow> booking list \<Rightarrow> booking_result \<times> booking list" where
  \<comment> \<open>The whole procedure run without interference: the availability check, then the
      insert block.\<close>
  "create_booking_safe p new_id fault bookings =
     (if \<not> is_time_slot_available (p_business_id p) (p_booking_date p) (p_booking_time p) bookings
      then (\<lparr> success = False, booking_id = None,
               error_message = Some msg_no_longer_available \<rparr>, bookings)
      else create_booking_safe_insert p new_id fault bookings)"

definition slot_taken :: "booking_result \<Rightarrow> bool" where
  \<comment> \<open>The failure outcome "slot taken": no success, no booking id, and one of the two
      slot messages of the procedure.\<close>
  "slot_taken r =
     (\<not> success r \<and> booking_id r = None
      \<and> (error_message r = Some msg_no_longer_available
         \<or> error_message r = Some msg_just_booked))"

text \<open>
  Concurrent calls. Under PostgreSQL's default isolation each statement of the procedure
  sees the rows committed before it starts, so another call may commit between the
  availability check and the insert. A call is therefore two atomic steps on the shared
  table, and a schedule (a list of call indices) interleaves the steps of the calls.
\<close>

datatype call_pc = at_check | at_insert | returned booking_result

record call =
  c_params :: booking_params
  c_new_id :: uuid
  c_fault :: "string option"

definition call_step :: "call \<Rightarrow> call_pc \<Rightarrow> booking list \<Rightarrow> call_pc \<times> booking list" where
  "call_step c pc bookings =
     (case pc of
        at_check \<Rightarrow>
          (if \<not> is_time_slot_available (p_business_id (c_params c)) (p_booking_date (c_params c))
                  (p_booking_time (c_params c)) bookings
           then (returned \<lparr> success = False, booking_id = None,
                            error_message = Some msg_no_longer_available \<rparr>, bookings)
           else (at_insert, bookings))
      | at_insert \<Rightarrow>
          (case create_booking_safe_insert (c_params c) (c_new_id c) (c_fault c) bookings of
             (r, bookings') \<Rightarrow> (returned r, bookings'))
      | returned r \<Rightarrow> (returned r, bookings))"

definition sched_step :: "call list \<Rightarrow> call_pc list \<times> booking list \<Rightarrow> nat \<Rightarrow> call_pc list \<times> booking list" where
  "sched_step calls st i =
     (case st of (pcs, bookings) \<Rightarrow>
        if i < length pcs \<and> i < length calls
        then (case call_step (calls ! i) (pcs ! i) bookings of
                (pc', bookings') \<Rightarrow> (pcs[i := pc'], bookings'))
        else (pcs, bookings))"

definition run_calls :: "call list \<Rightarrow> nat list \<Rightarrow> booking list \<Rightarrow> call_pc list \<times> booking list" where
  "run_calls calls sched bookings =
     foldl (sched_step calls) (replicate (length calls) at_check, bookings) sched"

definition is_returned :: "call_pc \<Rightarrow> bool" where
  "is_returned pc = (case pc of returned _ \<Rightarrow> True | _ \<Rightarrow> False)"

definition returned_success :: "call_pc \<Rightarrow> bool" where
  "returned_success pc = (case pc of returned r \<Rightarrow> success r | _ \<Rightarrow> False)"

definition returned_slot_taken :: "call_pc \<Rightarrow> bool" where
  "returned_slot_taken pc = (case pc of returned r \<Rightarrow> slot_taken r | _ \<Rightarrow> False)"

definition returned_fault :: "call \<Rightarrow> call_pc \<Rightarrow> bool" where
  \<comment> \<open>The call has returned the row of the \<open>WHEN OTHERS\<close> handler for the exception its
      insert raises.\<close>
  "returned_fault c pc =
     (case pc of
        returned r \<Rightarrow>
          (case c_fault c of
             None \<Rightarrow> False
           | Some m \<Rightarrow>
               r = \<lparr> success = False, booking_id = None,
                     error_message = Some (''Error creating booking: '' @ m) \<rparr>)
      | _ \<Rightarrow> False)"

definition same_slot :: "uuid \<Rightarrow> sql_date \<Rightarrow> sql_time \<Rightarrow> call \<Rightarrow> bool" where
  "same_slot biz d t c =
     (p_business_id (c_params c) = biz \<and> p_booking_date (c_params c) = d
      \<and> p_booking_time (c_params c) = t)"

definition call_rank :: "call_pc \<Rightarrow> nat" where
  \<comment> \<open>The steps a call has taken.\<close>
  "call_rank pc = (case pc of at_check \<Rightarrow> 0 | at_insert \<Rightarrow> 1 | returned _ \<Rightarrow> 2)"

definition runs_to_completion :: "nat \<Rightarrow> nat list \<Rightarrow> bool" where
  \<comment> \<open>The schedule gives each of the \<open>n\<close> calls its two steps.\<close>
  "runs_to_completion n sched = list_all (\<lambda>i. 2 \<le> count_list sched i) [0 ..< n]"

text \<open>
  The invariant of the interleaved calls for one slot, from the initial table
  \<open>bookings0\<close>: the rows occupying the slot are those of the initial table and one for
  each call that returned success, at most one in all; a call that returned without
  success returned "slot taken" while the slot was occupied, or returned the row of the
  \<open>WHEN OTHERS\<close> handler for its own exception; when the slot was occupied from the start,
  every call is still before its check or has returned "slot taken"; and every occupying
  row that was not in the initial table is pending.
\<close>

definition slot_inv ::
  "uuid \<Rightarrow> sql_date \<Rightarrow> sql_time \<Rightarrow> call list \<Rightarrow> booking list
     \<Rightarrow> call_pc list \<times> booking list \<Rightarrow> bool" where
  "slot_inv biz d t calls bookings0 st =
     (case st of (pcs, bookings) \<Rightarrow>
        length pcs = length calls
      \<and> length (filter (occupies biz d t) bookings)
          = length (filter (occupies biz d t) bookings0) + length (filter returned_success pcs)
      \<and> length (filter (occupies biz d t) bookings) \<le> 1
      \<and> (\<forall>i < length pcs. is_returned (pcs ! i) \<longrightarrow>
            returned_success (pcs ! i)
            \<or> (returned_slot_taken (pcs ! i) \<and> filter (occupies biz d t) bookings \<noteq> [])
            \<or> returned_fault (calls ! i) (pcs ! i))
      \<and> (filter (occupies biz d t) bookings0 \<noteq> [] \<longrightarrow>
            (\<forall>i < length pcs. pcs ! i = at_check \<or> returned_slot_taken (pcs ! i)))
      \<and> (\<forall>b \<in> set bookings. occupies biz d t b \<longrightarrow>
            b \<in> set bookings0 \<or> b_status b = PENDING))"

text \<open>Sample rows used to evaluate the procedures on concrete tables.\<close>

definition ex_templates :: "business_time_slot list" where
  "ex_templates =
     [\<lparr> bts_business_id = ''b1'', bts_day_of_week = 1, bts_start_time = 36000,
        bts_end_time = 39600, bts_slot_duration = 30, bts_is_active = True \<rparr>]"

definition ex_booking :: "BookingStatus \<Rightarrow> booking" where
  "ex_booking st =
     \<lparr> b_id = ''r1'', b_business_id = ''b1'', b_bot_id = ''bot1'',
       b_customer_name = ''Jane'', b_customer_phone = ''100'',
       b_booking_for = ''self'', b_gender = ''female'',
       b_service_id = None, b_service_name = ''Haircut'',
       b_service_price = 500, b_booking_date = 20000,
       b_booking_time = 36000, b_duration = 30,
       b_status = st, b_notes = None \<rparr>"

definition ex_params :: "string \<Rightarrow> booking_params" where
  "ex_params who =
     \<lparr> p_business_id = ''b1'', p_bot_id = ''bot1'', p_customer_name = who,
       p_customer_phone = ''100'', p_booking_for = ''self'', p_gender = ''female'',
       p_service_id = Some ''s1'', p_service_name = ''Haircut'', p_service_price = 500,
       p_booking_date = 20000, p_booking_time = 36000, p_duration = 30, p_notes = None \<rparr>"

definition ex_calls :: "call list" where
  \<comment> \<open>Three calls for the 10:00 slot; the insert of the third raises an exception of its
      own.\<close>
  "ex_calls =
     [\<lparr> c_params = ex_params ''Jane'', c_new_id = ''r1'', c_fault = None \<rparr>,
      \<lparr> c_params = ex_params ''John'', c_new_id = ''r2'', c_fault = None \<rparr>,
      \<lparr> c_params = ex_params ''Jill'', c_new_id = ''r3'',
        c_fault = Some ''violates foreign key constraint'' \<rparr>]"

section \<open>The store, the transports and the channel adapters\<close>

subsection \<open>Outbound content\<close>

text \<open>
  The booking engine builds its replies from fixed templates decorated with emoji. A
  reply is modelled by the name of its template and the values inserted into it;
  \<open>plain\<close> carries a string that comes from configuration or from a collaborator
  (a workflow prompt, an AI reply).
\<close>

datatype bot_text =
    plain string
  | generic_error
  | ask_name
  | invalid_name string
  | ask_booking_for string
  | ask_gender_after_name string
  | invalid_booking_for string
  | ask_gender
  | invalid_gender string
  | no_services
  | services_menu "string list"
  | booking_cancelled
  | invalid_service string
  | no_services_available
  | service_not_found
  | dates_menu "string option" "string list"
  | invalid_date
  | past_date
  | no_slots_for_date
  | all_slots_booked
  | slots_menu "sql_time list"
  | slots_fetch_error
  | invalid_slot
  | confirmation_summary
  | confirmation_invalid string
  | booking_create_error
  | slot_unavailable "string option"
  | booking_confirmed "string option" "string option"
  | options_prompt string "string option list"
  | media_link string string
  | thank_you_recorded
  | error_text string

datatype rich_kind = image | video

datatype payload =
    text_payload bot_text
  | rich_payload rich_kind string string
  | document_payload string string string
  | typing_payload bool
  | error_payload string string

text \<open>
  What the transport does with one payload: \<open>delivered\<close>; \<open>dropped\<close> (the web socket
  of the session is absent or not open, \<open>sendEventToSession\<close> returns without sending);
  or \<open>transport_error\<close> (\<open>sock.sendMessage\<close> rejects, \<open>ws.send\<close> throws).
\<close>

datatype delivery = delivered | dropped | transport_error

datatype channel = whatsapp | web

subsection \<open>Tables\<close>

record message =
  m_bot_id :: uuid
  m_business_id :: uuid
  m_from_number :: string
  m_to_number :: string
  m_message_type :: string
  m_content :: bot_text
  m_direction :: string
  m_status :: string
  m_channel :: "channel option"
  m_session_id :: "string option"
  m_metadata :: "(string \<times> string) list option"

datatype 'a json_field = Missing | Null | Value 'a

text \<open>
  \<open>collectedData\<close>, stored as the JSON column \<open>conversation_state\<close>. The price and the
  duration are copied from a service row whose columns are nullable, so the stored
  field can be absent, \<open>null\<close> or a number.
\<close>

record collected =
  customerName :: "string option"
  customerPhone :: string
  bookingFor :: "string option"
  gender :: "Gender option"
  serviceId :: "uuid option"
  serviceName :: "string option"
  servicePrice :: "rat json_field"
  serviceDuration :: "int json_field"
  bookingDate :: "string option"
  bookingTime :: "sql_time option"

text \<open>
  \<open>bookingTime\<close> is the string \<open>HH:MM\<close> cut from the \<open>slot_time\<close> of a slot row; the
  model keeps the time of day it denotes, \<^term>\<open>t - t mod 60\<close> for a slot time \<open>t\<close>.
\<close>

record ConversationState =
  currentStep :: BookingState
  collectedData :: collected

record booking_conversation =
  bc_id :: uuid
  bc_bot_id :: uuid
  bc_business_id :: uuid
  bc_customer_phone :: string
  bc_conversation_state :: collected
  bc_current_step :: BookingState
  bc_is_completed :: bool
  bc_expires_at :: int
  bc_updated_at :: int

record business_service =
  bs_id :: uuid
  bs_business_id :: uuid
  bs_name :: string
  bs_price :: "rat option"
  bs_duration :: "int option"
  bs_is_active :: bool
  bs_display_order :: int

record bot_settings =
  st_bot_id :: uuid
  st_booking_enabled :: "bool option"
  st_booking_trigger_keywords :: "string list option"
  st_booking_confirmation_message :: "string option"
  st_booking_require_gender :: "bool option"
  st_booking_require_booking_for :: "bool option"
  st_workflow_enabled :: bool
  st_ai_enabled :: "bool option"
  st_auto_reply_enabled :: "bool option"
  st_auto_reply_message :: "string option"

record wf_option =
  o_label :: "string option"
  o_value :: "string option"

datatype step_type =
    collect_field | ai_response | show_options | share_media | conditional | start_booking

record wf_step =
  s_id :: "string option"
  s_type :: step_type
  s_next :: "string option"
  s_prompt_message :: "string option"
  s_options :: "wf_option list"
  s_options_field_key :: "string option"
  s_collect_field_key :: "string option"

datatype wf_status = draft | published

record workflow =
  wf_id :: uuid
  wf_bot_id :: uuid
  wf_status :: wf_status
  wf_is_active :: bool
  wf_keywords :: "string list"
  wf_steps :: "wf_step list"
  wf_actions :: "string list"

record workflow_conversation =
  wc_id :: uuid
  wc_bot_id :: uuid
  wc_user_key :: string
  wc_workflow_id :: uuid
  wc_current_step_id :: string
  wc_state :: "(string \<times> string) list"
  wc_is_completed :: bool
  wc_channel :: channel

record inquiry =
  i_bot_id :: uuid
  i_workflow_id :: uuid
  i_inquiry_data :: "(string \<times> string) list"
  i_status :: string
  i_source :: channel
  i_customer_phone :: "string option"

datatype media_type = media_image | media_video | media_document | media_location | media_contact

record bot_media =
  bm_bot_id :: uuid
  bm_mediaType :: media_type
  bm_title :: "string option"
  bm_fileUrl :: "string option"
  bm_fileName :: "string option"

text \<open>
  The state of the system between two steps: the tables, and \<open>outbox\<close>, the payloads the
  transports have delivered so far with the channel and the user they went to.
  \<open>invoked\<close> is instrumentation: it records, in order, which engine entry points have run.
\<close>

datatype entry_point =
    ep_handleBookingMessage | ep_tryHandle | ep_trigger_match | ep_continueConversation
  | ep_ai_reply

record world =
  booking_conversations :: "booking_conversation list"
  workflow_conversations :: "workflow_conversation list"
  bookings :: "booking list"
  messages :: "message list"
  inquiries :: "inquiry list"
  settings :: "bot_settings list"
  workflows :: "workflow list"
  business_services :: "business_service list"
  business_time_slots :: "business_time_slot list"
  media :: "bot_media list"
  bot_phone_numbers :: "(uuid \<times> string) list"
  widget_bots :: "uuid list"
  outbox :: "(channel \<times> string \<times> payload) list"
  invoked :: "entry_point list"

text \<open>
  What one turn reads from outside the store: the clock, the behaviour of the
  transport, the values the storage layer generates, and the results of the JavaScript
  \<open>Date\<close> operations, of the conversions \<open>Number(s)\<close> and \<open>String(n)\<close> and of the AI
  collaborator, which are not code of this repository. \<open>e_Number s\<close> is the finite value
  of \<open>Number(s)\<close>, \<open>None\<close> when it is \<open>NaN\<close> or infinite.
\<close>

text \<open>
  What the intent classifier and the reply generator produce for the message of the
  turn, as far as the router distinguishes it: a booking intent with a confidence of
  at least 0.7 (with the reply generated when booking is disabled), one of the intents
  answered by media sent directly on the socket, or a generated reply.
\<close>

datatype ai_outcome =
    ai_booking_request string
  | ai_direct "payload list"
  | ai_text string

record env =
  e_now :: int
  e_deliver :: "payload \<Rightarrow> delivery"
  e_messages_insert_ok :: bool
  e_new_conversation_id :: uuid
  e_new_wf_conversation_id :: uuid
  e_new_booking_id :: uuid
  e_insert_fault :: "string option"
  e_iso_date_plus :: "nat \<Rightarrow> string"
  e_date_ms :: "string \<Rightarrow> int option"
  e_local_midnight :: int
  e_day_of_week :: "string \<Rightarrow> int option"
  e_sql_date_of :: "string \<Rightarrow> sql_date option"
  e_ai_reply :: "string \<Rightarrow> string"
  e_ai_outcome :: ai_outcome
  e_Number :: "string \<Rightarrow> rat option"
  e_number_to_string :: "rat \<Rightarrow> string"

subsection \<open>Exceptions\<close>

text \<open>
  An \<open>async\<close> function that returns \<open>void\<close> either completes or throws; in both cases
  the writes it has made so far stay. \<open>Ok\<close> is normal completion, \<open>Thrown\<close> an
  exception.
\<close>

datatype completion = Ok | Thrown

type_synonym action = "world \<Rightarrow> completion \<times> world"

fun seq :: "action list \<Rightarrow> action" where
  \<comment> \<open>Statements awaited one after the other; the first exception ends the sequence.\<close>
  "seq [] w = (Ok, w)"
| "seq (a # as) w = (case a w of (Ok, w') \<Rightarrow> seq as w' | (Thrown, w') \<Rightarrow> (Thrown, w'))"

definition try_catch :: "action \<Rightarrow> action \<Rightarrow> action" where
  \<comment> \<open>\<open>try { body } catch { handler }\<close>\<close>
  "try_catch body handler w =
     (case body w of (Ok, w') \<Rightarrow> (Ok, w') | (Thrown, w') \<Rightarrow> handler w')"

definition skip :: action where
  "skip w = (Ok, w)"

definition truthy :: "string option \<Rightarrow> bool" where
  \<comment> \<open>JavaScript truthiness of an optional string: \<open>undefined\<close>, \<open>null\<close> and the empty
      string are falsy.\<close>
  "truthy s = (case s of None \<Rightarrow> False | Some v \<Rightarrow> v \<noteq> [])"

definition single :: "'a list \<Rightarrow> 'a option" where
  \<comment> \<open>The \<open>data\<close> of a PostgREST query ended with \<open>.single()\<close> or \<open>.maybeSingle()\<close>: the
      row when exactly one row matches, \<open>null\<close> otherwise.\<close>
  "single rows = (case rows of [r] \<Rightarrow> Some r | _ \<Rightarrow> None)"

subsection \<open>Channel adapters (whatsapp-adapter.ts, web-adapter.ts)\<close>

record adapter =
  a_channel :: channel
  a_botId :: uuid
  a_businessId :: uuid
  a_userKey :: string

definition transport :: "env \<Rightarrow> adapter \<Rightarrow> payload \<Rightarrow> action" where
  \<comment> \<open>\<open>this.sock.sendMessage(this.jid, ...)\<close> on the phone channel,
      \<open>this.sendEvent(event)\<close> on the web channel.\<close>
  "transport e a p w =
     (case e_deliver e p of
        delivered \<Rightarrow> (Ok, w\<lparr> outbox := outbox w @ [(a_channel a, a_userKey a, p)] \<rparr>)
      | dropped \<Rightarrow> (Ok, w)
      | transport_error \<Rightarrow> (Thrown, w))"

definition saveMessage ::
  "env \<Rightarrow> adapter \<Rightarrow> bot_text \<Rightarrow> string \<Rightarrow> (string \<times> string) list option \<Rightarrow> action" where
  \<comment> \<open>The private helper of both adapters, called with direction \<open>outbound\<close>. The result
      of the insert is not inspected and an exception is caught and logged, so a failed
      insert leaves no row and no error.\<close>
  "saveMessage e a content messageType metadata w =
     (if e_messages_insert_ok e
      then (Ok, w\<lparr> messages := messages w @
              [\<lparr> m_bot_id = a_botId a, m_business_id = a_businessId a,
                 m_from_number =
                   (case a_channel a of
                      whatsapp \<Rightarrow> (case map_of (bot_phone_numbers w) (a_botId a) of
                                    Some n \<Rightarrow> n | None \<Rightarrow> [])
                    | web \<Rightarrow> ''bot''),
                 m_to_number = (case a_channel a of whatsapp \<Rightarrow> a_userKey a | web \<Rightarrow> ''web_user''),
                 m_message_type = messageType, m_content = content,
                 m_direction = ''outbound'', m_status = ''sent'',
                 m_channel = Some (a_channel a),
                 m_session_id = (case a_channel a of whatsapp \<Rightarrow> None | web \<Rightarrow> Some (a_userKey a)),
                 m_metadata = metadata \<rparr>] \<rparr>)
      else (Ok, w))"

definition sendText :: "env \<Rightarrow> adapter \<Rightarrow> bot_text \<Rightarrow> (string \<times> string) list option \<Rightarrow> action" where
  \<comment> \<open>\<open>sendText\<close> of both adapters: transport first, then \<open>saveMessage\<close>; the \<open>catch\<close>
      logs and rethrows.\<close>
  "sendText e a text metadata =
     seq [transport e a (text_payload text), saveMessage e a text ''text'' metadata]"

definition sendRich :: "env \<Rightarrow> adapter \<Rightarrow> rich_kind \<Rightarrow> string \<Rightarrow> string \<Rightarrow> action" where
  \<comment> \<open>\<open>sendRich\<close> of both adapters: the transport call only.\<close>
  "sendRich e a kind url caption = transport e a (rich_payload kind url caption)"

definition has_sendDocument :: "adapter \<Rightarrow> bool" where
  \<comment> \<open>Only the web adapter defines \<open>sendDocument\<close>.\<close>
  "has_sendDocument a = (a_channel a = web)"

definition or_else :: "string option \<Rightarrow> string \<Rightarrow> string" where
  \<comment> \<open>JavaScript \<open>a || b\<close> on an optional string.\<close>
  "or_else a b = (case a of None \<Rightarrow> b | Some v \<Rightarrow> if v = [] then b else v)"

definition sendDocument ::
  "env \<Rightarrow> adapter \<Rightarrow> string \<Rightarrow> string option \<Rightarrow> string option \<Rightarrow> string option
     \<Rightarrow> string option \<Rightarrow> action" where
  \<comment> \<open>\<open>WebAdapter.sendDocument({ url, fileName, mimeType, caption, title })\<close>: the event
      carries the text \<open>caption || title || ''\<close>; the row saved has the content
      \<open>caption || `Document: ${fileName || 'document.pdf'}`\<close> and the url, file name and mime
      type as metadata.\<close>
  "sendDocument e a url fileName mimeType caption title =
     seq [transport e a
            (document_payload url (or_else fileName ''document.pdf'')
               (or_else caption (or_else title []))),
          saveMessage e a
            (plain (or_else caption (''Document: '' @ or_else fileName ''document.pdf'')))
            ''document''
            (Some ([(''url'', url)]
                   @ (case fileName of None \<Rightarrow> [] | Some f \<Rightarrow> [(''fileName'', f)])
                   @ (case mimeType of None \<Rightarrow> [] | Some m \<Rightarrow> [(''mimeType'', m)])))]"

definition sendTyping :: "env \<Rightarrow> adapter \<Rightarrow> bool \<Rightarrow> action" where
  \<comment> \<open>Best effort: an exception of the transport is caught and logged.\<close>
  "sendTyping e a start = try_catch (transport e a (typing_payload start)) skip"

definition sendError :: "env \<Rightarrow> adapter \<Rightarrow> string \<Rightarrow> string \<Rightarrow> action" where
  \<comment> \<open>On the phone channel a prefixed text through \<open>sendText\<close>, on the web channel an
      \<open>error\<close> event; exceptions are caught and logged.\<close>
  "sendError e a code msg =
     (case a_channel a of
        whatsapp \<Rightarrow> try_catch (sendText e a (error_text msg) None) skip
      | web \<Rightarrow> try_catch (transport e a (error_payload code msg)) skip)"


section \<open>Booking conversations (booking-state-manager.ts)\<close>

definition THIRTY_MINUTES :: int where
  \<comment> \<open>\<open>30 * 60 * 1000\<close> milliseconds\<close>
  "THIRTY_MINUTES = 30 * 60 * 1000"

definition bc_key :: "booking_conversation \<Rightarrow> uuid \<times> string \<times> bool" where
  \<comment> \<open>The columns of the table constraint
      \<open>UNIQUE(bot_id, customer_phone, is_completed)\<close>.\<close>
  "bc_key r = (bc_bot_id r, bc_customer_phone r, bc_is_completed r)"

definition bc_unique :: "booking_conversation list \<Rightarrow> bool" where
  \<comment> \<open>The table satisfies its unique constraint.\<close>
  "bc_unique tbl = distinct (map bc_key tbl)"

definition bc_active :: "uuid \<Rightarrow> string \<Rightarrow> booking_conversation \<Rightarrow> bool" where
  \<comment> \<open>\<open>.eq('bot_id', botId).eq('customer_phone', customerPhone).eq('is_completed', false)\<close>\<close>
  "bc_active botId phone r =
     (bc_bot_id r = botId \<and> bc_customer_phone r = phone \<and> \<not> bc_is_completed r)"

text \<open>
  An \<open>UPDATE\<close> of \<open>booking_conversations\<close> that changes \<open>is_completed\<close>. The table
  satisfies its unique constraint before the statement (the storage layer guarantees
  it), so the statement fails, changing nothing, exactly when some row is selected and
  the updated table would violate the constraint. \<open>None\<close> is the failed statement.
\<close>

definition bc_update_keyed ::
  "(booking_conversation \<Rightarrow> bool) \<Rightarrow> (booking_conversation \<Rightarrow> booking_conversation)
     \<Rightarrow> booking_conversation list \<Rightarrow> booking_conversation list option" where
  "bc_update_keyed sel f tbl =
     (let tbl' = map (\<lambda>r. if sel r then f r else r) tbl in
      if \<not> list_ex sel tbl then Some tbl
      else if bc_unique tbl' then Some tbl' else None)"

definition state_parses :: "collected \<Rightarrow> bool" where
  \<comment> \<open>\<open>conversationStateSchema.parse\<close> on a stored row: \<open>z.number().optional()\<close>
      rejects \<open>null\<close>.\<close>
  "state_parses c = (servicePrice c \<noteq> Null \<and> serviceDuration c \<noteq> Null)"

definition initial_collected :: "string \<Rightarrow> collected" where
  "initial_collected phone =
     \<lparr> customerName = None, customerPhone = phone, bookingFor = None, gender = None,
       serviceId = None, serviceName = None, servicePrice = Missing,
       serviceDuration = Missing, bookingDate = None, bookingTime = None \<rparr>"

definition getOrCreateState ::
  "env \<Rightarrow> uuid \<Rightarrow> uuid \<Rightarrow> string \<Rightarrow> world \<Rightarrow> ConversationState option \<times> world" where
  \<comment> \<open>\<open>None\<close> is a thrown exception (the parse of the stored row, or the insert).\<close>
  "getOrCreateState e botId businessId phone w =
     (case single (filter (bc_active botId phone) (booking_conversations w)) of
        Some existing \<Rightarrow>
          (if state_parses (bc_conversation_state existing)
           then (Some \<lparr> currentStep = bc_current_step existing,
                        collectedData = bc_conversation_state existing \<rparr>, w)
           else (None, w))
      | None \<Rightarrow>
          (if (botId, phone, False) \<in> set (map bc_key (booking_conversations w))
           then (None, w)
           else (Some \<lparr> currentStep = IDLE, collectedData = initial_collected phone \<rparr>,
                 w\<lparr> booking_conversations := booking_conversations w @
                      [\<lparr> bc_id = e_new_conversation_id e, bc_bot_id = botId,
                         bc_business_id = businessId, bc_customer_phone = phone,
                         bc_conversation_state = initial_collected phone,
                         bc_current_step = IDLE, bc_is_completed = False,
                         bc_expires_at = e_now e + THIRTY_MINUTES,
                         bc_updated_at = e_now e \<rparr>] \<rparr>)))"

definition updateState :: "env \<Rightarrow> uuid \<Rightarrow> string \<Rightarrow> ConversationState \<Rightarrow> action" where
  "updateState e botId phone state w =
     (Ok, w\<lparr> booking_conversations :=
               map (\<lambda>r. if bc_active botId phone r
                         then r\<lparr> bc_conversation_state := collectedData state,
                                 bc_current_step := currentStep state,
                                 bc_updated_at := e_now e \<rparr>
                         else r) (booking_conversations w) \<rparr>)"

definition completeConversation :: "env \<Rightarrow> uuid \<Rightarrow> string \<Rightarrow> action" where
  "completeConversation e botId phone w =
     (case bc_update_keyed (bc_active botId phone)
             (\<lambda>r. r\<lparr> bc_is_completed := True, bc_current_step := COMPLETED,
                      bc_updated_at := e_now e \<rparr>) (booking_conversations w) of
        Some tbl \<Rightarrow> (Ok, w\<lparr> booking_conversations := tbl \<rparr>)
      | None \<Rightarrow> (Thrown, w))"

definition cancelConversation :: "env \<Rightarrow> uuid \<Rightarrow> string \<Rightarrow> action" where
  "cancelConversation e botId phone w =
     (case bc_update_keyed (bc_active botId phone)
             (\<lambda>r. r\<lparr> bc_is_completed := True, bc_current_step := IDLE,
                      bc_updated_at := e_now e \<rparr>) (booking_conversations w) of
        Some tbl \<Rightarrow> (Ok, w\<lparr> booking_conversations := tbl \<rparr>)
      | None \<Rightarrow> (Thrown, w))"

definition hasActiveConversation :: "uuid \<Rightarrow> string \<Rightarrow> world \<Rightarrow> bool" where
  "hasActiveConversation botId phone w =
     (single (filter (bc_active botId phone) (booking_conversations w)) \<noteq> None)"

definition bc_expired :: "int \<Rightarrow> booking_conversation \<Rightarrow> bool" where
  \<comment> \<open>\<open>.lt('expires_at', now).eq('is_completed', false)\<close>\<close>
  "bc_expired now r = (bc_expires_at r < now \<and> \<not> bc_is_completed r)"

definition cleanupExpiredConversations :: "int \<Rightarrow> world \<Rightarrow> nat \<times> world" where
  \<comment> \<open>One \<open>UPDATE ... SET is_completed = true\<close> over all expired rows, returning the
      number of rows updated, or 0 when the statement fails.\<close>
  "cleanupExpiredConversations now w =
     (case bc_update_keyed (bc_expired now) (\<lambda>r. r\<lparr> bc_is_completed := True \<rparr>)
             (booking_conversations w) of
        Some tbl \<Rightarrow> (length (filter (bc_expired now) (booking_conversations w)),
                     w\<lparr> booking_conversations := tbl \<rparr>)
      | None \<Rightarrow> (0, w))"

definition extendExpiry :: "env \<Rightarrow> uuid \<Rightarrow> string \<Rightarrow> int \<Rightarrow> action" where
  "extendExpiry e botId phone minutes w =
     (Ok, w\<lparr> booking_conversations :=
               map (\<lambda>r. if bc_active botId phone r
                         then r\<lparr> bc_expires_at := e_now e + minutes * 60 * 1000,
                                 bc_updated_at := e_now e \<rparr>
                         else r) (booking_conversations w) \<rparr>)"


section \<open>The booking conversation engine (booking-service.ts)\<close>

definition digits_only :: "string \<Rightarrow> bool" where
  \<comment> \<open>\<open>/^\\d+$/.test(s)\<close>\<close>
  "digits_only s = (s \<noteq> [] \<and> list_all js_is_digit s)"

definition parseInt_digits :: "string \<Rightarrow> nat" where
  \<comment> \<open>\<open>parseInt(s)\<close> for a string of decimal digits.\<close>
  "parseInt_digits s = foldl (\<lambda>n c. 10 * n + (of_char c - 48)) 0 s"

definition iso_date_shape :: "string \<Rightarrow> bool" where
  \<comment> \<open>\<open>/^\\d{4}-\\d{2}-\\d{2}$/.test(s)\<close>\<close>
  "iso_date_shape s =
     (length s = 10 \<and> list_all js_is_digit (take 4 s) \<and> s ! 4 = CHR ''-''
      \<and> list_all js_is_digit (take 2 (drop 5 s)) \<and> s ! 7 = CHR ''-''
      \<and> list_all js_is_digit (drop 8 s))"

definition js_upper_char :: "char \<Rightarrow> char" where
  \<comment> \<open>\<open>toUpperCase\<close> on one ASCII code unit (booking ids are hexadecimal).\<close>
  "js_upper_char c =
     (let n = (of_char c :: nat) in if 97 \<le> n \<and> n \<le> 122 then char_of (n - 32) else c)"

definition settings_of :: "world \<Rightarrow> uuid \<Rightarrow> bot_settings option" where
  \<comment> \<open>\<open>from('bot_settings').select(...).eq('bot_id', botId).single()\<close>\<close>
  "settings_of w botId = single (filter (\<lambda>s. st_bot_id s = botId) (settings w))"

definition default_keywords :: "string list" where
  "default_keywords = [''book'', ''booking'', ''appointment'', ''schedule'', ''reserve'']"

definition isBookingTrigger :: "string \<Rightarrow> string list \<Rightarrow> bool" where
  "isBookingTrigger message keywords =
     list_ex (\<lambda>keyword. js_includes (toLowerCase message) (toLowerCase keyword)) keywords"

definition isBookingEnabled :: "world \<Rightarrow> uuid \<Rightarrow> bool" where
  "isBookingEnabled w botId =
     (case settings_of w botId of None \<Rightarrow> False | Some s \<Rightarrow> st_booking_enabled s = Some True)"

definition getBookingKeywords :: "world \<Rightarrow> uuid \<Rightarrow> string list" where
  "getBookingKeywords w botId =
     (case settings_of w botId of
        None \<Rightarrow> default_keywords
      | Some s \<Rightarrow> (case st_booking_trigger_keywords s of
                     None \<Rightarrow> default_keywords | Some ks \<Rightarrow> ks))"

definition requireBookingFor :: "world \<Rightarrow> uuid \<Rightarrow> bool" where
  \<comment> \<open>\<open>(settings as any)?.booking_require_booking_for !== false\<close>\<close>
  "requireBookingFor w botId =
     (case settings_of w botId of
        None \<Rightarrow> True | Some s \<Rightarrow> st_booking_require_booking_for s \<noteq> Some False)"

definition requireGender :: "world \<Rightarrow> uuid \<Rightarrow> bool" where
  \<comment> \<open>\<open>(settings as any)?.booking_require_gender !== false\<close>\<close>
  "requireGender w botId =
     (case settings_of w botId of
        None \<Rightarrow> True | Some s \<Rightarrow> st_booking_require_gender s \<noteq> Some False)"

definition active_services :: "world \<Rightarrow> uuid \<Rightarrow> business_service list" where
  \<comment> \<open>\<open>from('business_services')...eq('business_id', businessId).eq('is_active', true)
      .order('display_order', { ascending: true })\<close>\<close>
  "active_services w businessId =
     sort_key bs_display_order
       (filter (\<lambda>s. bs_business_id s = businessId \<and> bs_is_active s) (business_services w))"

definition rpc_get_available_time_slots ::
  "env \<Rightarrow> uuid \<Rightarrow> string option \<Rightarrow> world \<Rightarrow> (sql_time \<times> bool) list option" where
  \<comment> \<open>\<open>supabaseAdmin.rpc('get_available_time_slots', { p_business_id, p_date,
      p_day_of_week })\<close> with \<open>p_date = state.collectedData.bookingDate\<close> and
      \<open>p_day_of_week = new Date(bookingDate).getDay()\<close>. \<open>None\<close> is the \<open>error\<close> of the
      call (a date that does not cast, a failing query); an invalid \<open>Date\<close> makes the day
      of week \<open>null\<close>, which matches no template row.\<close>
  "rpc_get_available_time_slots e businessId date w =
     (case date of
        None \<Rightarrow> None
      | Some ds \<Rightarrow>
          (case e_sql_date_of e ds of
             None \<Rightarrow> None
           | Some d \<Rightarrow>
               (case e_day_of_week e ds of
                  None \<Rightarrow> Some []
                | Some dow \<Rightarrow>
                    (case get_available_time_slots (business_time_slots w) (bookings w)
                            businessId d dow of
                       Inl _ \<Rightarrow> None
                     | Inr rows \<Rightarrow> Some rows))))"

definition hhmm :: "sql_time \<Rightarrow> sql_time" where
  \<comment> \<open>\<open>slot.slot_time.substring(0, 5)\<close>: the time of day without its seconds.\<close>
  "hhmm t = t - t mod 60"

definition num_or :: "'a json_field \<Rightarrow> 'a::zero \<Rightarrow> 'a" where
  \<comment> \<open>JavaScript \<open>x || d\<close> on an optional number.\<close>
  "num_or x d = (case x of Value v \<Rightarrow> if v = 0 then d else v | _ \<Rightarrow> d)"

definition confirmation_params :: "env \<Rightarrow> adapter \<Rightarrow> collected \<Rightarrow> booking_params option" where
  \<comment> \<open>The arguments of the \<open>create_booking_safe\<close> call. An \<open>undefined\<close> argument is
      left out of the request and a date string that does not cast is refused; in both
      cases the call returns an \<open>error\<close> (\<open>None\<close>).\<close>
  "confirmation_params e a data =
     (case (customerName data, serviceId data, serviceName data, bookingDate data,
            bookingTime data) of
        (Some name, Some sid, Some sname, Some ds, Some t) \<Rightarrow>
          (case e_sql_date_of e ds of
             None \<Rightarrow> None
           | Some d \<Rightarrow>
               Some \<lparr> p_business_id = a_businessId a, p_bot_id = a_botId a,
                      p_customer_name = name, p_customer_phone = a_userKey a,
                      p_booking_for = or_else (bookingFor data) ''self'',
                      p_gender = (case gender data of
                                    None \<Rightarrow> ''not specified'' | Some MALE \<Rightarrow> ''male''
                                  | Some FEMALE \<Rightarrow> ''female'' | Some OTHER \<Rightarrow> ''other''),
                      p_service_id = Some sid, p_service_name = sname,
                      p_service_price = num_or (servicePrice data) 0,
                      p_booking_date = d, p_booking_time = t,
                      p_duration = num_or (serviceDuration data) 30, p_notes = None \<rparr>)
      | _ \<Rightarrow> None)"

definition sendMessage :: "env \<Rightarrow> adapter \<Rightarrow> bot_text \<Rightarrow> action" where
  "sendMessage e a message = sendText e a message None"

definition set_step :: "BookingState \<Rightarrow> ConversationState \<Rightarrow> ConversationState" where
  \<comment> \<open>\<open>state.currentStep = step\<close>\<close>
  "set_step step state = state\<lparr> currentStep := step \<rparr>"

definition startBooking :: "env \<Rightarrow> adapter \<Rightarrow> ConversationState \<Rightarrow> action" where
  "startBooking e a state =
     seq [updateState e (a_botId a) (a_userKey a) (set_step COLLECTING_NAME state),
          sendMessage e a ask_name]"

definition handleCancel :: "env \<Rightarrow> adapter \<Rightarrow> action" where
  "handleCancel e a =
     seq [cancelConversation e (a_botId a) (a_userKey a), sendMessage e a booking_cancelled]"

definition handleNameInput :: "env \<Rightarrow> adapter \<Rightarrow> string \<Rightarrow> ConversationState \<Rightarrow> action" where
  "handleNameInput e a message state =
     (case validateName message of
        Invalid err \<Rightarrow> sendMessage e a (invalid_name err)
      | Valid v \<Rightarrow>
          (\<lambda>w. let named = state\<lparr> collectedData := (collectedData state)\<lparr> customerName := Some v \<rparr> \<rparr>
               in if requireBookingFor w (a_botId a)
                  then seq [updateState e (a_botId a) (a_userKey a)
                              (set_step COLLECTING_BOOKING_FOR named),
                            sendMessage e a (ask_booking_for v)] w
                  else seq [updateState e (a_botId a) (a_userKey a)
                              (set_step COLLECTING_GENDER
                                 (named\<lparr> collectedData :=
                                    (collectedData named)\<lparr> bookingFor := Some ''self'' \<rparr> \<rparr>)),
                            sendMessage e a (ask_gender_after_name v)] w))"

definition showServices :: "env \<Rightarrow> adapter \<Rightarrow> ConversationState \<Rightarrow> action" where
  "showServices e a state w =
     (case active_services w (a_businessId a) of
        [] \<Rightarrow> seq [sendMessage e a no_services,
                   cancelConversation e (a_botId a) (a_userKey a)] w
      | services \<Rightarrow>
          seq [updateState e (a_botId a) (a_userKey a) (set_step COLLECTING_SERVICE state),
               sendMessage e a (services_menu (map bs_name services))] w)"

definition handleBookingForInput :: "env \<Rightarrow> adapter \<Rightarrow> string \<Rightarrow> ConversationState \<Rightarrow> action" where
  "handleBookingForInput e a message state =
     (case validateBookingFor message of
        Invalid err \<Rightarrow> sendMessage e a (invalid_booking_for err)
      | Valid v \<Rightarrow>
          (\<lambda>w. let chosen = state\<lparr> collectedData := (collectedData state)\<lparr> bookingFor := Some v \<rparr> \<rparr>
               in if requireGender w (a_botId a)
                  then seq [updateState e (a_botId a) (a_userKey a)
                              (set_step COLLECTING_GENDER chosen),
                            sendMessage e a ask_gender] w
                  else seq [updateState e (a_botId a) (a_userKey a)
                              (set_step SHOWING_SERVICES chosen),
                            showServices e a (set_step SHOWING_SERVICES chosen)] w))"

definition handleGenderInput :: "env \<Rightarrow> adapter \<Rightarrow> string \<Rightarrow> ConversationState \<Rightarrow> action" where
  "handleGenderInput e a message state =
     (let trimmed = js_trim message;
          input = (if trimmed = ''1'' then ''male'' else if trimmed = ''2'' then ''female''
                   else if trimmed = ''3'' then ''other'' else trimmed)
      in case validateGender input of
           Invalid err \<Rightarrow> sendMessage e a (invalid_gender err)
         | Valid g \<Rightarrow>
             (let chosen = set_step SHOWING_SERVICES
                    (state\<lparr> collectedData := (collectedData state)\<lparr> gender := Some g \<rparr> \<rparr>)
              in seq [updateState e (a_botId a) (a_userKey a) chosen,
                      showServices e a chosen]))"

definition showAvailableDates :: "env \<Rightarrow> adapter \<Rightarrow> ConversationState \<Rightarrow> action" where
  "showAvailableDates e a state =
     seq [updateState e (a_botId a) (a_userKey a) (set_step COLLECTING_DATE state),
          sendMessage e a
            (dates_menu (serviceName (collectedData state)) (map (e_iso_date_plus e) [0 ..< 7]))]"

definition find_service :: "string \<Rightarrow> business_service list \<Rightarrow> business_service option" where
  \<comment> \<open>The selection by number or by name of \<open>handleServiceInput\<close>; \<open>input\<close> is the
      validated value in lower case.\<close>
  "find_service input services =
     (if digits_only input
      then (if 1 \<le> parseInt_digits input \<and> parseInt_digits input - 1 < length services
            then Some (services ! (parseInt_digits input - 1)) else None)
      else List.find (\<lambda>s. toLowerCase (bs_name s) = input
                           \<or> js_includes (toLowerCase (bs_name s)) input) services)"

definition to_json_field :: "'a option \<Rightarrow> 'a json_field" where
  \<comment> \<open>A nullable column copied into the JSON state: \<open>null\<close> stays \<open>null\<close>.\<close>
  "to_json_field x = (case x of None \<Rightarrow> Null | Some v \<Rightarrow> Value v)"

definition handleServiceInput :: "env \<Rightarrow> adapter \<Rightarrow> string \<Rightarrow> ConversationState \<Rightarrow> action" where
  "handleServiceInput e a message state =
     (case validateServiceSelection message of
        Invalid err \<Rightarrow> sendMessage e a (invalid_service err)
      | Valid v \<Rightarrow>
          (\<lambda>w. case active_services w (a_businessId a) of
                 [] \<Rightarrow> sendMessage e a no_services_available w
               | services \<Rightarrow>
                   (case find_service (toLowerCase v) services of
                      None \<Rightarrow> sendMessage e a service_not_found w
                    | Some selectedService \<Rightarrow>
                        (let chosen = set_step SHOWING_DATES
                               (state\<lparr> collectedData := (collectedData state)
                                  \<lparr> serviceId := Some (bs_id selectedService),
                                    serviceName := Some (bs_name selectedService),
                                    servicePrice := to_json_field (bs_price selectedService),
                                    serviceDuration := to_json_field (bs_duration selectedService) \<rparr> \<rparr>)
                         in seq [updateState e (a_botId a) (a_userKey a) chosen,
                                 showAvailableDates e a chosen] w))))"

definition showAvailableTimeSlots :: "env \<Rightarrow> adapter \<Rightarrow> ConversationState \<Rightarrow> action" where
  "showAvailableTimeSlots e a state w =
     (case rpc_get_available_time_slots e (a_businessId a) (bookingDate (collectedData state)) w of
        None \<Rightarrow>
          seq [sendMessage e a no_slots_for_date,
               updateState e (a_botId a) (a_userKey a) (set_step SHOWING_DATES state),
               showAvailableDates e a (set_step SHOWING_DATES state)] w
      | Some [] \<Rightarrow>
          seq [sendMessage e a no_slots_for_date,
               updateState e (a_botId a) (a_userKey a) (set_step SHOWING_DATES state),
               showAvailableDates e a (set_step SHOWING_DATES state)] w
      | Some slots \<Rightarrow>
          (case filter snd slots of
             [] \<Rightarrow>
               seq [sendMessage e a all_slots_booked,
                    updateState e (a_botId a) (a_userKey a) (set_step SHOWING_DATES state),
                    showAvailableDates e a (set_step SHOWING_DATES state)] w
           | availableSlots \<Rightarrow>
               seq [updateState e (a_botId a) (a_userKey a) (set_step COLLECTING_TIME state),
                    sendMessage e a (slots_menu (map (hhmm \<circ> fst) availableSlots))] w))"

definition select_date :: "env \<Rightarrow> string \<Rightarrow> string option" where
  \<comment> \<open>The computation of \<open>selectedDate\<close> in \<open>handleDateInput\<close>; \<open>input\<close> is the message
      trimmed and in lower case.\<close>
  "select_date e input =
     (if digits_only input
      then (if 1 \<le> parseInt_digits input \<and> parseInt_digits input - 1 < 7
            then Some (e_iso_date_plus e (parseInt_digits input - 1)) else None)
      else if input = ''today'' then Some (e_iso_date_plus e 0)
      else if input = ''tomorrow'' then Some (e_iso_date_plus e 1)
      else if iso_date_shape input then Some input
      else None)"

definition handleDateInput :: "env \<Rightarrow> adapter \<Rightarrow> string \<Rightarrow> ConversationState \<Rightarrow> action" where
  "handleDateInput e a message state =
     (case select_date e (toLowerCase (js_trim message)) of
        None \<Rightarrow> sendMessage e a invalid_date
      | Some selectedDate \<Rightarrow>
          (if (case e_date_ms e selectedDate of None \<Rightarrow> False | Some ms \<Rightarrow> ms < e_local_midnight e)
           then sendMessage e a past_date
           else (let chosen = set_step SHOWING_TIME_SLOTS
                       (state\<lparr> collectedData :=
                          (collectedData state)\<lparr> bookingDate := Some selectedDate \<rparr> \<rparr>)
                 in seq [updateState e (a_botId a) (a_userKey a) chosen,
                         showAvailableTimeSlots e a chosen])))"

definition showConfirmation :: "env \<Rightarrow> adapter \<Rightarrow> ConversationState \<Rightarrow> action" where
  "showConfirmation e a state = sendMessage e a confirmation_summary"

definition handleTimeInput :: "env \<Rightarrow> adapter \<Rightarrow> string \<Rightarrow> ConversationState \<Rightarrow> action" where
  "handleTimeInput e a message state w =
     (case rpc_get_available_time_slots e (a_businessId a) (bookingDate (collectedData state)) w of
        None \<Rightarrow> sendMessage e a slots_fetch_error w
      | Some slots \<Rightarrow>
          (let availableSlots = filter snd slots; input = js_trim message in
           if digits_only input \<and> 1 \<le> parseInt_digits input
              \<and> parseInt_digits input - 1 < length availableSlots
           then (let chosen = set_step CONFIRMING
                       (state\<lparr> collectedData := (collectedData state)
                          \<lparr> bookingTime :=
                              Some (hhmm (fst (availableSlots ! (parseInt_digits input - 1)))) \<rparr> \<rparr>)
                 in seq [updateState e (a_botId a) (a_userKey a) chosen,
                         showConfirmation e a chosen] w)
           else sendMessage e a invalid_slot w))"

definition handleConfirmation :: "env \<Rightarrow> adapter \<Rightarrow> string \<Rightarrow> ConversationState \<Rightarrow> action" where
  "handleConfirmation e a message state =
     (case validateConfirmation message of
        Invalid err \<Rightarrow> sendMessage e a (confirmation_invalid err)
      | Valid False \<Rightarrow> handleCancel e a
      | Valid True \<Rightarrow>
          (case confirmation_params e a (collectedData state) of
             None \<Rightarrow> sendMessage e a booking_create_error
           | Some p \<Rightarrow>
               (\<lambda>w. case create_booking_safe p (e_new_booking_id e) (e_insert_fault e) (bookings w) of
                  (bookingResult, bookings') \<Rightarrow>
                    (if \<not> success bookingResult
                     then seq [sendMessage e a (slot_unavailable (error_message bookingResult)),
                               updateState e (a_botId a) (a_userKey a)
                                 (set_step SHOWING_TIME_SLOTS state),
                               showAvailableTimeSlots e a (set_step SHOWING_TIME_SLOTS state)]
                            (w\<lparr> bookings := bookings' \<rparr>)
                     else seq [completeConversation e (a_botId a) (a_userKey a),
                               (\<lambda>w'. sendMessage e a
                                   (booking_confirmed
                                      (map_option (\<lambda>i. map js_upper_char (take 8 i))
                                         (booking_id bookingResult))
                                      (case settings_of w' (a_botId a) of
                                         None \<Rightarrow> None
                                       | Some s \<Rightarrow> st_booking_confirmation_message s)) w')]
                            (w\<lparr> bookings := bookings' \<rparr>)))))"

definition route_step :: "env \<Rightarrow> adapter \<Rightarrow> string \<Rightarrow> ConversationState \<Rightarrow> action" where
  \<comment> \<open>The \<open>switch (state.currentStep)\<close> of \<open>handleBookingMessage\<close>.\<close>
  "route_step e a message state =
     (case currentStep state of
        IDLE \<Rightarrow> startBooking e a state
      | COLLECTING_NAME \<Rightarrow> handleNameInput e a message state
      | COLLECTING_BOOKING_FOR \<Rightarrow> handleBookingForInput e a message state
      | COLLECTING_GENDER \<Rightarrow> handleGenderInput e a message state
      | COLLECTING_SERVICE \<Rightarrow> handleServiceInput e a message state
      | COLLECTING_DATE \<Rightarrow> handleDateInput e a message state
      | COLLECTING_TIME \<Rightarrow> handleTimeInput e a message state
      | CONFIRMING \<Rightarrow> handleConfirmation e a message state
      | _ \<Rightarrow> startBooking e a state)"

definition handleBookingMessage :: "env \<Rightarrow> adapter \<Rightarrow> string \<Rightarrow> action" where
  "handleBookingMessage e a message w =
     try_catch
       (\<lambda>w0. case getOrCreateState e (a_botId a) (a_businessId a) (a_userKey a) w0 of
               (None, w1) \<Rightarrow> (Thrown, w1)
             | (Some state, w1) \<Rightarrow>
                 seq [extendExpiry e (a_botId a) (a_userKey a) 30,
                      (if js_trim (toLowerCase message) = ''cancel''
                          \<and> currentStep state \<noteq> CONFIRMING
                       then handleCancel e a
                       else route_step e a message state)] w1)
       (sendMessage e a generic_error)
       (w\<lparr> invoked := invoked w @ [ep_handleBookingMessage] \<rparr>)"


section \<open>The workflow engine (workflow-engine.ts)\<close>

datatype 'a result = Returned 'a | Raised

definition returning :: "'a \<Rightarrow> action \<Rightarrow> world \<Rightarrow> 'a result \<times> world" where
  \<comment> \<open>\<open>await action; return value\<close>\<close>
  "returning v act w = (case act w of (Ok, w') \<Rightarrow> (Returned v, w') | (Thrown, w') \<Rightarrow> (Raised, w'))"

definition catch_false :: "(world \<Rightarrow> bool result \<times> world) \<Rightarrow> world \<Rightarrow> bool \<times> world" where
  \<comment> \<open>\<open>try { body } catch (err) { logger.error(...); return false }\<close>\<close>
  "catch_false body w = (case body w of (Returned b, w') \<Rightarrow> (b, w') | (Raised, w') \<Rightarrow> (False, w'))"

function decimal :: "nat \<Rightarrow> string" where
  \<comment> \<open>The decimal digits of a number, as a template literal prints it.\<close>
  "decimal n = (if n < 10 then [char_of (48 + n)] else decimal (n div 10) @ [char_of (48 + n mod 10)])"
  by pat_completeness auto
termination
  by (relation "measure id") auto

definition obj_set :: "string \<Rightarrow> string \<Rightarrow> (string \<times> string) list \<Rightarrow> (string \<times> string) list" where
  \<comment> \<open>\<open>state[key] = value\<close> on an object held as the list of its entries.\<close>
  "obj_set key v obj =
     (if key \<in> fst ` set obj then map (\<lambda>(k, x). if k = key then (k, v) else (k, x)) obj
      else obj @ [(key, v)])"

definition step_id :: "wf_step \<Rightarrow> string" where
  \<comment> \<open>\<open>s.id || 'step1'\<close>\<close>
  "step_id s = or_else (s_id s) ''step1''"

definition findIndex :: "('a \<Rightarrow> bool) \<Rightarrow> 'a list \<Rightarrow> nat option" where
  \<comment> \<open>\<open>Array.prototype.findIndex\<close>; \<open>None\<close> is \<open>-1\<close>.\<close>
  "findIndex P xs = (if list_ex P xs then Some (length (takeWhile (\<lambda>x. \<not> P x) xs)) else None)"

definition parseOption :: "env \<Rightarrow> string \<Rightarrow> wf_option list \<Rightarrow> rat option" where
  \<comment> \<open>\<open>None\<close> is \<open>undefined\<close>. The numeric branch returns \<open>num - 1\<close> for any number
      between 1 and the number of options, whole or not.\<close>
  "parseOption e message options =
     (let trimmed = toLowerCase (js_trim message) in
      case e_Number e trimmed of
        Some num \<Rightarrow>
          (if 1 \<le> num \<and> num \<le> of_nat (length options) then Some (num - 1)
           else map_option of_nat
                  (findIndex (\<lambda>opt. toLowerCase (or_else (o_label opt) []) = trimmed) options))
      | None \<Rightarrow>
          map_option of_nat
            (findIndex (\<lambda>opt. toLowerCase (or_else (o_label opt) []) = trimmed) options))"

definition option_at :: "wf_option list \<Rightarrow> rat \<Rightarrow> wf_option option" where
  \<comment> \<open>\<open>options[choice]\<close>: \<open>undefined\<close> for an index that is not a whole number in range.\<close>
  "option_at options choice =
     (if choice = of_int \<lfloor>choice\<rfloor> \<and> 0 \<le> choice \<and> nat \<lfloor>choice\<rfloor> < length options
      then Some (options ! nat \<lfloor>choice\<rfloor>) else None)"

definition chosen_value :: "env \<Rightarrow> wf_option list \<Rightarrow> rat \<Rightarrow> string" where
  \<comment> \<open>\<open>options[choice]?.value ?? options[choice]?.label ?? String(choice)\<close>\<close>
  "chosen_value e options choice =
     (case option_at options choice of
        None \<Rightarrow> e_number_to_string e choice
      | Some opt \<Rightarrow>
          (case o_value opt of
             Some v \<Rightarrow> v
           | None \<Rightarrow> (case o_label opt of Some l \<Rightarrow> l | None \<Rightarrow> e_number_to_string e choice)))"

definition wc_update :: "(workflow_conversation \<Rightarrow> bool) \<Rightarrow> (workflow_conversation \<Rightarrow> workflow_conversation)
     \<Rightarrow> action" where
  \<comment> \<open>\<open>from('workflow_conversations').update(...)\<close> with its filters; the result is
      not inspected.\<close>
  "wc_update sel f w =
     (Ok, w\<lparr> workflow_conversations :=
               map (\<lambda>r. if sel r then f r else r) (workflow_conversations w) \<rparr>)"

definition wc_active :: "uuid \<Rightarrow> string \<Rightarrow> workflow_conversation \<Rightarrow> bool" where
  \<comment> \<open>\<open>.eq('bot_id', botId).eq('user_key', userKey).eq('is_completed', false)\<close>\<close>
  "wc_active botId userKey r =
     (wc_bot_id r = botId \<and> wc_user_key r = userKey \<and> \<not> wc_is_completed r)"

definition is_shareable :: "bot_media \<Rightarrow> bool" where
  \<comment> \<open>\<open>['image', 'video', 'document'].includes(m.mediaType)\<close>\<close>
  "is_shareable m = (bm_mediaType m \<in> {media_image, media_video, media_document})"

definition send_media_item :: "env \<Rightarrow> adapter \<Rightarrow> bot_media \<Rightarrow> action" where
  \<comment> \<open>The body of the loop over the media items; an exception of a send is caught and
      logged inside the loop.\<close>
  "send_media_item e a item =
     (case (bm_fileUrl item, bm_fileName item) of
        (Some url, Some fileName) \<Rightarrow>
          (if url = [] \<or> fileName = [] then skip
           else try_catch
             (case bm_mediaType item of
                media_document \<Rightarrow>
                  (if has_sendDocument a
                   then sendDocument e a url (Some fileName) None
                          (if truthy (bm_title item) then bm_title item else None)
                          (if truthy (bm_title item) then bm_title item else None)
                   else sendText e a (media_link (or_else (bm_title item) fileName) url) None)
              | media_image \<Rightarrow> sendRich e a image url (or_else (bm_title item) [])
              | media_video \<Rightarrow> sendRich e a video url (or_else (bm_title item) [])
              | _ \<Rightarrow> skip)
             skip)
      | _ \<Rightarrow> skip)"

definition share_media_block :: "env \<Rightarrow> adapter \<Rightarrow> string \<Rightarrow> action" where
  \<comment> \<open>The prompt followed by the shareable media of the bot, or the prompt alone.\<close>
  "share_media_block e a prompt w =
     (case filter is_shareable (filter (\<lambda>m. bm_bot_id m = a_botId a) (media w)) of
        [] \<Rightarrow> sendText e a (plain prompt) None w
      | items \<Rightarrow> seq (sendText e a (plain prompt) None # map (send_media_item e a) items) w)"

definition prompt_step :: "env \<Rightarrow> adapter \<Rightarrow> string \<Rightarrow> wf_step \<Rightarrow> action" where
  \<comment> \<open>The prompt of a step, with the numbered option labels after it for a
      \<open>show_options\<close> step that has options.\<close>
  "prompt_step e a prompt st =
     (if s_type st = show_options \<and> s_options st \<noteq> []
      then sendText e a (options_prompt prompt (map o_label (s_options st))) None
      else sendText e a (plain prompt) None)"

definition log_call :: "entry_point \<Rightarrow> world \<Rightarrow> world" where
  "log_call ep w = w\<lparr> invoked := invoked w @ [ep] \<rparr>"

definition next_step_id :: "wf_step list \<Rightarrow> nat option \<Rightarrow> wf_step \<Rightarrow> string option" where
  \<comment> \<open>\<open>step.next || steps[idx + 1]?.id\<close>, \<open>None\<close> when the result is falsy; \<open>idx\<close> is
      \<open>-1\<close> (\<open>None\<close>) when the current step id is not in the list.\<close>
  "next_step_id steps idx st =
     (if truthy (s_next st) then s_next st
      else (let j = (case idx of None \<Rightarrow> 0 | Some i \<Rightarrow> i + 1) in
            if j < length steps \<and> truthy (s_id (steps ! j)) then s_id (steps ! j) else None))"

definition step_after :: "wf_step list \<Rightarrow> nat option \<Rightarrow> string \<Rightarrow> wf_step option" where
  \<comment> \<open>\<open>steps.find(s => (s.id || 'step1') === nextId) || steps[idx + 1]\<close>\<close>
  "step_after steps idx nextId =
     (case List.find (\<lambda>s. step_id s = nextId) steps of
        Some s \<Rightarrow> Some s
      | None \<Rightarrow> (let j = (case idx of None \<Rightarrow> 0 | Some i \<Rightarrow> i + 1) in
                 if j < length steps then Some (steps ! j) else None))"

definition collected_state ::
  "env \<Rightarrow> string \<Rightarrow> wf_step \<Rightarrow> nat option \<Rightarrow> (string \<times> string) list \<Rightarrow> (string \<times> string) list" where
  \<comment> \<open>The writes of the \<open>collect_field\<close> and \<open>show_options\<close> branches to the cloned state.\<close>
  "collected_state e message st idx state =
     (let n = (case idx of None \<Rightarrow> 0 | Some i \<Rightarrow> i + 1) in
      if s_type st = collect_field
      then obj_set (or_else (s_collect_field_key st) (or_else (s_id st) (''field_'' @ decimal n)))
             message state
      else if s_type st = show_options
      then (case parseOption e message (s_options st) of
              None \<Rightarrow> state
            | Some choice \<Rightarrow>
                obj_set (or_else (s_options_field_key st) (or_else (s_id st) (''choice_'' @ decimal n)))
                  (chosen_value e (s_options st) choice) state)
      else state)"

definition step_output :: "env \<Rightarrow> adapter \<Rightarrow> string \<Rightarrow> wf_step \<Rightarrow> action" where
  \<comment> \<open>What the \<open>ai_response\<close> and \<open>share_media\<close> branches send for the current step.\<close>
  "step_output e a message st =
     (if s_type st = ai_response then sendText e a (plain (e_ai_reply e message)) None
      else if s_type st = share_media
      then share_media_block e a (or_else (s_prompt_message st) ''Here are our items:'')
      else skip)"

definition current_step :: "wf_step list \<Rightarrow> nat option \<Rightarrow> wf_step option" where
  \<comment> \<open>\<open>idx >= 0 ? steps[idx] : steps[0]\<close>, \<open>None\<close> when there is no such step.\<close>
  "current_step steps idx =
     (case idx of
        Some i \<Rightarrow> Some (steps ! i)
      | None \<Rightarrow> (case steps of [] \<Rightarrow> None | s # _ \<Rightarrow> Some s))"

definition hand_over_to_booking ::
  "env \<Rightarrow> adapter \<Rightarrow> string \<Rightarrow> workflow_conversation
     \<Rightarrow> (workflow_conversation \<Rightarrow> workflow_conversation) \<Rightarrow> action" where
  \<comment> \<open>A \<open>start_booking\<close> step: the update that marks the conversation completed, then
      \<open>BookingService.handleBookingMessage(adapter, message)\<close>.\<close>
  "hand_over_to_booking e a message convo completed =
     seq [wc_update (\<lambda>r. wc_id r = wc_id convo) completed,
          handleBookingMessage e a message]"

definition complete_workflow ::
  "env \<Rightarrow> adapter \<Rightarrow> workflow \<Rightarrow> workflow_conversation \<Rightarrow> (string \<times> string) list \<Rightarrow> action" where
  \<comment> \<open>The block \<open>if (!nextId) { ... }\<close>: complete the conversation, run the
      \<open>save_to_database\<close> action, thank the user.\<close>
  "complete_workflow e a flow convo state =
     seq [wc_update (\<lambda>r. wc_id r = wc_id convo)
            (\<lambda>r. r\<lparr> wc_is_completed := True, wc_state := state \<rparr>),
          (\<lambda>w. if list_ex (\<lambda>t. t = ''save_to_database'') (wf_actions flow)
                then (Ok, w\<lparr> inquiries := inquiries w @
                               [\<lparr> i_bot_id = a_botId a, i_workflow_id = wf_id flow,
                                  i_inquiry_data = state, i_status = ''pending'',
                                  i_source = a_channel a,
                                  i_customer_phone =
                                    (if a_channel a = whatsapp then Some (a_userKey a) else None) \<rparr>] \<rparr>)
                else (Ok, w)),
          sendText e a thank_you_recorded None]"

definition advance_workflow ::
  "env \<Rightarrow> adapter \<Rightarrow> string \<Rightarrow> wf_step list \<Rightarrow> nat option \<Rightarrow> workflow_conversation
     \<Rightarrow> (string \<times> string) list \<Rightarrow> string \<Rightarrow> world \<Rightarrow> bool result \<times> world" where
  \<comment> \<open>From \<open>// Move to next step\<close> to the end of \<open>continueConversation\<close>.\<close>
  "advance_workflow e a message steps idx convo state nextId w =
     (case wc_update (\<lambda>r. wc_id r = wc_id convo)
             (\<lambda>r. r\<lparr> wc_current_step_id := nextId, wc_state := state \<rparr>) w of
        (_, w') \<Rightarrow>
          (case step_after steps idx nextId of
             None \<Rightarrow> (Returned True, w')
           | Some nxt \<Rightarrow>
               (if s_type nxt = start_booking
                then returning True
                       (hand_over_to_booking e a message convo
                          (\<lambda>r. r\<lparr> wc_is_completed := True, wc_state := state \<rparr>)) w'
                else returning True
                       (prompt_step e a (or_else (s_prompt_message nxt) ''Please continue...'') nxt)
                       w')))"

definition run_step ::
  "env \<Rightarrow> adapter \<Rightarrow> string \<Rightarrow> workflow \<Rightarrow> workflow_conversation \<Rightarrow> nat option \<Rightarrow> wf_step
     \<Rightarrow> world \<Rightarrow> bool result \<times> world" where
  \<comment> \<open>\<open>continueConversation\<close> once the workflow and the current step are known.\<close>
  "run_step e a message flow convo idx st w =
     (if s_type st = start_booking
      then returning True
             (hand_over_to_booking e a message convo (\<lambda>r. r\<lparr> wc_is_completed := True \<rparr>)) w
      else
        (case step_output e a message st w of
           (Thrown, w1) \<Rightarrow> (Raised, w1)
         | (Ok, w1) \<Rightarrow>
             (case next_step_id (wf_steps flow) idx st of
                None \<Rightarrow>
                  returning True
                    (complete_workflow e a flow convo
                       (collected_state e message st idx (wc_state convo))) w1
              | Some nextId \<Rightarrow>
                  advance_workflow e a message (wf_steps flow) idx convo
                    (collected_state e message st idx (wc_state convo)) nextId w1)))"

definition continueConversation_body ::
  "env \<Rightarrow> adapter \<Rightarrow> string \<Rightarrow> workflow_conversation \<Rightarrow> world \<Rightarrow> bool result \<times> world" where
  "continueConversation_body e a message convo w =
     (case single (filter (\<lambda>flow. wf_id flow = wc_workflow_id convo) (workflows w)) of
        None \<Rightarrow> (Returned False, w)
      | Some flow \<Rightarrow>
          (case current_step (wf_steps flow)
                  (findIndex (\<lambda>s. step_id s = wc_current_step_id convo) (wf_steps flow)) of
             None \<Rightarrow> (Returned False, w)
           | Some st \<Rightarrow>
               run_step e a message flow convo
                 (findIndex (\<lambda>s. step_id s = wc_current_step_id convo) (wf_steps flow)) st w))"

definition continueConversation ::
  "env \<Rightarrow> adapter \<Rightarrow> string \<Rightarrow> workflow_conversation \<Rightarrow> world \<Rightarrow> bool \<times> world" where
  "continueConversation e a message convo w =
     catch_false (continueConversation_body e a message convo) (log_call ep_continueConversation w)"

definition trigger_matches :: "string \<Rightarrow> workflow \<Rightarrow> bool" where
  \<comment> \<open>The predicate of the \<open>find\<close> over the published workflows; \<open>lower\<close> is the message in
      lower case.\<close>
  "trigger_matches lower flow =
     (wf_keywords flow \<noteq> [] \<and> list_ex (\<lambda>k. js_includes lower (toLowerCase k)) (wf_keywords flow))"

definition move_past_first_media :: "env \<Rightarrow> adapter \<Rightarrow> workflow \<Rightarrow> wf_step \<Rightarrow> action" where
  \<comment> \<open>After the media of a first step of type \<open>share_media\<close>: when the step names a
      \<open>next\<close>, move the conversation there and prompt that step if it exists.\<close>
  "move_past_first_media e a matched firstStep =
     (if truthy (s_next firstStep)
      then seq [wc_update (wc_active (a_botId a) (a_userKey a))
                  (\<lambda>r. r\<lparr> wc_current_step_id := or_else (s_next firstStep) [] \<rparr>),
                (case List.find (\<lambda>s. step_id s = or_else (s_next firstStep) [])
                        (wf_steps matched) of
                   None \<Rightarrow> skip
                 | Some nxt \<Rightarrow>
                     prompt_step e a (or_else (s_prompt_message nxt) ''Please continue...'') nxt)]
      else skip)"

definition new_wf_conversation :: "env \<Rightarrow> adapter \<Rightarrow> workflow \<Rightarrow> wf_step \<Rightarrow> workflow_conversation" where
  \<comment> \<open>The row inserted when a trigger matches.\<close>
  "new_wf_conversation e a matched firstStep =
     \<lparr> wc_id = e_new_wf_conversation_id e, wc_bot_id = a_botId a,
       wc_user_key = a_userKey a, wc_workflow_id = wf_id matched,
       wc_current_step_id = step_id firstStep, wc_state = [],
       wc_is_completed = False, wc_channel = a_channel a \<rparr>"

definition start_workflow ::
  "env \<Rightarrow> adapter \<Rightarrow> string \<Rightarrow> workflow \<Rightarrow> wf_step \<Rightarrow> world \<Rightarrow> bool result \<times> world" where
  \<comment> \<open>\<open>tryHandle\<close> from the insert of the new conversation to its \<open>return true\<close>.\<close>
  "start_workflow e a message matched firstStep w =
     (let w1 = w\<lparr> workflow_conversations :=
                    workflow_conversations w @ [new_wf_conversation e a matched firstStep] \<rparr>;
          prompt = or_else (s_prompt_message firstStep) ''How can I help you?''
      in if s_type firstStep = start_booking
         then returning True
                (seq [wc_update (\<lambda>r. wc_bot_id r = a_botId a \<and> wc_user_key r = a_userKey a
                                      \<and> wc_workflow_id r = wf_id matched)
                        (\<lambda>r. r\<lparr> wc_is_completed := True \<rparr>),
                      handleBookingMessage e a message]) w1
         else if s_type firstStep = share_media
         then returning True
                (seq [share_media_block e a prompt, move_past_first_media e a matched firstStep]) w1
         else returning True (prompt_step e a prompt firstStep) w1)"

definition tryHandle_body :: "env \<Rightarrow> adapter \<Rightarrow> string \<Rightarrow> world \<Rightarrow> bool result \<times> world" where
  "tryHandle_body e a message w =
     (if \<not> (case settings_of w (a_botId a) of None \<Rightarrow> True | Some s \<Rightarrow> st_workflow_enabled s)
      then (Returned False, w)
      else
        (case single (filter (wc_active (a_botId a) (a_userKey a)) (workflow_conversations w)) of
           Some convo \<Rightarrow>
             (case continueConversation e a message convo w of (b, w') \<Rightarrow> (Returned b, w'))
         | None \<Rightarrow>
             (case filter (\<lambda>flow. wf_bot_id flow = a_botId a \<and> wf_is_active flow \<and> wf_status flow = published)
                     (workflows w) of
                [] \<Rightarrow> (Returned False, w)
              | candidates \<Rightarrow>
                  (case List.find (trigger_matches (toLowerCase message)) candidates of
                     None \<Rightarrow> (Returned False, log_call ep_trigger_match w)
                   | Some matched \<Rightarrow>
                       (case wf_steps matched of
                          [] \<Rightarrow> (Returned False, log_call ep_trigger_match w)
                        | firstStep # _ \<Rightarrow>
                            start_workflow e a message matched firstStep
                              (log_call ep_trigger_match w))))))"

definition tryHandle :: "env \<Rightarrow> adapter \<Rightarrow> string \<Rightarrow> world \<Rightarrow> bool \<times> world" where
  "tryHandle e a message w = catch_false (tryHandle_body e a message) (log_call ep_tryHandle w)"

subsection \<open>The reads and the writes of \<open>tryHandle\<close>\<close>





section \<open>The dispatch routers (bot-manager.ts, web-conversation-engine.ts)\<close>

definition phone_adapter :: "uuid \<Rightarrow> uuid \<Rightarrow> string \<Rightarrow> adapter" where
  \<comment> \<open>\<open>new WhatsAppAdapter(sock, { botId, businessId, userKey: fromNumber })\<close>\<close>
  "phone_adapter botId businessId fromNumber =
     \<lparr> a_channel = whatsapp, a_botId = botId, a_businessId = businessId, a_userKey = fromNumber \<rparr>"

definition web_adapter :: "string \<Rightarrow> uuid \<Rightarrow> uuid \<Rightarrow> adapter" where
  \<comment> \<open>\<open>new WebAdapter(sessionId, { botId, businessId, userKey: sessionId })\<close>\<close>
  "web_adapter sessionId botId businessId =
     \<lparr> a_channel = web, a_botId = botId, a_businessId = businessId, a_userKey = sessionId \<rparr>"

definition message_checks :: "message \<Rightarrow> bool" where
  \<comment> \<open>The \<open>CHECK\<close> constraints of the table \<open>messages\<close> on \<open>message_type\<close>,
      \<open>direction\<close> and \<open>status\<close>.\<close>
  "message_checks row =
     (m_message_type row \<in> {''text'', ''image'', ''video'', ''audio'', ''document''}
      \<and> m_direction row \<in> {''inbound'', ''outbound''}
      \<and> m_status row \<in> {''sent'', ''delivered'', ''read'', ''failed''})"

definition insert_message :: "message \<Rightarrow> action" where
  \<comment> \<open>\<open>from('messages').insert(...)\<close> in the routers. A row that violates a \<open>CHECK\<close>
      constraint is refused and not stored; the result of the call is not inspected, so
      the refusal goes unnoticed. A row without a channel gets the column default
      \<open>'whatsapp'\<close>.\<close>
  "insert_message row w =
     (Ok, if message_checks row
          then w\<lparr> messages := messages w @
                  [row\<lparr> m_channel :=
                         Some (case m_channel row of None \<Rightarrow> whatsapp | Some c \<Rightarrow> c) \<rparr>] \<rparr>
          else w)"

definition phone_inbound :: "uuid \<Rightarrow> uuid \<Rightarrow> string \<Rightarrow> string \<Rightarrow> message" where
  "phone_inbound botId businessId fromNumber content =
     \<lparr> m_bot_id = botId, m_business_id = businessId, m_from_number = fromNumber,
       m_to_number = [], m_message_type = ''text'', m_content = plain content,
       m_direction = ''inbound'', m_status = ''delivered'', m_channel = None,
       m_session_id = None, m_metadata = None \<rparr>"

definition phone_outbound :: "uuid \<Rightarrow> uuid \<Rightarrow> string \<Rightarrow> string \<Rightarrow> message" where
  "phone_outbound botId businessId fromNumber content =
     \<lparr> m_bot_id = botId, m_business_id = businessId, m_from_number = [],
       m_to_number = fromNumber, m_message_type = ''text'', m_content = plain content,
       m_direction = ''outbound'', m_status = ''sent'', m_channel = None,
       m_session_id = None, m_metadata = None \<rparr>"

definition web_inbound :: "string \<Rightarrow> uuid \<Rightarrow> uuid \<Rightarrow> string \<Rightarrow> message" where
  "web_inbound sessionId botId businessId content =
     \<lparr> m_bot_id = botId, m_business_id = businessId, m_from_number = [],
       m_to_number = [], m_message_type = ''text'', m_content = plain content,
       m_direction = ''inbound'', m_status = ''received'', m_channel = Some web,
       m_session_id = Some sessionId, m_metadata = None \<rparr>"

definition ai_try ::
  "env \<Rightarrow> adapter \<Rightarrow> string \<Rightarrow> bool \<Rightarrow> world \<Rightarrow> string option result \<times> world" where
  \<comment> \<open>The \<open>try\<close> block of the AI path of \<open>handleIncomingMessage\<close>. \<open>Returned None\<close>: the
      function has returned; \<open>Returned (Some t)\<close>: \<open>responseText = t\<close>; \<open>Raised\<close>: an
      exception reached the \<open>catch (aiError)\<close>. What the intent detection decides is
      the outcome \<open>e_ai_outcome\<close> of the collaborator; the update of the \<open>metadata\<close>
      column of the inbound row is left out.\<close>
  "ai_try e a message bookingEnabled w =
     (case e_ai_outcome e of
        ai_booking_request t \<Rightarrow>
          (if bookingEnabled
           then returning None (handleBookingMessage e a message) w
           else (Returned (Some t), w))
      | ai_direct ps \<Rightarrow> returning None (seq (map (transport e a) ps)) w
      | ai_text t \<Rightarrow> (Returned (Some t), w))"

definition respond :: "env \<Rightarrow> adapter \<Rightarrow> string \<Rightarrow> action" where
  \<comment> \<open>\<open>if (responseText) { await sock.sendMessage(...); ...insert(...) }\<close>\<close>
  "respond e a t =
     (if t = [] then skip
      else seq [transport e a (text_payload (plain t)),
                insert_message (phone_outbound (a_botId a) (a_businessId a) (a_userKey a) t)])"

definition ai_stage :: "env \<Rightarrow> adapter \<Rightarrow> string \<Rightarrow> bool \<Rightarrow> action" where
  \<comment> \<open>\<open>handleIncomingMessage\<close> after the workflow engine has declined the message.\<close>
  "ai_stage e a message bookingEnabled =
     seq [insert_message (phone_inbound (a_botId a) (a_businessId a) (a_userKey a) message),
          (\<lambda>w. let s = settings_of w (a_botId a);
                   aiEnabled = (case s of None \<Rightarrow> True | Some r \<Rightarrow> st_ai_enabled r \<noteq> Some False);
                   autoReplyEnabled = (case s of None \<Rightarrow> False
                                        | Some r \<Rightarrow> st_auto_reply_enabled r = Some True);
                   autoReplyMessage = (case s of None \<Rightarrow> None | Some r \<Rightarrow> st_auto_reply_message r)
               in if aiEnabled
                  then (case ai_try e a message bookingEnabled (log_call ep_ai_reply w) of
                          (Returned None, w') \<Rightarrow> (Ok, w')
                        | (Returned (Some t), w') \<Rightarrow> respond e a t w'
                        | (Raised, w') \<Rightarrow>
                            respond e a
                              (or_else autoReplyMessage
                                 ''Thank you for your message. How can I help you?'') w')
                  else if autoReplyEnabled \<and> truthy autoReplyMessage
                  then respond e a (or_else autoReplyMessage []) w
                  else (Ok, w))]"

definition handleIncomingMessage ::
  "env \<Rightarrow> uuid \<Rightarrow> uuid \<Rightarrow> int option \<Rightarrow> int \<Rightarrow> string \<Rightarrow> string \<Rightarrow> world \<Rightarrow> world" where
  \<comment> \<open>\<open>botStartTime\<close> is the entry of the in-memory map \<open>botStartTimestamps\<close>,
      \<open>messageTimestamp\<close> the time of the message in milliseconds, \<open>fromNumber\<close> and
      \<open>messageContent\<close> the sender and the text extracted from \<open>msg\<close>. The body is one
      \<open>try\<close> whose \<open>catch\<close> only logs.\<close>
  "handleIncomingMessage e botId businessId botStartTime messageTimestamp fromNumber messageContent w =
     (let a = phone_adapter botId businessId fromNumber in
      if (case botStartTime of None \<Rightarrow> True | Some t \<Rightarrow> t = 0 \<or> messageTimestamp < t)
      then w
      else if messageContent = [] then w
      else if isBookingEnabled w botId \<and> hasActiveConversation botId fromNumber w
      then snd (handleBookingMessage e a messageContent w)
      else if isBookingEnabled w botId
              \<and> isBookingTrigger messageContent (getBookingKeywords w botId)
      then snd (handleBookingMessage e a messageContent w)
      else (case tryHandle e a messageContent w of
              (True, w') \<Rightarrow> w'
            | (False, w') \<Rightarrow> snd (ai_stage e a messageContent (isBookingEnabled w botId) w')))"

definition web_reply :: "env \<Rightarrow> adapter \<Rightarrow> string \<Rightarrow> action" where
  \<comment> \<open>The free-form reply of \<open>handleWebMessage\<close>, with its own \<open>try\<close> and \<open>catch\<close>.\<close>
  "web_reply e a message =
     seq [sendTyping e a True,
          try_catch
            (seq [(if e_ai_reply e message = [] then skip
                   else sendText e a (plain (e_ai_reply e message)) None),
                  sendTyping e a False])
            (seq [sendTyping e a False,
                  sendError e a ''ai_error''
                    ''Sorry, I encountered an error processing your message. Please try again.''])]"

definition web_booking :: "env \<Rightarrow> adapter \<Rightarrow> string \<Rightarrow> action" where
  "web_booking e a message =
     seq [sendTyping e a True, handleBookingMessage e a message, sendTyping e a False]"

definition web_after_workflow :: "env \<Rightarrow> adapter \<Rightarrow> string \<Rightarrow> action" where
  \<comment> \<open>\<open>handleWebMessage\<close> after \<open>WorkflowEngine.tryHandle\<close> has returned false: the
      booking checks, the widget check and the free-form reply.\<close>
  "web_after_workflow e a message w =
     (if isBookingEnabled w (a_botId a) \<and> hasActiveConversation (a_botId a) (a_userKey a) w
      then web_booking e a message w
      else if isBookingEnabled w (a_botId a)
              \<and> isBookingTrigger message (getBookingKeywords w (a_botId a))
      then web_booking e a message w
      else if a_botId a \<notin> set (widget_bots w)
      then sendError e a ''bot_not_configured''
             ''Bot is not properly configured. Please contact support.'' w
      else web_reply e a message w)"

definition web_failure_notice :: "env \<Rightarrow> adapter \<Rightarrow> action" where
  \<comment> \<open>The outer \<open>catch\<close> of \<open>handleWebMessage\<close>: it tries to send an
      \<open>internal_error\<close> event.\<close>
  "web_failure_notice e a =
     try_catch
       (transport e a
          (error_payload ''internal_error'' ''An unexpected error occurred. Please try again.''))
       skip"

definition handleWebMessage :: "env \<Rightarrow> string \<Rightarrow> uuid \<Rightarrow> uuid \<Rightarrow> string \<Rightarrow> world \<Rightarrow> world" where
  \<comment> \<open>The body is one \<open>try\<close>: the insert of the inbound row, the workflow engine, and
      what follows when the engine has not handled the message.\<close>
  "handleWebMessage e sessionId botId businessId messageContent w =
     (let a = web_adapter sessionId botId businessId in
      if js_trim messageContent = [] then w
      else
        snd (try_catch
               (\<lambda>w0. case insert_message (web_inbound sessionId botId businessId messageContent) w0 of
                   (_, w1) \<Rightarrow>
                     (case tryHandle e a messageContent w1 of
                        (True, w2) \<Rightarrow> (Ok, w2)
                      | (False, w2) \<Rightarrow> web_after_workflow e a messageContent w2))
               (web_failure_notice e a)
               w))"

subsection \<open>Turns in sequence\<close>




subsection \<open>Overlapping turns\<close>



section \<open>Sample environments and stores\<close>

definition ex_env :: env where
  "ex_env =
     \<lparr> e_now = 1000000, e_deliver = (\<lambda>_. delivered), e_messages_insert_ok = True,
       e_new_conversation_id = ''c-new'', e_new_wf_conversation_id = ''wc-new'',
       e_new_booking_id = ''r-new'', e_insert_fault = None,
       e_iso_date_plus = (\<lambda>i. if i = 0 then ''2025-10-13'' else ''2025-10-14''),
       e_date_ms = (\<lambda>_. Some 5), e_local_midnight = 0,
       e_day_of_week = (\<lambda>_. Some 1), e_sql_date_of = (\<lambda>_. Some 20000),
       e_ai_reply = (\<lambda>_. ''How can I help?''), e_ai_outcome = ai_text ''How can I help?'',
       e_Number = (\<lambda>s. if digits_only s then Some (of_nat (parseInt_digits s)) else None),
       e_number_to_string = (\<lambda>_. ''0'') \<rparr>"

definition ex_env_failing :: env where
  \<comment> \<open>The same environment with a transport that rejects every payload.\<close>
  "ex_env_failing = ex_env\<lparr> e_deliver := (\<lambda>_. transport_error) \<rparr>"

definition ex_settings :: "bool option \<Rightarrow> bool option \<Rightarrow> bot_settings" where
  "ex_settings require_for require_gender =
     \<lparr> st_bot_id = ''bot1'', st_booking_enabled = Some True,
       st_booking_trigger_keywords = None, st_booking_confirmation_message = None,
       st_booking_require_gender = require_gender,
       st_booking_require_booking_for = require_for, st_workflow_enabled = True,
       st_ai_enabled = None, st_auto_reply_enabled = None, st_auto_reply_message = None \<rparr>"

definition ex_service :: business_service where
  "ex_service =
     \<lparr> bs_id = ''s1'', bs_business_id = ''b1'', bs_name = ''Haircut'', bs_price = Some 500,
       bs_duration = Some 30, bs_is_active = True, bs_display_order = 1 \<rparr>"

definition ex_world :: world where
  \<comment> \<open>One bot with booking enabled, one service, the Monday template, no conversation.\<close>
  "ex_world =
     \<lparr> booking_conversations = [], workflow_conversations = [], bookings = [],
       messages = [], inquiries = [], settings = [ex_settings None None], workflows = [],
       business_services = [ex_service], business_time_slots = ex_templates, media = [],
       bot_phone_numbers = [(''bot1'', ''911'')], widget_bots = [''bot1''], outbox = [],
       invoked = [] \<rparr>"

definition ex_adapter :: "channel \<Rightarrow> adapter" where
  "ex_adapter ch = \<lparr> a_channel = ch, a_botId = ''bot1'', a_businessId = ''b1'', a_userKey = ''100'' \<rparr>"

definition ex_conversation :: "uuid \<Rightarrow> BookingState \<Rightarrow> bool \<Rightarrow> int \<Rightarrow> booking_conversation" where
  "ex_conversation cid step completed expires =
     \<lparr> bc_id = cid, bc_bot_id = ''bot1'', bc_business_id = ''b1'', bc_customer_phone = ''100'',
       bc_conversation_state = initial_collected ''100'', bc_current_step = step,
       bc_is_completed = completed, bc_expires_at = expires, bc_updated_at = 0 \<rparr>"


definition ex_name_step :: wf_step where
  "ex_name_step =
     \<lparr> s_id = Some ''name'', s_type = collect_field, s_next = None,
       s_prompt_message = Some ''Your name?'', s_options = [],
       s_options_field_key = None, s_collect_field_key = None \<rparr>"

definition ex_plan_step :: wf_step where
  "ex_plan_step =
     \<lparr> s_id = Some ''plan'', s_type = show_options, s_next = None,
       s_prompt_message = Some ''Which plan?'',
       s_options = [\<lparr> o_label = Some ''Basic'', o_value = Some ''basic'' \<rparr>,
                    \<lparr> o_label = Some ''Premium'', o_value = Some ''premium'' \<rparr>],
       s_options_field_key = None, s_collect_field_key = None \<rparr>"

definition ex_email_step :: wf_step where
  "ex_email_step =
     \<lparr> s_id = Some ''email'', s_type = collect_field, s_next = None,
       s_prompt_message = Some ''Your email?'', s_options = [],
       s_options_field_key = None, s_collect_field_key = None \<rparr>"


definition ex_flow :: workflow where
  \<comment> \<open>A published workflow of the sample bot; one of its trigger keywords is also a
      default booking keyword.\<close>
  "ex_flow =
     \<lparr> wf_id = ''wf1'', wf_bot_id = ''bot1'', wf_status = published, wf_is_active = True,
       wf_keywords = [''hello'', ''book''],
       wf_steps = [ex_name_step, ex_plan_step, ex_email_step], wf_actions = [] \<rparr>"

definition ex_world_flow :: world where
  "ex_world_flow = ex_world\<lparr> workflows := [ex_flow] \<rparr>"

definition ex_wf_conversation :: "string \<Rightarrow> workflow_conversation" where
  \<comment> \<open>An active conversation of the sample user in \<open>ex_flow\<close>, at the given step.\<close>
  "ex_wf_conversation sid =
     \<lparr> wc_id = ''wc1'', wc_bot_id = ''bot1'', wc_user_key = ''100'', wc_workflow_id = ''wf1'',
       wc_current_step_id = sid, wc_state = [(''name'', ''Jane'')], wc_is_completed = False,
       wc_channel = whatsapp \<rparr>"

definition ex_world_at_plan :: world where
  "ex_world_at_plan = ex_world_flow\<lparr> workflow_conversations := [ex_wf_conversation ''plan''] \<rparr>"

definition ex_world_booking_active :: world where
  \<comment> \<open>The sample user is in a booking conversation that waits for the name.\<close>
  "ex_world_booking_active =
     ex_world_flow\<lparr> booking_conversations := [ex_conversation ''c1'' COLLECTING_NAME False 2000000] \<rparr>"

definition ex_env_fraction :: env where
  \<comment> \<open>\<open>ex_env\<close> with the values of \<open>Number('1.5')\<close> and \<open>String(0.5)\<close>.\<close>
  "ex_env_fraction =
     ex_env\<lparr> e_Number := (\<lambda>s. if s = ''1.5'' then Some (3 / 2) else e_Number ex_env s),
              e_number_to_string := (\<lambda>q. if q = 1 / 2 then ''0.5'' else e_number_to_string ex_env q) \<rparr>"





section \<open>Notions used in the statements\<close>

definition active_steps :: "world \<Rightarrow> uuid \<Rightarrow> string \<Rightarrow> BookingState list" where
  \<comment> \<open>The \<open>current_step\<close> of the active booking conversations of a (bot, user) pair.\<close>
  "active_steps w botId phone =
     map bc_current_step (filter (bc_active botId phone) (booking_conversations w))"

definition preserves :: "(world \<Rightarrow> bool) \<Rightarrow> action \<Rightarrow> bool" where
  \<comment> \<open>The action keeps a property of the world, whether it completes or throws.\<close>
  "preserves P a = (\<forall>w. P w \<longrightarrow> P (snd (a w)))"

definition ex_world_confirmed_history :: world where
  \<comment> \<open>The customer has one completed booking conversation and a second one, abandoned
      at the name prompt, whose expiry time 500 is in the past of \<open>ex_env\<close>.\<close>
  "ex_world_confirmed_history =
     ex_world\<lparr> booking_conversations :=
       [ex_conversation ''c1'' COMPLETED True 400,
        ex_conversation ''c2'' COLLECTING_NAME False 500] \<rparr>"

definition ex_world_toggles_off :: world where
  \<comment> \<open>Both requirement toggles are disabled; the conversation waits for the name.\<close>
  "ex_world_toggles_off =
     ex_world\<lparr> settings := [ex_settings (Some False) (Some False)],
                booking_conversations := [ex_conversation ''c1'' COLLECTING_NAME False 500] \<rparr>"








definition keeps_wc_key :: "(workflow_conversation \<Rightarrow> workflow_conversation) \<Rightarrow> bool" where
  \<comment> \<open>An update of workflow conversations that keeps the bot and the user of a row and
      never makes a completed row active again.\<close>
  "keeps_wc_key f =
     (\<forall>r. wc_bot_id (f r) = wc_bot_id r \<and> wc_user_key (f r) = wc_user_key r
          \<and> (wc_is_completed r \<longrightarrow> wc_is_completed (f r)))"

definition keeps_bc_owner :: "(booking_conversation \<Rightarrow> booking_conversation) \<Rightarrow> bool" where
  "keeps_bc_owner f =
     (\<forall>r. bc_bot_id (f r) = bc_bot_id r \<and> bc_customer_phone (f r) = bc_customer_phone r)"

definition prims_preserve_on :: "entry_point set \<Rightarrow> bool \<Rightarrow> (world \<Rightarrow> bool) \<Rightarrow> bool" where
  \<comment> \<open>A property of the world that every elementary write of the engines keeps: the
      writes to the outbox, to the messages, reservations and inquiries; the record of
      a call of an entry point in \<open>L\<close>; an update of booking conversations that keeps
      their keys; an update that changes \<open>is_completed\<close> and succeeds; the insert of a
      booking conversation with a new key; and, when \<open>W\<close> is set, the writes of the
      workflow engine: an update of workflow conversations that keeps their owner and
      reactivates none, the insert of a workflow conversation for a pair whose lookup
      found none.\<close>
  "prims_preserve_on L W P =
     ((\<forall>w x. P w \<longrightarrow> P (w\<lparr> outbox := x \<rparr>))
      \<and> (\<forall>w x. P w \<longrightarrow> P (w\<lparr> messages := x \<rparr>))
      \<and> (\<forall>w x. P w \<longrightarrow> P (w\<lparr> bookings := x \<rparr>))
      \<and> (\<forall>w ep. P w \<longrightarrow> ep \<in> L \<longrightarrow> P (w\<lparr> invoked := invoked w @ [ep] \<rparr>))
      \<and> (\<forall>w x. P w \<longrightarrow> P (w\<lparr> inquiries := x \<rparr>))
      \<and> (\<forall>w f. P w \<longrightarrow> (\<forall>r. bc_key (f r) = bc_key r) \<longrightarrow>
             P (w\<lparr> booking_conversations := map f (booking_conversations w) \<rparr>))
      \<and> (\<forall>w sel f tbl. P w \<longrightarrow> keeps_bc_owner f \<longrightarrow>
             (\<forall>r. bc_is_completed (f r)) \<longrightarrow>
             bc_update_keyed sel f (booking_conversations w) = Some tbl \<longrightarrow>
             P (w\<lparr> booking_conversations := tbl \<rparr>))
      \<and> (\<forall>w row. P w \<longrightarrow> bc_key row \<notin> set (map bc_key (booking_conversations w)) \<longrightarrow>
             P (w\<lparr> booking_conversations := booking_conversations w @ [row] \<rparr>))
      \<and> (\<forall>w sel f. W \<longrightarrow> P w \<longrightarrow> keeps_wc_key f \<longrightarrow>
             P (w\<lparr> workflow_conversations :=
                    map (\<lambda>r. if sel r then f r else r) (workflow_conversations w) \<rparr>))
      \<and> (\<forall>w row. W \<longrightarrow> P w \<longrightarrow>
             single (filter (wc_active (wc_bot_id row) (wc_user_key row))
                       (workflow_conversations w)) = None \<longrightarrow>
             P (w\<lparr> workflow_conversations := workflow_conversations w @ [row] \<rparr>)))"

abbreviation prims_preserve :: "(world \<Rightarrow> bool) \<Rightarrow> bool" where
  \<comment> \<open>The writes of both engines, with the record of a call of any entry point.\<close>
  "prims_preserve \<equiv> prims_preserve_on UNIV True"

definition workflow_calls :: "world \<Rightarrow> entry_point list" where
  \<comment> \<open>The recorded calls other than those of the booking handler.\<close>
  "workflow_calls w = filter (\<lambda>ep. ep \<noteq> ep_handleBookingMessage) (invoked w)"

definition wc_rows :: "workflow_conversation \<Rightarrow> world \<Rightarrow> workflow_conversation list" where
  \<comment> \<open>The stored rows of a workflow conversation, \<open>.eq('id', convo.id)\<close>.\<close>
  "wc_rows convo w = filter (\<lambda>r. wc_id r = wc_id convo) (workflow_conversations w)"

definition moved_on :: "string option \<Rightarrow> (string \<times> string) list \<Rightarrow> workflow_conversation \<Rightarrow> bool" where
  \<comment> \<open>The row has left the step: it points at the next step, or is completed when there
      is none; and it stores the given state.\<close>
  "moved_on nextId state r =
     (wc_state r = state
      \<and> (case nextId of None \<Rightarrow> wc_is_completed r | Some n \<Rightarrow> wc_current_step_id r = n))"




section \<open>Proofs: booking validation\<close>

lemma self_words_match_name_regex:
  "name_regex ''self''" "name_regex ''myself''" "name_regex ''me''"
  by code_simp+

text \<open>
  Claim C9, as amended. The "booking for" validation accepts exactly the inputs of 2 to
  100 characters (counted before trimming) whose trimmed lowercase form is non-empty and
  made of letters, white space, dots, hyphens and apostrophes; the words self, myself and
  me are such forms. The accepted value is the trimmed lowercase form itself: it is not
  normalized.
\<close>

theorem validateBookingFor_accepts:
  "validateBookingFor input = Valid v \<longleftrightarrow>
     (2 \<le> length input \<and> length input \<le> 100
      \<and> name_regex (toLowerCase (js_trim input)) \<and> v = toLowerCase (js_trim input))"
  using self_words_match_name_regex
  by (auto simp: validateBookingFor_def bookingFor_refine_def Let_def)

theorem validateBookingFor_accepts_witness:
  "validateBookingFor '' MySelf '' = Valid ''myself''
   \<and> 2 \<le> length '' MySelf '' \<and> length '' MySelf '' \<le> 100
   \<and> name_regex (toLowerCase (js_trim '' MySelf ''))"
proof -
  have "toLowerCase (js_trim '' MySelf '') = ''myself''" by code_simp
  with validateBookingFor_accepts[of "'' MySelf ''" "''myself''"] self_words_match_name_regex
  show ?thesis by simp
qed

text \<open>
  The claim as stated fails: the input \<open>me\<close> is accepted and its value is \<open>me\<close>, not
  \<open>self\<close>.
\<close>

theorem validateBookingFor_me_not_normalized:
  "validateBookingFor ''me'' = Valid ''me'' \<and> validateBookingFor ''me'' \<noteq> Valid ''self''"
  by code_simp


section \<open>Proofs: the reservation procedures\<close>

subsection \<open>Availability of generated slots\<close>

lemma set_left_join_row:
  "set (left_join_row booked ts) = (if ts \<in> set booked then {(ts, False)} else {(ts, True)})"
proof (cases "filter (\<lambda>bt. ts = bt) booked")
  case Nil
  then have "ts \<notin> set booked" by (auto simp: filter_empty_conv)
  with Nil show ?thesis by (simp add: left_join_row_def)
next
  case (Cons m ms)
  then have "ts \<in> set booked"
    by (metis filter_empty_conv list.distinct(1))
  with Cons show ?thesis by (auto simp: left_join_row_def)
qed

lemma booked_slots_iff:
  "t \<in> set (booked_slots bks biz d) \<longleftrightarrow> \<not> is_time_slot_available biz d t bks"
  by (auto simp: booked_slots_def is_time_slot_available_def occupies_def filter_empty_conv)

text \<open>
  Claim C4, as amended. For every slot time \<open>t\<close> that the weekly template generates,
  \<open>get_available_time_slots\<close> reports \<open>t\<close> as available if and only if no reservation
  with status pending or confirmed exists for \<open>(business, date, t)\<close>, and reports it as
  not available if and only if one exists.
\<close>

theorem get_available_time_slots_pending_confirmed:
  assumes "time_slots templates biz dow = Inr tss" and "t \<in> set tss"
  shows "\<exists>rows. get_available_time_slots templates bks biz d dow = Inr rows
           \<and> ((t, True) \<in> set rows \<longleftrightarrow> is_time_slot_available biz d t bks)
           \<and> ((t, False) \<in> set rows \<longleftrightarrow> \<not> is_time_slot_available biz d t bks)"
  using assms
  by (auto simp: get_available_time_slots_def set_left_join_row booked_slots_iff split: if_splits)

theorem get_available_time_slots_pending_confirmed_witness:
  "time_slots ex_templates ''b1'' 1 = Inr [36000, 37800] \<and> 36000 \<in> set [36000, 37800 :: nat]
   \<and> (\<exists>rows. get_available_time_slots ex_templates [ex_booking PENDING] ''b1'' 20000 1 = Inr rows
           \<and> ((36000, True) \<in> set rows
                 \<longleftrightarrow> is_time_slot_available ''b1'' 20000 36000 [ex_booking PENDING])
           \<and> ((36000, False) \<in> set rows
                 \<longleftrightarrow> \<not> is_time_slot_available ''b1'' 20000 36000 [ex_booking PENDING]))"
proof -
  have h1: "time_slots ex_templates ''b1'' 1 = Inr [36000, 37800]"
    by (simp add: time_slots_def time_config_def ex_templates_def generate_series_def
        sql_int_div_def slot_time_of_def upt_rec)
  have h2: "36000 \<in> set [36000, 37800 :: nat]" by simp
  from get_available_time_slots_pending_confirmed[OF h1 h2, of "[ex_booking PENDING]" 20000] h1 h2
  show ?thesis by (intro conjI)
qed

text \<open>
  The claim as stated fails: a reservation with status completed is not cancelled, yet
  its slot is reported as available.
\<close>

theorem completed_reservation_slot_reported_available:
  "get_available_time_slots ex_templates [ex_booking STATUS_COMPLETED] ''b1'' 20000 1
     = Inr [(36000, True), (37800, True)]
   \<and> \<not> spec_slot_available ''b1'' 20000 36000 [ex_booking STATUS_COMPLETED]"
proof -
  have "time_slots ex_templates ''b1'' 1 = Inr [36000, 37800]"
    by (simp add: time_slots_def time_config_def ex_templates_def generate_series_def
        sql_int_div_def slot_time_of_def upt_rec)
  then show ?thesis
    by (simp add: get_available_time_slots_def left_join_row_def booked_slots_def
        ex_booking_def status_in_pending_confirmed_def spec_slot_available_def)
qed


subsection \<open>No double booking\<close>

lemma length_filter_update:
  "i < length xs \<Longrightarrow>
   length (filter P (xs[i := v])) + (if P (xs ! i) then 1 else 0)
     = length (filter P xs) + (if P v then 1 else 0)"
proof (induction xs arbitrary: i)
  case Nil
  then show ?case by simp
next
  case (Cons x xs)
  show ?case
  proof (cases i)
    case 0
    then show ?thesis by simp
  next
    case (Suc j)
    with Cons.prems have "j < length xs" by simp
    from Cons.IH[OF this] Suc show ?thesis by simp
  qed
qed

lemma new_row_occupies:
  "same_slot biz d t c \<Longrightarrow> occupies biz d t (new_booking_row (c_params c) (c_new_id c))"
  by (simp add: same_slot_def occupies_def new_booking_row_def status_in_pending_confirmed_def)

lemma call_step_cases:
  assumes c: "same_slot biz d t c" and step: "call_step c pc bks = (pc', bks')"
  shows "(pc = at_check \<and> is_time_slot_available biz d t bks \<and> pc' = at_insert \<and> bks' = bks)
       \<or> (pc \<noteq> at_check \<and> \<not> is_returned pc \<and> is_time_slot_available biz d t bks
            \<and> c_fault c = None \<and> returned_success pc'
            \<and> bks' = bks @ [new_booking_row (c_params c) (c_new_id c)])
       \<or> (\<not> is_returned pc \<and> \<not> is_time_slot_available biz d t bks
            \<and> \<not> returned_success pc' \<and> returned_slot_taken pc' \<and> bks' = bks)
       \<or> (pc \<noteq> at_check \<and> \<not> is_returned pc \<and> \<not> returned_success pc'
            \<and> returned_fault c pc' \<and> bks' = bks)
       \<or> (is_returned pc \<and> pc' = pc \<and> bks' = bks)"
proof (cases pc)
  case at_check
  with c step show ?thesis
    by (auto simp: call_step_def same_slot_def is_returned_def returned_success_def
        returned_slot_taken_def slot_taken_def split: if_splits)
next
  case at_insert
  have key: "b_business_id (new_booking_row (c_params c) (c_new_id c)) = biz"
     "b_booking_date (new_booking_row (c_params c) (c_new_id c)) = d"
     "b_booking_time (new_booking_row (c_params c) (c_new_id c)) = t"
     "status_in_pending_confirmed (b_status (new_booking_row (c_params c) (c_new_id c)))"
    using new_row_occupies[OF c] by (simp_all add: occupies_def)
  show ?thesis
  proof (cases "c_fault c")
    case (Some m)
    with at_insert step show ?thesis
      by (auto simp: call_step_def create_booking_safe_insert_def insert_booking_def
          is_returned_def returned_success_def returned_fault_def)
  next
    case None
    with at_insert step key show ?thesis
      by (cases "is_time_slot_available biz d t bks")
         (auto simp: call_step_def create_booking_safe_insert_def insert_booking_def
            is_returned_def returned_success_def returned_slot_taken_def slot_taken_def)
  qed
next
  case (returned r)
  with step show ?thesis by (auto simp: call_step_def is_returned_def)
qed

lemma not_returned_not_success: "\<not> is_returned pc \<Longrightarrow> \<not> returned_success pc"
  by (cases pc) (simp_all add: is_returned_def returned_success_def)

lemma slot_invI:
  assumes "length pcs = length calls"
    and "length (filter (occupies biz d t) bks)
          = length (filter (occupies biz d t) bks0) + length (filter returned_success pcs)"
    and "length (filter (occupies biz d t) bks) \<le> 1"
    and "\<And>j. j < length pcs \<Longrightarrow> is_returned (pcs ! j) \<Longrightarrow>
            returned_success (pcs ! j)
            \<or> (returned_slot_taken (pcs ! j) \<and> filter (occupies biz d t) bks \<noteq> [])
            \<or> returned_fault (calls ! j) (pcs ! j)"
    and "\<And>j. filter (occupies biz d t) bks0 \<noteq> [] \<Longrightarrow> j < length pcs \<Longrightarrow>
            pcs ! j = at_check \<or> returned_slot_taken (pcs ! j)"
    and "\<And>b. b \<in> set bks \<Longrightarrow> occupies biz d t b \<Longrightarrow> b \<in> set bks0 \<or> b_status b = PENDING"
  shows "slot_inv biz d t calls bks0 (pcs, bks)"
  unfolding slot_inv_def using assms by blast

lemma call_step_inv:
  assumes inv: "slot_inv biz d t calls bks0 (pcs, bks)"
    and i: "i < length pcs"
    and c: "same_slot biz d t (calls ! i)"
    and step: "call_step (calls ! i) (pcs ! i) bks = (pc', bks')"
  shows "slot_inv biz d t calls bks0 (pcs[i := pc'], bks')"
proof -
  let ?occ = "occupies biz d t"
  have len: "length pcs = length calls"
    and cnt: "length (filter ?occ bks) = length (filter ?occ bks0) + length (filter returned_success pcs)"
    and le: "length (filter ?occ bks) \<le> 1"
    and out: "\<And>j. j < length pcs \<Longrightarrow> is_returned (pcs ! j) \<Longrightarrow>
            returned_success (pcs ! j)
            \<or> (returned_slot_taken (pcs ! j) \<and> filter ?occ bks \<noteq> [])
            \<or> returned_fault (calls ! j) (pcs ! j)"
    and early: "\<And>j. filter ?occ bks0 \<noteq> [] \<Longrightarrow> j < length pcs \<Longrightarrow>
            pcs ! j = at_check \<or> returned_slot_taken (pcs ! j)"
    and pend: "\<And>b. b \<in> set bks \<Longrightarrow> ?occ b \<Longrightarrow> b \<in> set bks0 \<or> b_status b = PENDING"
    using inv by (auto simp: slot_inv_def)
  have held: "filter ?occ bks \<noteq> []" if "filter ?occ bks0 \<noteq> []"
    using that cnt by (cases "filter ?occ bks0") auto
  note upd = length_filter_update[OF i, of returned_success pc']
  have out': "returned_success (pcs[i := pc'] ! j)
              \<or> (returned_slot_taken (pcs[i := pc'] ! j) \<and> filter ?occ bks' \<noteq> [])
              \<or> returned_fault (calls ! j) (pcs[i := pc'] ! j)"
    if j: "j < length pcs" and rj: "is_returned (pcs[i := pc'] ! j)"
      and new: "is_returned pc' \<Longrightarrow>
                returned_success pc' \<or> (returned_slot_taken pc' \<and> filter ?occ bks' \<noteq> [])
                \<or> returned_fault (calls ! i) pc'"
      and mono: "filter ?occ bks \<noteq> [] \<Longrightarrow> filter ?occ bks' \<noteq> []" for j
  proof (cases "j = i")
    case True
    with i rj new show ?thesis by simp
  next
    case False
    with rj have "is_returned (pcs ! j)" by simp
    from out[OF j this] mono False show ?thesis by auto
  qed
  have early': "pcs[i := pc'] ! j = at_check \<or> returned_slot_taken (pcs[i := pc'] ! j)"
    if "filter ?occ bks0 \<noteq> []" "j < length pcs"
      and "filter ?occ bks0 \<noteq> [] \<Longrightarrow> pc' = at_check \<or> returned_slot_taken pc'" for j
    using that early[of j] i by (cases "j = i") auto
  have pend': "b \<in> set bks0 \<or> b_status b = PENDING"
    if "b \<in> set bks'" "?occ b"
      and "bks' = bks \<or> (bks' = bks @ [new_booking_row (c_params (calls ! i)) (c_new_id (calls ! i))])"
    for b
  proof -
    have st: "b_status (new_booking_row (c_params (calls ! i)) (c_new_id (calls ! i))) = PENDING"
      by (simp add: new_booking_row_def)
    from that(3) that(1) have "b \<in> set bks
        \<or> b = new_booking_row (c_params (calls ! i)) (c_new_id (calls ! i))"
      by auto
    with pend[of b] that(2) st show ?thesis by blast
  qed
  from call_step_cases[OF c step]
  consider
      (wait) "pcs ! i = at_check" "is_time_slot_available biz d t bks" "pc' = at_insert" "bks' = bks"
    | (win) "pcs ! i \<noteq> at_check" "\<not> is_returned (pcs ! i)" "is_time_slot_available biz d t bks"
        "returned_success pc'"
        "bks' = bks @ [new_booking_row (c_params (calls ! i)) (c_new_id (calls ! i))]"
    | (taken) "\<not> is_returned (pcs ! i)" "\<not> is_time_slot_available biz d t bks"
        "\<not> returned_success pc'" "returned_slot_taken pc'" "bks' = bks"
    | (fault) "pcs ! i \<noteq> at_check" "\<not> is_returned (pcs ! i)" "\<not> returned_success pc'"
        "returned_fault (calls ! i) pc'" "bks' = bks"
    | (same) "pc' = pcs ! i" "bks' = bks"
    by blast
  then show ?thesis
  proof cases
    case wait
    then have n: "length (filter returned_success (pcs[i := pc'])) = length (filter returned_success pcs)"
      using upd by (simp add: returned_success_def)
    have free0: "filter ?occ bks0 = []"
      using wait(2) held by (auto simp: is_time_slot_available_def)
    have o: "\<And>j. j < length pcs \<Longrightarrow> is_returned (pcs[i := pc'] ! j) \<Longrightarrow>
              returned_success (pcs[i := pc'] ! j)
              \<or> (returned_slot_taken (pcs[i := pc'] ! j) \<and> filter ?occ bks' \<noteq> [])
              \<or> returned_fault (calls ! j) (pcs[i := pc'] ! j)"
      by (rule out') (simp_all add: wait is_returned_def)
    show ?thesis
      by (rule slot_invI) (use n len cnt le o pend' wait free0 in auto)
  next
    case win
    have ns: "\<not> returned_success (pcs ! i)" by (rule not_returned_not_success[OF win(2)])
    have n: "length (filter returned_success (pcs[i := pc'])) = length (filter returned_success pcs) + 1"
      using upd ns win(4) by simp
    have empty: "filter ?occ bks = []"
      using win(3) by (simp add: is_time_slot_available_def)
    have free0: "filter ?occ bks0 = []"
      using empty held by auto
    have occ: "?occ (new_booking_row (c_params (calls ! i)) (c_new_id (calls ! i)))"
      by (rule new_row_occupies[OF c])
    have o: "\<And>j. j < length pcs \<Longrightarrow> is_returned (pcs[i := pc'] ! j) \<Longrightarrow>
              returned_success (pcs[i := pc'] ! j)
              \<or> (returned_slot_taken (pcs[i := pc'] ! j) \<and> filter ?occ bks' \<noteq> [])
              \<or> returned_fault (calls ! j) (pcs[i := pc'] ! j)"
      by (rule out') (simp_all add: win empty)
    show ?thesis
      by (rule slot_invI) (use n len cnt le o pend' win empty occ free0 in auto)
  next
    case taken
    have ns: "\<not> returned_success (pcs ! i)" by (rule not_returned_not_success[OF taken(1)])
    have n: "length (filter returned_success (pcs[i := pc'])) = length (filter returned_success pcs)"
      using upd ns taken(3) by simp
    have ne: "filter ?occ bks \<noteq> []"
      using taken(2) by (simp add: is_time_slot_available_def)
    have o: "\<And>j. j < length pcs \<Longrightarrow> is_returned (pcs[i := pc'] ! j) \<Longrightarrow>
              returned_success (pcs[i := pc'] ! j)
              \<or> (returned_slot_taken (pcs[i := pc'] ! j) \<and> filter ?occ bks' \<noteq> [])
              \<or> returned_fault (calls ! j) (pcs[i := pc'] ! j)"
      by (rule out') (simp_all add: taken ne)
    have e: "\<And>j. filter ?occ bks0 \<noteq> [] \<Longrightarrow> j < length pcs \<Longrightarrow>
              pcs[i := pc'] ! j = at_check \<or> returned_slot_taken (pcs[i := pc'] ! j)"
      by (rule early') (simp_all add: taken)
    show ?thesis
      by (rule slot_invI) (use n len cnt le o e pend' taken in auto)
  next
    case fault
    have ns: "\<not> returned_success (pcs ! i)" by (rule not_returned_not_success[OF fault(2)])
    have n: "length (filter returned_success (pcs[i := pc'])) = length (filter returned_success pcs)"
      using upd ns fault(3) by simp
    have free0: "filter ?occ bks0 = []"
      using early[OF _ i] fault(1,2) by (auto simp: returned_slot_taken_def is_returned_def
          split: call_pc.splits)
    have o: "\<And>j. j < length pcs \<Longrightarrow> is_returned (pcs[i := pc'] ! j) \<Longrightarrow>
              returned_success (pcs[i := pc'] ! j)
              \<or> (returned_slot_taken (pcs[i := pc'] ! j) \<and> filter ?occ bks' \<noteq> [])
              \<or> returned_fault (calls ! j) (pcs[i := pc'] ! j)"
      by (rule out') (simp_all add: fault)
    show ?thesis
      by (rule slot_invI) (use n len cnt le o pend' fault free0 in auto)
  next
    case same
    with inv show ?thesis by simp
  qed
qed

lemma sched_step_inv:
  assumes "slot_inv biz d t calls bks0 st" and "list_all (same_slot biz d t) calls"
  shows "slot_inv biz d t calls bks0 (sched_step calls st i)"
proof (cases st)
  case (Pair pcs bks)
  show ?thesis
  proof (cases "i < length pcs \<and> i < length calls")
    case True
    then have c: "same_slot biz d t (calls ! i)"
      using assms(2) by (simp add: list_all_length)
    obtain pc' bks' where s: "call_step (calls ! i) (pcs ! i) bks = (pc', bks')"
      by (cases "call_step (calls ! i) (pcs ! i) bks")
    from call_step_inv[OF _ _ c s] assms(1) Pair True
    have "slot_inv biz d t calls bks0 (pcs[i := pc'], bks')" by simp
    with Pair True s show ?thesis by (simp add: sched_step_def)
  next
    case False
    with Pair assms(1) show ?thesis by (auto simp: sched_step_def)
  qed
qed

lemma foldl_sched_inv:
  assumes "list_all (same_slot biz d t) calls"
  shows "slot_inv biz d t calls bks0 st \<Longrightarrow>
         slot_inv biz d t calls bks0 (foldl (sched_step calls) st sched)"
  by (induction sched arbitrary: st) (simp_all add: sched_step_inv[OF _ assms])

lemma init_inv:
  "length (filter (occupies biz d t) bks) \<le> 1 \<Longrightarrow>
   slot_inv biz d t calls bks (replicate (length calls) at_check, bks)"
  by (auto simp: slot_inv_def returned_success_def is_returned_def filter_empty_conv)

lemma run_calls_inv:
  assumes "list_all (same_slot biz d t) calls"
    and "length (filter (occupies biz d t) bookings0) \<le> 1"
  shows "slot_inv biz d t calls bookings0 (run_calls calls sched bookings0)"
  unfolding run_calls_def by (rule foldl_sched_inv[OF assms(1) init_inv[OF assms(2)]])

lemma call_step_rank: "min 2 (call_rank pc + 1) \<le> call_rank (fst (call_step c pc bks))"
  by (cases pc) (auto simp: call_step_def call_rank_def split: prod.splits)

lemma sched_step_length: "length (fst (sched_step calls st j)) = length (fst st)"
  by (auto simp: sched_step_def split: prod.splits)

lemma sched_step_rank:
  assumes "i < length (fst st)" and "i < length calls"
  shows "min 2 (call_rank (fst st ! i) + (if j = i then 1 else 0))
           \<le> call_rank (fst (sched_step calls st j) ! i)"
proof (cases st)
  case (Pair pcs bks)
  show ?thesis
  proof (cases "j = i")
    case True
    obtain pc' bks' where s: "call_step (calls ! i) (pcs ! i) bks = (pc', bks')"
      by (cases "call_step (calls ! i) (pcs ! i) bks")
    with call_step_rank[of "pcs ! i" "calls ! i" bks]
    have "min 2 (call_rank (pcs ! i) + 1) \<le> call_rank pc'" by simp
    with Pair True assms s show ?thesis by (simp add: sched_step_def)
  next
    case False
    with Pair assms show ?thesis
      by (auto simp: sched_step_def split: prod.splits)
  qed
qed

lemma foldl_sched_rank:
  assumes "i < length calls"
  shows "i < length (fst st) \<Longrightarrow>
         min 2 (call_rank (fst st ! i) + count_list sched i)
           \<le> call_rank (fst (foldl (sched_step calls) st sched) ! i)"
proof (induction sched arbitrary: st)
  case Nil
  then show ?case by simp
next
  case (Cons j sched)
  let ?st' = "sched_step calls st j"
  have len: "i < length (fst ?st')" using Cons.prems by (simp add: sched_step_length)
  from Cons.IH[OF len]
  have "min 2 (call_rank (fst ?st' ! i) + count_list sched i)
          \<le> call_rank (fst (foldl (sched_step calls) ?st' sched) ! i)" .
  moreover note sched_step_rank[OF Cons.prems assms, of j]
  ultimately show ?case by (auto simp: min_def split: if_splits)
qed

lemma rank_returned: "2 \<le> call_rank pc \<Longrightarrow> is_returned pc"
  by (cases pc) (simp_all add: call_rank_def is_returned_def)

lemma foldl_sched_length:
  "length (fst (foldl (sched_step calls) st sched)) = length (fst st)"
  by (induction sched arbitrary: st) (simp_all add: sched_step_length)

lemma run_calls_length: "length (fst (run_calls calls sched bookings0)) = length calls"
  by (simp add: run_calls_def foldl_sched_length)

lemma run_calls_returns:
  assumes "runs_to_completion (length calls) sched"
  shows "list_all is_returned (fst (run_calls calls sched bookings0))"
proof -
  have "is_returned (fst (run_calls calls sched bookings0) ! i)" if i: "i < length calls" for i
  proof -
    from assms i have "2 \<le> count_list sched i"
      by (simp add: runs_to_completion_def list_all_iff)
    with foldl_sched_rank[OF i, of "(replicate (length calls) at_check, bookings0)" sched] i
    have "2 \<le> call_rank (fst (run_calls calls sched bookings0) ! i)"
      by (simp add: run_calls_def)
    then show ?thesis by (rule rank_returned)
  qed
  then show ?thesis by (simp add: list_all_length run_calls_length)
qed

lemma run_alone:
  "run_calls [c] [0, 0] tbl
     = ([returned (fst (create_booking_safe (c_params c) (c_new_id c) (c_fault c) tbl))],
        snd (create_booking_safe (c_params c) (c_new_id c) (c_fault c) tbl))"
  by (simp add: run_calls_def sched_step_def call_step_def create_booking_safe_def
      split: prod.splits)

lemma check_phase_taken:
  assumes "\<not> is_time_slot_available (p_business_id p) (p_booking_date p) (p_booking_time p) bks"
  shows "slot_taken (fst (create_booking_safe p new_id fault bks))
       \<and> snd (create_booking_safe p new_id fault bks) = bks"
  using assms by (simp add: create_booking_safe_def slot_taken_def)

lemma insert_phase_taken:
  assumes "insert_booking (new_booking_row p new_id) fault bks = unique_violation"
  shows "slot_taken (fst (create_booking_safe_insert p new_id fault bks))
       \<and> snd (create_booking_safe_insert p new_id fault bks) = bks"
  using assms by (simp add: create_booking_safe_insert_def slot_taken_def)

lemma fault_not_other: "returned_fault c pc \<Longrightarrow> c_fault c \<noteq> None"
  by (auto simp: returned_fault_def split: call_pc.splits option.splits)

text \<open>
  Claim C1, as the procedure implements it. Any number of calls of \<open>create_booking_safe\<close>
  for one \<open>(business, date, time)\<close> are interleaved in any order at the granularity of
  the availability check and the insert, from a table that satisfies the unique index
  for the slot, and every call is given its two steps. Then every call has returned a
  result row. The rows occupying the slot are those of the initial table and one for
  each call that returned success, at most one in all: no call succeeds when the slot
  was occupied from the start (every call then returns "slot taken"), at most one
  succeeds when it was free, and exactly one when it was free and the insert of at least
  one call raises no exception of its own. Every call has returned success, or the "slot
  taken" failure, or (only a call whose insert raises an exception other than the
  uniqueness violation) the row of the \<open>WHEN OTHERS\<close> handler. A row added for the slot
  is pending. A call run without interference is the procedure \<open>create_booking_safe\<close>
  itself. A call whose availability check finds the slot occupied returns "slot taken"
  and leaves the table unchanged; so does a call whose insert raises the uniqueness
  violation.
\<close>

theorem create_booking_safe_one_reservation:
  assumes slot: "list_all (same_slot biz d t) calls"
    and index: "length (filter (occupies biz d t) bookings0) \<le> 1"
    and fair: "runs_to_completion (length calls) sched"
  shows "list_all is_returned (fst (run_calls calls sched bookings0))
       \<and> length (filter (occupies biz d t) (snd (run_calls calls sched bookings0)))
           = length (filter (occupies biz d t) bookings0)
             + length (filter returned_success (fst (run_calls calls sched bookings0)))
       \<and> length (filter (occupies biz d t) (snd (run_calls calls sched bookings0))) \<le> 1
       \<and> (is_time_slot_available biz d t bookings0 \<and> list_ex (\<lambda>c. c_fault c = None) calls
            \<longrightarrow> length (filter returned_success (fst (run_calls calls sched bookings0))) = 1)
       \<and> (\<not> is_time_slot_available biz d t bookings0
            \<longrightarrow> list_all returned_slot_taken (fst (run_calls calls sched bookings0)))
       \<and> (\<forall>i < length calls.
             returned_success (fst (run_calls calls sched bookings0) ! i)
             \<or> returned_slot_taken (fst (run_calls calls sched bookings0) ! i)
             \<or> (c_fault (calls ! i) \<noteq> None
                \<and> returned_fault (calls ! i) (fst (run_calls calls sched bookings0) ! i)))
       \<and> list_all (\<lambda>b. occupies biz d t b \<longrightarrow> b \<in> set bookings0 \<or> b_status b = PENDING)
           (snd (run_calls calls sched bookings0))
       \<and> run_calls [c] [0, 0] tbl
           = ([returned (fst (create_booking_safe (c_params c) (c_new_id c) (c_fault c) tbl))],
              snd (create_booking_safe (c_params c) (c_new_id c) (c_fault c) tbl))
       \<and> (\<not> is_time_slot_available (p_business_id p) (p_booking_date p) (p_booking_time p) tbl
            \<longrightarrow> slot_taken (fst (create_booking_safe p new_id fault tbl))
              \<and> snd (create_booking_safe p new_id fault tbl) = tbl)
       \<and> (insert_booking (new_booking_row p new_id) fault tbl = unique_violation
            \<longrightarrow> slot_taken (fst (create_booking_safe_insert p new_id fault tbl))
              \<and> snd (create_booking_safe_insert p new_id fault tbl) = tbl)"
proof -
  let ?occ = "occupies biz d t"
  obtain pcs bks where r: "run_calls calls sched bookings0 = (pcs, bks)"
    by (cases "run_calls calls sched bookings0")
  have inv: "slot_inv biz d t calls bookings0 (pcs, bks)"
    using run_calls_inv[OF slot index, of sched] r by simp
  then have len: "length pcs = length calls"
    and cnt: "length (filter ?occ bks) = length (filter ?occ bookings0) + length (filter returned_success pcs)"
    and le: "length (filter ?occ bks) \<le> 1"
    and out: "\<And>j. j < length pcs \<Longrightarrow> is_returned (pcs ! j) \<Longrightarrow>
            returned_success (pcs ! j)
            \<or> (returned_slot_taken (pcs ! j) \<and> filter ?occ bks \<noteq> [])
            \<or> returned_fault (calls ! j) (pcs ! j)"
    and early: "\<And>j. filter ?occ bookings0 \<noteq> [] \<Longrightarrow> j < length pcs \<Longrightarrow>
            pcs ! j = at_check \<or> returned_slot_taken (pcs ! j)"
    and pend: "\<And>b. b \<in> set bks \<Longrightarrow> ?occ b \<Longrightarrow> b \<in> set bookings0 \<or> b_status b = PENDING"
    by (auto simp: slot_inv_def)
  have ret: "list_all is_returned pcs"
    using run_calls_returns[OF fair, of bookings0] r by simp
  then have reti: "\<And>j. j < length pcs \<Longrightarrow> is_returned (pcs ! j)"
    by (simp add: list_all_length)
  have one: "length (filter returned_success pcs) = 1"
    if free: "is_time_slot_available biz d t bookings0"
      and ex: "list_ex (\<lambda>c. c_fault c = None) calls"
  proof -
    from free have zero: "length (filter ?occ bookings0) = 0"
      by (simp add: is_time_slot_available_def)
    from ex obtain j where j: "j < length calls" "c_fault (calls ! j) = None"
      by (auto simp: list_ex_iff in_set_conv_nth)
    with out[of j] reti[of j] len fault_not_other[of "calls ! j" "pcs ! j"]
    have "returned_success (pcs ! j) \<or> filter ?occ bks \<noteq> []" by auto
    moreover have "returned_success (pcs ! j) \<Longrightarrow> filter returned_success pcs \<noteq> []"
      using j(1) len nth_mem[of j pcs] by (auto simp: filter_empty_conv)
    ultimately have "length (filter ?occ bks) \<noteq> 0" using cnt zero by auto
    with le cnt zero show ?thesis by linarith
  qed
  have all_taken: "list_all returned_slot_taken pcs"
    if "\<not> is_time_slot_available biz d t bookings0"
  proof -
    from that have ne: "filter ?occ bookings0 \<noteq> []"
      by (simp add: is_time_slot_available_def)
    have "returned_slot_taken (pcs ! j)" if j: "j < length pcs" for j
      using early[OF ne j] reti[OF j] by (auto simp: is_returned_def)
    then show ?thesis by (simp add: list_all_length)
  qed
  have each: "returned_success (pcs ! i) \<or> returned_slot_taken (pcs ! i)
             \<or> (c_fault (calls ! i) \<noteq> None \<and> returned_fault (calls ! i) (pcs ! i))"
    if "i < length calls" for i
    using out[of i] reti[of i] len that fault_not_other[of "calls ! i" "pcs ! i"] by auto
  have pending: "list_all (\<lambda>b. ?occ b \<longrightarrow> b \<in> set bookings0 \<or> b_status b = PENDING) bks"
    using pend by (auto simp: list_all_iff)
  show ?thesis
    unfolding r fst_conv snd_conv
    using ret cnt le one all_taken each pending run_alone check_phase_taken insert_phase_taken
    by (intro conjI allI impI) auto
qed

theorem create_booking_safe_one_reservation_witness:
  "list_all (same_slot ''b1'' 20000 36000) ex_calls
   \<and> length (filter (occupies ''b1'' 20000 36000) []) \<le> 1
   \<and> is_time_slot_available ''b1'' 20000 36000 []
   \<and> runs_to_completion (length ex_calls) [0, 1, 2, 0, 1, 2]
   \<and> list_ex (\<lambda>c. c_fault c = None) ex_calls
   \<and> list_all is_returned (fst (run_calls ex_calls [0, 1, 2, 0, 1, 2] []))
   \<and> length (filter returned_success (fst (run_calls ex_calls [0, 1, 2, 0, 1, 2] []))) = 1
   \<and> length (filter (occupies ''b1'' 20000 36000) (snd (run_calls ex_calls [0, 1, 2, 0, 1, 2] []))) \<le> 1
   \<and> \<not> is_time_slot_available ''b1'' 20000 36000 [ex_booking CONFIRMED]
   \<and> slot_taken (fst (create_booking_safe (ex_params ''John'') ''r2'' None [ex_booking CONFIRMED]))
   \<and> insert_booking (new_booking_row (ex_params ''John'') ''r2'') None [ex_booking PENDING]
       = unique_violation
   \<and> slot_taken (fst (create_booking_safe_insert (ex_params ''John'') ''r2'' None [ex_booking PENDING]))"
proof -
  have h1: "list_all (same_slot ''b1'' 20000 36000) ex_calls"
    by (simp add: ex_calls_def same_slot_def ex_params_def)
  have h2: "length (filter (occupies ''b1'' 20000 36000) []) \<le> 1"
    by simp
  have h2': "is_time_slot_available ''b1'' 20000 36000 []"
    by (simp add: is_time_slot_available_def)
  have h3: "runs_to_completion (length ex_calls) [0, 1, 2, 0, 1, 2]"
    by (simp add: runs_to_completion_def ex_calls_def upt_rec)
  have h4: "list_ex (\<lambda>c. c_fault c = None) ex_calls"
    by (simp add: ex_calls_def)
  have h5: "\<not> is_time_slot_available (p_business_id (ex_params ''John''))
     (p_booking_date (ex_params ''John'')) (p_booking_time (ex_params ''John''))
     [ex_booking CONFIRMED]"
    by (simp add: is_time_slot_available_def occupies_def ex_params_def ex_booking_def
        status_in_pending_confirmed_def)
  have h5': "\<not> is_time_slot_available ''b1'' 20000 36000 [ex_booking CONFIRMED]"
    using h5 by (simp add: ex_params_def)
  have h6: "insert_booking (new_booking_row (ex_params ''John'') ''r2'') None [ex_booking PENDING]
       = unique_violation"
    by (simp add: insert_booking_def new_booking_row_def is_time_slot_available_def occupies_def
        ex_params_def ex_booking_def status_in_pending_confirmed_def)
  note t1 = create_booking_safe_one_reservation[OF h1 h2 h3,
      where p = "ex_params ''John''" and tbl = "[ex_booking CONFIRMED]" and new_id = "''r2''"
        and fault = None]
  note t2 = create_booking_safe_one_reservation[OF h1 h2 h3,
      where p = "ex_params ''John''" and tbl = "[ex_booking PENDING]" and new_id = "''r2''"
        and fault = None]
  have c1: "slot_taken (fst (create_booking_safe (ex_params ''John'') ''r2'' None [ex_booking CONFIRMED]))"
    using t1 h5 by blast
  have c2: "slot_taken (fst (create_booking_safe_insert (ex_params ''John'') ''r2'' None [ex_booking PENDING]))"
    using t2 h6 by blast
  from t1 h4 h2' have c3: "list_all is_returned (fst (run_calls ex_calls [0, 1, 2, 0, 1, 2] []))"
    and c4: "length (filter returned_success (fst (run_calls ex_calls [0, 1, 2, 0, 1, 2] []))) = 1"
    and c5: "length (filter (occupies ''b1'' 20000 36000) (snd (run_calls ex_calls [0, 1, 2, 0, 1, 2] []))) \<le> 1"
    by blast+
  from h1 h2 h2' h3 h4 c3 c4 c5 h5' c1 h6 c2 show ?thesis by (intro conjI)
qed

text \<open>
  The claim as stated fails: a single call on a free slot whose insert raises an
  exception other than the uniqueness violation (here a foreign key violation) returns
  the row of the \<open>WHEN OTHERS\<close> handler. No reservation is created, and the failure is
  not "slot taken".
\<close>

theorem lone_call_with_storage_fault_creates_nothing:
  "is_time_slot_available ''b1'' 20000 36000 []
   \<and> same_slot ''b1'' 20000 36000
        \<lparr> c_params = ex_params ''Jill'', c_new_id = ''r3'',
          c_fault = Some ''violates foreign key constraint'' \<rparr>
   \<and> create_booking_safe (ex_params ''Jill'') ''r3'' (Some ''violates foreign key constraint'') []
       = (\<lparr> success = False, booking_id = None,
            error_message = Some ''Error creating booking: violates foreign key constraint'' \<rparr>, [])
   \<and> \<not> slot_taken (fst (create_booking_safe (ex_params ''Jill'') ''r3''
                          (Some ''violates foreign key constraint'') []))
   \<and> run_calls [\<lparr> c_params = ex_params ''Jill'', c_new_id = ''r3'',
                    c_fault = Some ''violates foreign key constraint'' \<rparr>] [0, 0] []
       = ([returned \<lparr> success = False, booking_id = None,
             error_message = Some ''Error creating booking: violates foreign key constraint'' \<rparr>], [])"
  by (simp add: run_calls_def sched_step_def call_step_def create_booking_safe_def
      create_booking_safe_insert_def insert_booking_def is_time_slot_available_def
      same_slot_def slot_taken_def msg_no_longer_available_def msg_just_booked_def ex_params_def)

section \<open>Proofs: channel adapters\<close>

text \<open>
  Claim C7, as amended. A call of \<open>sendText\<close> (either adapter) or \<open>sendDocument\<close> (web
  adapter) whose transport call returns without raising completes and, when the insert
  into \<open>messages\<close> succeeds, appends one outbound row with the adapter's channel, the
  content and the metadata. When the transport call raises, the call raises as well and
  writes no row. A call of \<open>sendRich\<close> (either adapter) never writes a row: it changes
  nothing but the outbox, completes when the transport call returns and raises when the
  transport call raises.
\<close>

theorem send_persists_when_transport_returns:
  "(e_deliver e (text_payload text) \<noteq> transport_error \<and> e_messages_insert_ok e \<longrightarrow>
      fst (sendText e a text md w) = Ok
      \<and> (\<exists>row. messages (snd (sendText e a text md w)) = messages w @ [row]
             \<and> m_channel row = Some (a_channel a) \<and> m_content row = text
             \<and> m_metadata row = md \<and> m_direction row = ''outbound''))
   \<and> (e_deliver e (text_payload text) = transport_error \<longrightarrow>
        sendText e a text md w = (Thrown, w))
   \<and> (e_deliver e (document_payload url (or_else fileName ''document.pdf'')
                      (or_else caption (or_else title []))) \<noteq> transport_error
        \<and> e_messages_insert_ok e \<longrightarrow>
      fst (sendDocument e a url fileName mimeType caption title w) = Ok
      \<and> (\<exists>row. messages (snd (sendDocument e a url fileName mimeType caption title w))
                  = messages w @ [row]
             \<and> m_channel row = Some (a_channel a)
             \<and> m_content row = plain (or_else caption (''Document: '' @ or_else fileName ''document.pdf''))
             \<and> m_metadata row \<noteq> None \<and> m_direction row = ''outbound''))
   \<and> (e_deliver e (document_payload url (or_else fileName ''document.pdf'')
                      (or_else caption (or_else title []))) = transport_error \<longrightarrow>
        sendDocument e a url fileName mimeType caption title w = (Thrown, w))
   \<and> messages (snd (sendRich e a kind link label w)) = messages w
   \<and> snd (sendRich e a kind link label w)
        = w\<lparr> outbox := outbox (snd (sendRich e a kind link label w)) \<rparr>
   \<and> (fst (sendRich e a kind link label w) = Thrown
        \<longleftrightarrow> e_deliver e (rich_payload kind link label) = transport_error)"
  by (auto simp: sendText_def sendDocument_def sendRich_def transport_def saveMessage_def
      split: delivery.splits)

theorem send_persists_when_transport_returns_witness:
  "e_deliver ex_env (text_payload (plain ''hello'')) \<noteq> transport_error
   \<and> e_messages_insert_ok ex_env
   \<and> fst (sendText ex_env (ex_adapter web) (plain ''hello'') None ex_world) = Ok
   \<and> e_deliver ex_env_failing (text_payload (plain ''hello'')) = transport_error
   \<and> sendText ex_env_failing (ex_adapter web) (plain ''hello'') None ex_world = (Thrown, ex_world)
   \<and> fst (sendDocument ex_env (ex_adapter web) ''http://x/menu.pdf'' (Some ''menu.pdf'') None
            (Some ''Menu'') None ex_world) = Ok
   \<and> sendDocument ex_env_failing (ex_adapter web) ''http://x/menu.pdf'' (Some ''menu.pdf'') None
        (Some ''Menu'') None ex_world = (Thrown, ex_world)
   \<and> messages (snd (sendRich ex_env (ex_adapter web) image ''http://x/a.png'' ''A'' ex_world))
       = messages ex_world"
proof -
  have h: "e_deliver ex_env (text_payload (plain ''hello'')) \<noteq> transport_error"
    "e_messages_insert_ok ex_env"
    "e_deliver ex_env_failing (text_payload (plain ''hello'')) = transport_error"
    "e_deliver ex_env (document_payload ''http://x/menu.pdf'' (or_else (Some ''menu.pdf'') ''document.pdf'')
        (or_else (Some ''Menu'') (or_else None []))) \<noteq> transport_error"
    "e_deliver ex_env_failing (document_payload ''http://x/menu.pdf'' (or_else (Some ''menu.pdf'') ''document.pdf'')
        (or_else (Some ''Menu'') (or_else None []))) = transport_error"
    by (simp_all add: ex_env_def ex_env_failing_def)
  note ok = send_persists_when_transport_returns[of ex_env "plain ''hello''" "ex_adapter web" None
      ex_world "''http://x/menu.pdf''" "Some ''menu.pdf''" "Some ''Menu''" None None
      image "''http://x/a.png''" "''A''"]
  note ko = send_persists_when_transport_returns[of ex_env_failing "plain ''hello''" "ex_adapter web"
      None ex_world "''http://x/menu.pdf''" "Some ''menu.pdf''" "Some ''Menu''" None None]
  from ok ko h show ?thesis by blast
qed

text \<open>
  The claim as stated fails for each of its two parts. When the transport rejects the
  text, \<open>sendText\<close> throws and the \<open>messages\<close> table stays empty. And a call of
  \<open>sendRich\<close> whose payload is delivered (it is in the outbox) completes and leaves the
  \<open>messages\<close> table empty as well, on either channel.
\<close>

theorem sendText_transport_failure_leaves_no_record:
  "sendText ex_env_failing (ex_adapter whatsapp) (plain ''hello'') None ex_world = (Thrown, ex_world)
   \<and> messages ex_world = []
   \<and> fst (sendRich ex_env (ex_adapter whatsapp) image ''http://x/a.png'' ''A'' ex_world) = Ok
   \<and> outbox (snd (sendRich ex_env (ex_adapter whatsapp) image ''http://x/a.png'' ''A'' ex_world))
       = [(whatsapp, ''100'', rich_payload image ''http://x/a.png'' ''A'')]
   \<and> messages (snd (sendRich ex_env (ex_adapter whatsapp) image ''http://x/a.png'' ''A'' ex_world)) = []
   \<and> fst (sendRich ex_env (ex_adapter web) image ''http://x/a.png'' ''A'' ex_world) = Ok
   \<and> outbox (snd (sendRich ex_env (ex_adapter web) image ''http://x/a.png'' ''A'' ex_world))
       = [(web, ''100'', rich_payload image ''http://x/a.png'' ''A'')]
   \<and> messages (snd (sendRich ex_env (ex_adapter web) image ''http://x/a.png'' ''A'' ex_world)) = []"
  by (simp add: sendText_def sendRich_def transport_def ex_env_failing_def ex_env_def ex_world_def
      ex_adapter_def)

section \<open>Proofs: the booking conversation engine\<close>

lemmas string_eval = js_trim_def toLowerCase_def js_lower_char_def js_is_space_def
  js_is_letter_def js_is_digit_def is_name_char_def name_regex_def digits_only_def

lemmas validator_eval = validateName_def validateBookingFor_def bookingFor_refine_def
  validateGender_def validateServiceSelection_def validateConfirmation_def

lemmas store_eval = getOrCreateState_def updateState_def completeConversation_def
  cancelConversation_def extendExpiry_def bc_update_keyed_def bc_unique_def bc_key_def
  bc_active_def single_def state_parses_def initial_collected_def THIRTY_MINUTES_def
  settings_of_def requireBookingFor_def requireGender_def active_services_def

lemmas adapter_eval = sendMessage_def sendText_def transport_def saveMessage_def try_catch_def

lemmas example_eval = ex_env_def ex_world_def ex_adapter_def ex_conversation_def
  ex_settings_def ex_service_def ex_templates_def

subsection \<open>Requirement toggles\<close>

lemma sendText_tables:
  "booking_conversations (snd (sendText e a t md w)) = booking_conversations w"
  "workflow_conversations (snd (sendText e a t md w)) = workflow_conversations w"
  "bookings (snd (sendText e a t md w)) = bookings w"
  "settings (snd (sendText e a t md w)) = settings w"
  "business_services (snd (sendText e a t md w)) = business_services w"
  "business_time_slots (snd (sendText e a t md w)) = business_time_slots w"
  by (simp_all add: sendText_def transport_def saveMessage_def split: delivery.splits)

lemma sendMessage_tables:
  "booking_conversations (snd (sendMessage e a t w)) = booking_conversations w"
  "workflow_conversations (snd (sendMessage e a t w)) = workflow_conversations w"
  "bookings (snd (sendMessage e a t w)) = bookings w"
  "settings (snd (sendMessage e a t w)) = settings w"
  "business_services (snd (sendMessage e a t w)) = business_services w"
  "business_time_slots (snd (sendMessage e a t w)) = business_time_slots w"
  by (simp_all add: sendMessage_def sendText_tables)

declare seq.simps [simp del]

lemma seq_two:
  "seq [a, b] w = (case a w of (Ok, w') \<Rightarrow> b w' | (Thrown, w') \<Rightarrow> (Thrown, w'))"
  by (simp add: seq.simps split: prod.splits completion.splits)

lemma updateState_Ok: "fst (updateState e b p s w) = Ok"
  by (simp add: updateState_def)

lemma seq_updateState:
  "seq (updateState e b p s # as) w = seq as (snd (updateState e b p s w))"
  by (simp add: seq.simps updateState_def)

lemma filter_map_if_stable:
  assumes "\<And>r. P r \<Longrightarrow> P (f r)"
  shows "filter P (map (\<lambda>r. if P r then f r else r) xs) = map f (filter P xs)"
  by (induction xs) (auto simp: assms)

lemma filter_map_if_other:
  assumes "\<And>r. Q r \<Longrightarrow> P (f r) = P r"
  shows "filter P (map (\<lambda>r. if Q r then f r else r) xs)
           = map (\<lambda>r. if Q r then f r else r) (filter P xs)"
  by (induction xs) (auto simp: assms)

lemma filter_map_if_leaves:
  assumes "\<And>r. \<not> P (f r)"
  shows "filter P (map (\<lambda>r. if P r then f r else r) xs) = []"
  by (induction xs) (auto simp: assms)

lemma active_after_updateState:
  "filter (bc_active b p) (booking_conversations (snd (updateState e b p s w)))
     = map (\<lambda>r. r\<lparr> bc_conversation_state := collectedData s, bc_current_step := currentStep s,
                     bc_updated_at := e_now e \<rparr>)
         (filter (bc_active b p) (booking_conversations w))"
proof -
  have stable: "bc_active b p r \<Longrightarrow>
      bc_active b p (r\<lparr> bc_conversation_state := collectedData s, bc_current_step := currentStep s,
                     bc_updated_at := e_now e \<rparr>)" for r
    by (simp add: bc_active_def)
  show ?thesis by (simp add: updateState_def filter_map_if_stable[of "bc_active b p", OF stable])
qed

lemma active_steps_updateState:
  "active_steps (snd (updateState e b p s w)) b p
     = map (\<lambda>_. currentStep s) (filter (bc_active b p) (booking_conversations w))"
  by (simp add: active_steps_def active_after_updateState comp_def)

lemma active_steps_sendMessage:
  "active_steps (snd (sendMessage e a t w)) b p = active_steps w b p"
  by (simp add: active_steps_def sendMessage_tables)

lemma active_steps_after_send:
  "active_steps (snd (seq [updateState e b p s, sendMessage e a t] w)) b p
     = map (\<lambda>_. currentStep s) (filter (bc_active b p) (booking_conversations w))"
  by (simp add: seq_updateState seq_two active_steps_sendMessage active_steps_updateState
       split: prod.splits completion.splits)
     (metis active_steps_sendMessage active_steps_updateState snd_conv)+

lemma active_steps_cancel:
  "set (active_steps (snd (cancelConversation e b p w)) b p) \<subseteq> set (active_steps w b p)"
proof (cases "bc_update_keyed (bc_active b p)
             (\<lambda>r. r\<lparr> bc_is_completed := True, bc_current_step := IDLE,
                      bc_updated_at := e_now e \<rparr>) (booking_conversations w)")
  case None
  then show ?thesis by (simp add: cancelConversation_def)
next
  case (Some tbl)
  then have "tbl = booking_conversations w
     \<or> tbl = map (\<lambda>r. if bc_active b p r then r\<lparr> bc_is_completed := True, bc_current_step := IDLE,
                      bc_updated_at := e_now e \<rparr> else r) (booking_conversations w)"
    by (auto simp: bc_update_keyed_def Let_def split: if_splits)
  moreover have "filter (bc_active b p) (map (\<lambda>r. if bc_active b p r then r\<lparr> bc_is_completed := True, bc_current_step := IDLE,
                      bc_updated_at := e_now e \<rparr> else r) xs) = []" for xs
    by (rule filter_map_if_leaves) (simp add: bc_active_def)
  ultimately have "filter (bc_active b p) tbl = [] \<or> tbl = booking_conversations w"
    by auto
  with Some show ?thesis
    by (auto simp: cancelConversation_def active_steps_def filter_empty_conv)
qed

lemma active_steps_after_send_set:
  assumes "filter (bc_active b p) (booking_conversations w) \<noteq> []"
  shows "set (active_steps (snd (seq [updateState e b p s, sendMessage e a t] w)) b p)
           = {currentStep s}"
  using assms unfolding active_steps_after_send
  by (cases "filter (bc_active b p) (booking_conversations w)") auto

text \<open>
  Claim C8, as amended. After a valid name, the conversation enters
  \<open>COLLECTING_BOOKING_FOR\<close> if and only if the bot's \<open>booking_require_booking_for\<close>
  setting, read from the store in that turn, is not \<open>false\<close>. After a valid "booking for"
  answer, it enters \<open>COLLECTING_GENDER\<close> if and only if the \<open>booking_require_gender\<close>
  setting, read from the store in that turn, is not \<open>false\<close>.
\<close>

theorem requirement_toggles_read_in_turn:
  "(validateName message = Valid v
     \<and> filter (bc_active (a_botId a) (a_userKey a)) (booking_conversations w) \<noteq> [] \<longrightarrow>
      (COLLECTING_BOOKING_FOR
         \<in> set (active_steps (snd (handleNameInput e a message state w)) (a_botId a) (a_userKey a)))
       = requireBookingFor w (a_botId a))
   \<and> (validateBookingFor message = Valid v'
     \<and> filter (bc_active (a_botId a) (a_userKey a)) (booking_conversations w) \<noteq> [] \<longrightarrow>
      (COLLECTING_GENDER
         \<in> set (active_steps (snd (handleBookingForInput e a message state w)) (a_botId a) (a_userKey a)))
       = requireGender w (a_botId a))"
proof (intro conjI impI)
  assume h: "validateName message = Valid v
     \<and> filter (bc_active (a_botId a) (a_userKey a)) (booking_conversations w) \<noteq> []"
  then show "(COLLECTING_BOOKING_FOR
         \<in> set (active_steps (snd (handleNameInput e a message state w)) (a_botId a) (a_userKey a)))
       = requireBookingFor w (a_botId a)"
    by (simp add: handleNameInput_def Let_def active_steps_after_send_set set_step_def)
next
  let ?b = "a_botId a" and ?p = "a_userKey a"
  assume h: "validateBookingFor message = Valid v'
     \<and> filter (bc_active ?b ?p) (booking_conversations w) \<noteq> []"
  show "(COLLECTING_GENDER
         \<in> set (active_steps (snd (handleBookingForInput e a message state w)) ?b ?p))
       = requireGender w ?b"
  proof (cases "requireGender w ?b")
    case True
    with h show ?thesis
      by (simp add: handleBookingForInput_def Let_def active_steps_after_send_set set_step_def)
  next
    case False
    define chosen where "chosen = set_step SHOWING_SERVICES
        (state\<lparr> collectedData := (collectedData state)\<lparr> bookingFor := Some v' \<rparr> \<rparr>)"
    define w1 where "w1 = snd (updateState e ?b ?p chosen w)"
    have res: "handleBookingForInput e a message state w = showServices e a chosen w1"
      using h False
      by (simp add: handleBookingForInput_def Let_def chosen_def w1_def seq_updateState seq_two
            updateState_def)
    have s1: "set (active_steps w1 ?b ?p) \<subseteq> {SHOWING_SERVICES}"
      by (auto simp: w1_def active_steps_updateState chosen_def set_step_def)
    have "set (active_steps (snd (showServices e a chosen w1)) ?b ?p)
            \<subseteq> {SHOWING_SERVICES, COLLECTING_SERVICE}"
    proof (cases "active_services w1 (a_businessId a)")
      case Nil
      have "set (active_steps (snd (seq [sendMessage e a no_services,
                   cancelConversation e ?b ?p] w1)) ?b ?p) \<subseteq> set (active_steps w1 ?b ?p)"
        using active_steps_cancel[of e ?b ?p "snd (sendMessage e a no_services w1)"]
        by (auto simp: seq_two active_steps_sendMessage split: prod.splits completion.splits)
           (metis active_steps_sendMessage snd_conv subsetD)+
      with Nil s1 show ?thesis by (auto simp: showServices_def)
    next
      case (Cons x xs)
      then show ?thesis
        by (auto simp: showServices_def active_steps_after_send set_step_def)
    qed
    with res False show ?thesis by auto
  qed
qed

theorem requirement_toggles_read_in_turn_witness:
  "validateName ''Jane'' = Valid ''Jane''
   \<and> filter (bc_active ''bot1'' ''100'') (booking_conversations ex_world_toggles_off) \<noteq> []
   \<and> (COLLECTING_BOOKING_FOR
         \<in> set (active_steps
                  (snd (handleNameInput ex_env (ex_adapter whatsapp) ''Jane''
                          \<lparr> currentStep = COLLECTING_NAME, collectedData = initial_collected ''100'' \<rparr>
                          ex_world_toggles_off)) ''bot1'' ''100''))
       = requireBookingFor ex_world_toggles_off ''bot1''
   \<and> validateBookingFor ''self'' = Valid ''self''
   \<and> (COLLECTING_GENDER
         \<in> set (active_steps
                  (snd (handleBookingForInput ex_env (ex_adapter whatsapp) ''self''
                          \<lparr> currentStep = COLLECTING_BOOKING_FOR,
                            collectedData = initial_collected ''100'' \<rparr>
                          ex_world_toggles_off)) ''bot1'' ''100''))
       = requireGender ex_world_toggles_off ''bot1''"
proof -
  have h1: "validateName ''Jane'' = Valid ''Jane''"
    by (simp add: validator_eval string_eval)
  have h2: "validateBookingFor ''self'' = Valid ''self''"
    by (simp add: validator_eval string_eval)
  have h3: "filter (bc_active (a_botId (ex_adapter whatsapp)) (a_userKey (ex_adapter whatsapp)))
              (booking_conversations ex_world_toggles_off) \<noteq> []"
    by (simp add: ex_world_toggles_off_def example_eval bc_active_def)
  note t1 = requirement_toggles_read_in_turn[where message = "''Jane''" and v = "''Jane''"
      and a = "ex_adapter whatsapp" and w = ex_world_toggles_off and e = ex_env
      and state = "\<lparr> currentStep = COLLECTING_NAME, collectedData = initial_collected ''100'' \<rparr>"]
  note t2 = requirement_toggles_read_in_turn[where message = "''self''" and v' = "''self''"
      and a = "ex_adapter whatsapp" and w = ex_world_toggles_off and e = ex_env
      and state = "\<lparr> currentStep = COLLECTING_BOOKING_FOR,
                        collectedData = initial_collected ''100'' \<rparr>"]
  have a: "a_botId (ex_adapter whatsapp) = ''bot1''" "a_userKey (ex_adapter whatsapp) = ''100''"
    by (simp_all add: ex_adapter_def)
  from t1 t2 h1 h2 h3 show ?thesis unfolding a by blast
qed

text \<open>
  The claim as stated fails: with both toggles disabled, the turn that receives the name
  moves the conversation to \<open>COLLECTING_GENDER\<close>.
\<close>

theorem gender_asked_although_disabled:
  "\<not> requireGender ex_world_toggles_off ''bot1''
   \<and> active_steps (snd (handleBookingMessage ex_env (ex_adapter whatsapp) ''Jane'' ex_world_toggles_off))
        ''bot1'' ''100'' = [COLLECTING_GENDER]"
  by (simp add: handleBookingMessage_def route_step_def handleNameInput_def set_step_def
      active_steps_def ex_world_toggles_off_def seq.simps
      string_eval validator_eval store_eval adapter_eval example_eval)

subsection \<open>The expiry sweep\<close>

text \<open>
  Claim C6, at its failing input. The customer has a completed conversation and an
  abandoned one past its expiry. The table satisfies its unique constraint, the
  abandoned row is the one expired row, and the sweep updates nothing and returns 0:
  setting \<open>is_completed\<close> on the expired row would repeat the key of the completed one.
\<close>

theorem cleanup_blocked_by_completed_row:
  "bc_unique (booking_conversations ex_world_confirmed_history)
   \<and> filter (bc_expired (e_now ex_env)) (booking_conversations ex_world_confirmed_history)
       = [ex_conversation ''c2'' COLLECTING_NAME False 500]
   \<and> cleanupExpiredConversations (e_now ex_env) ex_world_confirmed_history
       = (0, ex_world_confirmed_history)"
  by (simp add: cleanupExpiredConversations_def bc_update_keyed_def bc_unique_def bc_key_def
      bc_expired_def ex_world_confirmed_history_def ex_world_def ex_conversation_def ex_env_def)


subsection \<open>Confirmation when the slot has been taken\<close>

lemma preserves_seq: "list_all (preserves P) as \<Longrightarrow> preserves P (seq as)"
proof (induction as)
  case Nil
  then show ?case by (simp add: preserves_def seq.simps)
next
  case (Cons a as)
  then have a: "preserves P a" and as: "preserves P (seq as)" by simp_all
  show ?case unfolding preserves_def
  proof (intro allI impI)
    fix w assume "P w"
    with a have pa: "P (snd (a w))" by (simp add: preserves_def)
    show "P (snd (seq (a # as) w))"
    proof (cases "a w")
      case (Pair c w')
      with pa have "P w'" by simp
      with as have "P (snd (seq as w'))" by (simp add: preserves_def)
      with Pair \<open>P w'\<close> show ?thesis by (cases c) (simp_all add: seq.simps)
    qed
  qed
qed

lemma preservesD: "preserves P a \<Longrightarrow> P w \<Longrightarrow> P (snd (a w))"
  by (simp add: preserves_def)







lemma seq_Cons_Ok: "a w = (Ok, w') \<Longrightarrow> seq (a # as) w = seq as w'"
  by (simp add: seq.simps)

lemma active_steps_subset_showAvailableDates:
  "set (active_steps (snd (showAvailableDates e a s w)) (a_botId a) (a_userKey a))
     \<subseteq> {COLLECTING_DATE}"
  by (auto simp: showAvailableDates_def active_steps_after_send set_step_def)






lemma seq_Nil: "seq [] w = (Ok, w)"
  by (simp add: seq.simps)

















section \<open>Proofs: what the engines preserve\<close>

subsection \<open>Elementary writes\<close>

lemma seqD: "list_all (preserves P) as \<Longrightarrow> P w \<Longrightarrow> P (snd (seq as w))"
  using preserves_seq[of P as] by (simp add: preserves_def)

lemma preserves_try_catch:
  "preserves P body \<Longrightarrow> preserves P handler \<Longrightarrow> preserves P (try_catch body handler)"
  unfolding preserves_def try_catch_def
  by (auto split: prod.splits completion.splits)

lemma preserves_skip: "preserves P skip"
  by (simp add: preserves_def skip_def)

lemma pp_outbox: "prims_preserve_on L W P \<Longrightarrow> P w \<Longrightarrow> P (w\<lparr> outbox := x1 \<rparr>)"
  and pp_messages: "prims_preserve_on L W P \<Longrightarrow> P w \<Longrightarrow> P (w\<lparr> messages := x2 \<rparr>)"
  and pp_bookings: "prims_preserve_on L W P \<Longrightarrow> P w \<Longrightarrow> P (w\<lparr> bookings := x3 \<rparr>)"
  and pp_invoked: "prims_preserve_on L W P \<Longrightarrow> P w \<Longrightarrow> ep \<in> L \<Longrightarrow> P (w\<lparr> invoked := invoked w @ [ep] \<rparr>)"
  and pp_inquiries: "prims_preserve_on L W P \<Longrightarrow> P w \<Longrightarrow> P (w\<lparr> inquiries := x \<rparr>)"
  by (simp_all add: prims_preserve_on_def)

lemma pp_bc_map:
  "prims_preserve_on L W P \<Longrightarrow> P w \<Longrightarrow> (\<And>r. bc_key (f r) = bc_key r) \<Longrightarrow>
   P (w\<lparr> booking_conversations := map f (booking_conversations w) \<rparr>)"
  by (simp add: prims_preserve_on_def)

lemma pp_bc_keyed:
  "prims_preserve_on L W P \<Longrightarrow> P w \<Longrightarrow> keeps_bc_owner f \<Longrightarrow> (\<And>r. bc_is_completed (f r)) \<Longrightarrow>
   bc_update_keyed sel f (booking_conversations w) = Some tbl \<Longrightarrow>
   P (w\<lparr> booking_conversations := tbl \<rparr>)"
  unfolding prims_preserve_on_def by blast

lemma pp_bc_insert:
  "prims_preserve_on L W P \<Longrightarrow> P w \<Longrightarrow> bc_key row \<notin> set (map bc_key (booking_conversations w)) \<Longrightarrow>
   P (w\<lparr> booking_conversations := booking_conversations w @ [row] \<rparr>)"
  by (simp add: prims_preserve_on_def)

lemma pp_wc_map:
  "prims_preserve P \<Longrightarrow> P w \<Longrightarrow> keeps_wc_key f \<Longrightarrow>
   P (w\<lparr> workflow_conversations := map (\<lambda>r. if sel r then f r else r) (workflow_conversations w) \<rparr>)"
  by (simp add: prims_preserve_on_def)

lemma pp_wc_insert:
  "prims_preserve P \<Longrightarrow> P w \<Longrightarrow>
   single (filter (wc_active (wc_bot_id row) (wc_user_key row)) (workflow_conversations w)) = None \<Longrightarrow>
   P (w\<lparr> workflow_conversations := workflow_conversations w @ [row] \<rparr>)"
  by (simp add: prims_preserve_on_def)

lemma transport_pres: "prims_preserve_on L W P \<Longrightarrow> preserves P (transport e a p)"
  by (auto simp: preserves_def transport_def pp_outbox split: delivery.splits)

lemma saveMessage_pres: "prims_preserve_on L W P \<Longrightarrow> preserves P (saveMessage e a c t md)"
  by (auto simp: preserves_def saveMessage_def pp_messages)


lemma sendText_pres: "prims_preserve_on L W P \<Longrightarrow> preserves P (sendText e a t md)"
  unfolding sendText_def by (rule preserves_seq) (simp add: transport_pres saveMessage_pres)

lemma sendMessage_pres: "prims_preserve_on L W P \<Longrightarrow> preserves P (sendMessage e a t)"
  by (simp add: sendMessage_def sendText_pres)

lemma sendRich_pres: "prims_preserve_on L W P \<Longrightarrow> preserves P (sendRich e a k u c)"
  by (simp add: sendRich_def transport_pres)

lemma sendDocument_pres: "prims_preserve_on L W P \<Longrightarrow> preserves P (sendDocument e a u f m c t)"
  unfolding sendDocument_def by (rule preserves_seq) (simp add: transport_pres saveMessage_pres)

lemma sendTyping_pres: "prims_preserve_on L W P \<Longrightarrow> preserves P (sendTyping e a s)"
  by (simp add: sendTyping_def preserves_try_catch transport_pres preserves_skip)

lemma sendError_pres: "prims_preserve_on L W P \<Longrightarrow> preserves P (sendError e a c m)"
  by (cases "a_channel a")
     (simp_all add: sendError_def preserves_try_catch transport_pres sendText_pres preserves_skip)

lemma updateState_pres:
  assumes pp: "prims_preserve_on L W P" shows "preserves P (updateState e b p s)"
  unfolding preserves_def updateState_def
  by (auto intro!: pp_bc_map[OF pp] simp: bc_key_def bc_active_def)

lemma extendExpiry_pres:
  assumes pp: "prims_preserve_on L W P" shows "preserves P (extendExpiry e b p m)"
  unfolding preserves_def extendExpiry_def
  by (auto intro!: pp_bc_map[OF pp] simp: bc_key_def bc_active_def)

lemma completeConversation_pres:
  assumes pp: "prims_preserve_on L W P" shows "preserves P (completeConversation e b p)"
  unfolding preserves_def completeConversation_def
proof (intro allI impI)
  fix w assume P: "P w"
  show "P (snd (case bc_update_keyed (bc_active b p)
             (\<lambda>r. r\<lparr> bc_is_completed := True, bc_current_step := COMPLETED,
                      bc_updated_at := e_now e \<rparr>) (booking_conversations w) of
        Some tbl \<Rightarrow> (Ok, w\<lparr> booking_conversations := tbl \<rparr>)
      | None \<Rightarrow> (Thrown, w)))"
  proof (cases "bc_update_keyed (bc_active b p)
             (\<lambda>r. r\<lparr> bc_is_completed := True, bc_current_step := COMPLETED,
                      bc_updated_at := e_now e \<rparr>) (booking_conversations w)")
    case None
    with P show ?thesis by simp
  next
    case (Some tbl)
    from pp_bc_keyed[OF pp P _ _ Some] Some show ?thesis by (simp add: keeps_bc_owner_def)
  qed
qed

lemma cancelConversation_pres:
  assumes pp: "prims_preserve_on L W P" shows "preserves P (cancelConversation e b p)"
  unfolding preserves_def cancelConversation_def
proof (intro allI impI)
  fix w assume P: "P w"
  show "P (snd (case bc_update_keyed (bc_active b p)
             (\<lambda>r. r\<lparr> bc_is_completed := True, bc_current_step := IDLE,
                      bc_updated_at := e_now e \<rparr>) (booking_conversations w) of
        Some tbl \<Rightarrow> (Ok, w\<lparr> booking_conversations := tbl \<rparr>)
      | None \<Rightarrow> (Thrown, w)))"
  proof (cases "bc_update_keyed (bc_active b p)
             (\<lambda>r. r\<lparr> bc_is_completed := True, bc_current_step := IDLE,
                      bc_updated_at := e_now e \<rparr>) (booking_conversations w)")
    case None
    with P show ?thesis by simp
  next
    case (Some tbl)
    from pp_bc_keyed[OF pp P _ _ Some] Some show ?thesis by (simp add: keeps_bc_owner_def)
  qed
qed


lemma getOrCreateState_pres:
  assumes pp: "prims_preserve_on L W P" and P: "P w"
  shows "P (snd (getOrCreateState e b bs p w))"
proof (cases "single (filter (bc_active b p) (booking_conversations w))")
  case (Some r)
  with P show ?thesis by (simp add: getOrCreateState_def)
next
  case None
  show ?thesis
  proof (cases "(b, p, False) \<in> set (map bc_key (booking_conversations w))")
    case True
    with None P show ?thesis by (simp add: getOrCreateState_def)
  next
    case False
    have "P (w\<lparr> booking_conversations := booking_conversations w @
                      [\<lparr> bc_id = e_new_conversation_id e, bc_bot_id = b,
                         bc_business_id = bs, bc_customer_phone = p,
                         bc_conversation_state = initial_collected p,
                         bc_current_step = IDLE, bc_is_completed = False,
                         bc_expires_at = e_now e + THIRTY_MINUTES,
                         bc_updated_at = e_now e \<rparr>] \<rparr>)"
      by (rule pp_bc_insert[OF pp P]) (use False in \<open>simp add: bc_key_def\<close>)
    with None False show ?thesis by (simp add: getOrCreateState_def)
  qed
qed

lemma log_call_pres: "prims_preserve P \<Longrightarrow> P w \<Longrightarrow> P (log_call ep w)"
  by (simp add: log_call_def pp_invoked)

subsection \<open>The booking engine\<close>

lemmas booking_prims = sendMessage_pres updateState_pres cancelConversation_pres
  completeConversation_pres extendExpiry_pres

lemma startBooking_pres:
  assumes pp: "prims_preserve_on L W P" shows "preserves P (startBooking e a s)"
  unfolding startBooking_def by (rule preserves_seq) (simp add: booking_prims[OF pp])

lemma handleCancel_pres:
  assumes pp: "prims_preserve_on L W P" shows "preserves P (handleCancel e a)"
  unfolding handleCancel_def by (rule preserves_seq) (simp add: booking_prims[OF pp])

lemma handleNameInput_pres:
  assumes pp: "prims_preserve_on L W P" shows "preserves P (handleNameInput e a m s)"
  unfolding preserves_def handleNameInput_def Let_def
  by (auto split: validation.splits intro!: seqD[where P = P]
        simp: booking_prims[OF pp] preservesD[OF sendMessage_pres[OF pp]])

lemma showServices_pres:
  assumes pp: "prims_preserve_on L W P" shows "preserves P (showServices e a s)"
  unfolding preserves_def showServices_def
  by (auto split: list.splits intro!: seqD[where P = P] simp: booking_prims[OF pp])

lemma handleBookingForInput_pres:
  assumes pp: "prims_preserve_on L W P" shows "preserves P (handleBookingForInput e a m s)"
  unfolding preserves_def handleBookingForInput_def Let_def
  by (auto split: validation.splits intro!: seqD[where P = P]
        simp: booking_prims[OF pp] showServices_pres[OF pp] preservesD[OF sendMessage_pres[OF pp]])

lemma handleGenderInput_pres:
  assumes pp: "prims_preserve_on L W P" shows "preserves P (handleGenderInput e a m s)"
  unfolding preserves_def handleGenderInput_def Let_def
  by (auto split: validation.splits intro!: seqD[where P = P]
        simp: booking_prims[OF pp] showServices_pres[OF pp] preservesD[OF sendMessage_pres[OF pp]])

lemma showAvailableDates_pres:
  assumes pp: "prims_preserve_on L W P" shows "preserves P (showAvailableDates e a s)"
  unfolding showAvailableDates_def by (rule preserves_seq) (simp add: booking_prims[OF pp])

lemma handleServiceInput_pres:
  assumes pp: "prims_preserve_on L W P" shows "preserves P (handleServiceInput e a m s)"
  unfolding preserves_def handleServiceInput_def Let_def
  by (auto split: validation.splits list.splits option.splits intro!: seqD[where P = P]
        simp: booking_prims[OF pp] showAvailableDates_pres[OF pp]
              preservesD[OF sendMessage_pres[OF pp]])

lemma showAvailableTimeSlots_pres:
  assumes pp: "prims_preserve_on L W P" shows "preserves P (showAvailableTimeSlots e a s)"
  unfolding preserves_def showAvailableTimeSlots_def
  by (auto split: option.splits list.splits intro!: seqD[where P = P]
        simp: booking_prims[OF pp] showAvailableDates_pres[OF pp])

lemma handleDateInput_pres:
  assumes pp: "prims_preserve_on L W P" shows "preserves P (handleDateInput e a m s)"
  unfolding preserves_def handleDateInput_def Let_def
  by (auto split: option.splits intro!: seqD[where P = P]
        simp: booking_prims[OF pp] showAvailableTimeSlots_pres[OF pp]
              preservesD[OF sendMessage_pres[OF pp]])

lemma handleTimeInput_pres:
  assumes pp: "prims_preserve_on L W P" shows "preserves P (handleTimeInput e a m s)"
  unfolding preserves_def handleTimeInput_def Let_def showConfirmation_def
  by (auto split: option.splits intro!: seqD[where P = P]
        simp: booking_prims[OF pp] preservesD[OF sendMessage_pres[OF pp]])

lemma handleConfirmation_pres:
  assumes pp: "prims_preserve_on L W P" shows "preserves P (handleConfirmation e a m s)"
  unfolding preserves_def
proof (intro allI impI)
  fix w assume P: "P w"
  have send: "preserves P (\<lambda>w'. sendMessage e a (t w') w')" for t
    using sendMessage_pres[OF pp] by (simp add: preserves_def)
  show "P (snd (handleConfirmation e a m s w))"
  proof (cases "validateConfirmation m")
    case (Invalid err)
    then show ?thesis
      using preservesD[OF sendMessage_pres[OF pp] P] by (simp add: handleConfirmation_def)
  next
    case (Valid yes)
    show ?thesis
    proof (cases yes)
      case False
      with Valid show ?thesis
        using preservesD[OF handleCancel_pres[OF pp] P] by (simp add: handleConfirmation_def)
    next
      case True
      show ?thesis
      proof (cases "confirmation_params e a (collectedData s)")
        case None
        with Valid True show ?thesis
          using preservesD[OF sendMessage_pres[OF pp] P] by (simp add: handleConfirmation_def)
      next
        case (Some p)
        obtain r bks where cb:
          "create_booking_safe p (e_new_booking_id e) (e_insert_fault e) (bookings w) = (r, bks)"
          by (cases "create_booking_safe p (e_new_booking_id e) (e_insert_fault e) (bookings w)")
        have P': "P (w\<lparr> bookings := bks \<rparr>)" by (rule pp_bookings[OF pp P])
        show ?thesis
          using Valid True Some cb
          by (auto simp: handleConfirmation_def booking_prims[OF pp] send
                showAvailableTimeSlots_pres[OF pp] intro!: seqD[where P = P] P')
      qed
    qed
  qed
qed

lemma route_step_pres:
  assumes pp: "prims_preserve_on L W P" shows "preserves P (route_step e a m s)"
  unfolding route_step_def
  by (cases "currentStep s")
     (simp_all add: startBooking_pres[OF pp] handleNameInput_pres[OF pp]
        handleBookingForInput_pres[OF pp] handleGenderInput_pres[OF pp]
        handleServiceInput_pres[OF pp] handleDateInput_pres[OF pp] handleTimeInput_pres[OF pp]
        handleConfirmation_pres[OF pp])

lemma handleBookingMessage_pres_on:
  assumes pp: "prims_preserve_on L W P" and L: "ep_handleBookingMessage \<in> L"
  shows "preserves P (handleBookingMessage e a m)"
  unfolding preserves_def
proof (intro allI impI)
  fix w assume P: "P w"
  let ?body = "\<lambda>w0. case getOrCreateState e (a_botId a) (a_businessId a) (a_userKey a) w0 of
               (None, w1) \<Rightarrow> (Thrown, w1)
             | (Some state, w1) \<Rightarrow>
                 seq [extendExpiry e (a_botId a) (a_userKey a) 30,
                      (if js_trim (toLowerCase m) = ''cancel''
                          \<and> currentStep state \<noteq> CONFIRMING
                       then handleCancel e a
                       else route_step e a m state)] w1"
  have body: "preserves P ?body"
    unfolding preserves_def
  proof (intro allI impI)
    fix w0 assume P0: "P w0"
    obtain st w1 where g: "getOrCreateState e (a_botId a) (a_businessId a) (a_userKey a) w0 = (st, w1)"
      by (cases "getOrCreateState e (a_botId a) (a_businessId a) (a_userKey a) w0")
    have P1: "P w1" using getOrCreateState_pres[OF pp P0, of e "a_botId a" "a_businessId a" "a_userKey a"] g
      by simp
    show "P (snd (?body w0))"
      using g P1
      by (cases st)
         (auto intro!: seqD[where P = P]
            simp: extendExpiry_pres[OF pp] handleCancel_pres[OF pp] route_step_pres[OF pp])
  qed
  have "P (w\<lparr> invoked := invoked w @ [ep_handleBookingMessage] \<rparr>)"
    by (rule pp_invoked[OF pp P L])
  then show "P (snd (handleBookingMessage e a m w))"
    unfolding handleBookingMessage_def
    by (rule preservesD[OF preserves_try_catch[OF body sendMessage_pres[OF pp]]])
qed

lemma handleBookingMessage_pres:
  "prims_preserve P \<Longrightarrow> preserves P (handleBookingMessage e a m)"
  using handleBookingMessage_pres_on[of UNIV True P e a m] by simp

subsection \<open>The workflow engine and the routers\<close>

lemma returning_pres: "preserves P act \<Longrightarrow> P w \<Longrightarrow> P (snd (returning v act w))"
  by (auto simp: returning_def preserves_def split: prod.splits completion.splits)

lemma catch_false_pres: "(\<And>w. P w \<Longrightarrow> P (snd (body w))) \<Longrightarrow> P w \<Longrightarrow> P (snd (catch_false body w))"
  by (auto simp: catch_false_def split: prod.splits result.splits) (metis snd_conv)+

lemma wc_update_pres:
  assumes pp: "prims_preserve P" and k: "keeps_wc_key f"
  shows "preserves P (wc_update sel f)"
  unfolding preserves_def wc_update_def using pp_wc_map[OF pp _ k] by simp

lemma send_media_item_pres:
  assumes pp: "prims_preserve P" shows "preserves P (send_media_item e a item)"
  unfolding send_media_item_def
  by (auto split: option.splits media_type.splits
        intro!: preserves_try_catch
        simp: preserves_skip sendDocument_pres[OF pp] sendText_pres[OF pp] sendRich_pres[OF pp])

lemma share_media_block_pres:
  assumes pp: "prims_preserve P" shows "preserves P (share_media_block e a prompt)"
  unfolding preserves_def share_media_block_def
  by (auto split: list.splits intro!: seqD[where P = P]
        simp: sendText_pres[OF pp] send_media_item_pres[OF pp] list_all_iff
              preservesD[OF sendText_pres[OF pp]])

lemma prompt_step_pres:
  assumes pp: "prims_preserve P" shows "preserves P (prompt_step e a prompt st)"
  by (simp add: prompt_step_def sendText_pres[OF pp])

lemma step_output_pres:
  assumes pp: "prims_preserve P" shows "preserves P (step_output e a m st)"
  by (simp add: step_output_def sendText_pres[OF pp] share_media_block_pres[OF pp] preserves_skip)

lemma keeps_wc_key_simps:
  "keeps_wc_key (\<lambda>r. r\<lparr> wc_is_completed := True \<rparr>)"
  "keeps_wc_key (\<lambda>r. r\<lparr> wc_is_completed := True, wc_state := st \<rparr>)"
  "keeps_wc_key (\<lambda>r. r\<lparr> wc_current_step_id := n, wc_state := st \<rparr>)"
  "keeps_wc_key (\<lambda>r. r\<lparr> wc_current_step_id := n \<rparr>)"
  by (simp_all add: keeps_wc_key_def)

lemma hand_over_pres:
  assumes pp: "prims_preserve P" and k: "keeps_wc_key f"
  shows "preserves P (hand_over_to_booking e a m convo f)"
  unfolding hand_over_to_booking_def
  by (rule preserves_seq) (simp add: wc_update_pres[OF pp k] handleBookingMessage_pres[OF pp])

lemma complete_workflow_pres:
  assumes pp: "prims_preserve P"
  shows "preserves P (complete_workflow e a flow convo state)"
proof -
  have "preserves P (\<lambda>w. if c then (Ok, w\<lparr> inquiries := inquiries w @ [row] \<rparr>) else (Ok, w))"
    for c row
    by (simp add: preserves_def pp_inquiries[OF pp])
  then show ?thesis
    unfolding complete_workflow_def
    by (intro preserves_seq)
       (simp add: wc_update_pres[OF pp] keeps_wc_key_simps sendText_pres[OF pp])
qed

lemma advance_workflow_pres:
  assumes pp: "prims_preserve P" and P: "P w"
  shows "P (snd (advance_workflow e a m steps idx convo state nextId w))"
proof -
  define w' where "w' = snd (wc_update (\<lambda>r. wc_id r = wc_id convo)
                               (\<lambda>r. r\<lparr> wc_current_step_id := nextId, wc_state := state \<rparr>) w)"
  have P': "P w'" unfolding w'_def
    by (rule preservesD[OF wc_update_pres[OF pp] P]) (simp add: keeps_wc_key_simps)
  have u: "wc_update (\<lambda>r. wc_id r = wc_id convo)
             (\<lambda>r. r\<lparr> wc_current_step_id := nextId, wc_state := state \<rparr>) w = (Ok, w')"
    by (simp add: w'_def wc_update_def)
  show ?thesis
    unfolding advance_workflow_def u
    using P' returning_pres[OF hand_over_pres[OF pp keeps_wc_key_simps(2)] P']
      returning_pres[OF prompt_step_pres[OF pp] P']
    by (auto split: option.splits)
qed

lemma run_step_pres:
  assumes pp: "prims_preserve P" and P: "P w"
  shows "P (snd (run_step e a m flow convo idx st w))"
proof (cases "s_type st = start_booking")
  case True
  then show ?thesis
    using returning_pres[OF hand_over_pres[OF pp keeps_wc_key_simps(1)] P]
    by (simp add: run_step_def)
next
  case False
  obtain c1 w1 where so: "step_output e a m st w = (c1, w1)"
    by (cases "step_output e a m st w")
  have P1: "P w1" using preservesD[OF step_output_pres[OF pp] P, of e a m st] so by simp
  show ?thesis
    using False so P1 returning_pres[OF complete_workflow_pres[OF pp] P1]
      advance_workflow_pres[OF pp P1]
    by (cases c1) (auto simp: run_step_def split: option.splits)
qed

lemma continueConversation_body_pres:
  assumes pp: "prims_preserve P" and P: "P w"
  shows "P (snd (continueConversation_body e a m convo w))"
  unfolding continueConversation_body_def
  using P run_step_pres[OF pp P] by (auto split: option.splits)

lemma continueConversation_pres:
  assumes pp: "prims_preserve P" and P: "P w"
  shows "P (snd (continueConversation e a m convo w))"
  unfolding continueConversation_def
  by (rule catch_false_pres[OF continueConversation_body_pres[OF pp] log_call_pres[OF pp P]])


lemma move_past_first_media_pres:
  assumes pp: "prims_preserve P"
  shows "preserves P (move_past_first_media e a matched firstStep)"
proof -
  have nxt: "preserves P (case List.find Q (wf_steps matched) of
                                    None \<Rightarrow> skip
                                  | Some nxt \<Rightarrow>
                                      prompt_step e a
                                        (or_else (s_prompt_message nxt) ''Please continue...'') nxt)" for Q
    by (simp add: preserves_skip prompt_step_pres[OF pp] split: option.splits)
  show ?thesis
    unfolding move_past_first_media_def
    by (auto intro!: preserves_seq
          simp: preserves_skip wc_update_pres[OF pp] keeps_wc_key_simps nxt)
qed

lemma start_workflow_pres:
  assumes pp: "prims_preserve P" and P: "P w"
    and none: "single (filter (wc_active (a_botId a) (a_userKey a)) (workflow_conversations w)) = None"
  shows "P (snd (start_workflow e a m matched firstStep w))"
proof -
  define w1 where "w1 = w\<lparr> workflow_conversations :=
                    workflow_conversations w @ [new_wf_conversation e a matched firstStep] \<rparr>"
  have P1: "P w1" unfolding w1_def
    by (rule pp_wc_insert[OF pp P]) (simp add: new_wf_conversation_def none)
  have media: "preserves P (seq [share_media_block e a prompt,
                                 move_past_first_media e a matched firstStep])" for prompt
    by (intro preserves_seq)
       (simp add: share_media_block_pres[OF pp] move_past_first_media_pres[OF pp])
  have book: "preserves P (seq [wc_update (\<lambda>r. wc_bot_id r = a_botId a \<and> wc_user_key r = a_userKey a
                                      \<and> wc_workflow_id r = wf_id matched)
                        (\<lambda>r. r\<lparr> wc_is_completed := True \<rparr>),
                      handleBookingMessage e a m])"
    by (intro preserves_seq)
       (simp add: wc_update_pres[OF pp] keeps_wc_key_simps handleBookingMessage_pres[OF pp])
  show ?thesis
    unfolding start_workflow_def Let_def w1_def[symmetric]
    using returning_pres[OF book P1, where v = True] returning_pres[OF media P1, where v = True]
      returning_pres[OF prompt_step_pres[OF pp] P1, where v = True]
    by simp
qed

lemma tryHandle_body_pres:
  assumes pp: "prims_preserve P" and P: "P w"
  shows "P (snd (tryHandle_body e a m w))"
proof (cases "single (filter (wc_active (a_botId a) (a_userKey a)) (workflow_conversations w))")
  case (Some convo)
  obtain b w' where c: "continueConversation e a m convo w = (b, w')"
    by (cases "continueConversation e a m convo w")
  with continueConversation_pres[OF pp P, of e a m convo] have "P w'" by simp
  with Some c P show ?thesis by (simp add: tryHandle_body_def)
next
  case None
  have P': "P (log_call ep_trigger_match w)" by (rule log_call_pres[OF pp P])
  have none': "single (filter (wc_active (a_botId a) (a_userKey a))
                 (workflow_conversations (log_call ep_trigger_match w))) = None"
    using None by (simp add: log_call_def)
  show ?thesis
    using None P P' start_workflow_pres[OF pp P' none']
    by (auto simp: tryHandle_body_def split: list.splits option.splits)
qed







lemma web_reply_pres:
  assumes pp: "prims_preserve P" shows "preserves P (web_reply e a m)"
  unfolding web_reply_def
  by (intro preserves_seq preserves_try_catch)
     (auto intro!: preserves_seq preserves_try_catch
        simp: preserves_skip sendTyping_pres[OF pp] sendText_pres[OF pp] sendError_pres[OF pp])

lemma web_booking_pres:
  assumes pp: "prims_preserve P" shows "preserves P (web_booking e a m)"
  unfolding web_booking_def
  by (intro preserves_seq)
     (simp add: sendTyping_pres[OF pp] handleBookingMessage_pres[OF pp])

lemma web_after_workflow_pres:
  assumes pp: "prims_preserve P" shows "preserves P (web_after_workflow e a m)"
  unfolding preserves_def
proof (intro allI impI)
  fix w assume P: "P w"
  show "P (snd (web_after_workflow e a m w))"
    using P preservesD[OF web_booking_pres[OF pp] P]
      preservesD[OF sendError_pres[OF pp] P] preservesD[OF web_reply_pres[OF pp] P]
    by (simp add: web_after_workflow_def)
qed

lemma web_failure_notice_pres:
  assumes pp: "prims_preserve P" shows "preserves P (web_failure_notice e a)"
  unfolding web_failure_notice_def
  by (intro preserves_try_catch) (simp_all add: transport_pres[OF pp] preserves_skip)

lemma web_turn_after_tryHandle:
  assumes pp: "prims_preserve P"
    and P2: "P (snd (tryHandle e a m (snd (insert_message row w))))"
  shows "P (snd (try_catch
               (\<lambda>w0. case insert_message row w0 of
                   (_, w1) \<Rightarrow>
                     (case tryHandle e a m w1 of
                        (True, w2) \<Rightarrow> (Ok, w2)
                      | (False, w2) \<Rightarrow> web_after_workflow e a m w2))
               (web_failure_notice e a) w))"
proof -
  obtain c w1 where i: "insert_message row w = (c, w1)" by (cases "insert_message row w")
  obtain b w2 where t: "tryHandle e a m w1 = (b, w2)" by (cases "tryHandle e a m w1")
  from P2 i t have P: "P w2" by simp
  obtain c3 w3 where n: "web_after_workflow e a m w2 = (c3, w3)"
    by (cases "web_after_workflow e a m w2")
  with preservesD[OF web_after_workflow_pres[OF pp] P, of e a m] have P3: "P w3" by simp
  show ?thesis
    using i t n P P3 preservesD[OF web_failure_notice_pres[OF pp] P3, of e a]
    by (cases b; cases c3) (simp_all add: try_catch_def)
qed













subsection \<open>What the booking handler leaves alone\<close>

lemma other_tables_pp:
  assumes "\<And>w w'. workflow_conversations w' = workflow_conversations w \<Longrightarrow>
                 workflow_calls w' = workflow_calls w \<Longrightarrow> P w \<Longrightarrow> P w'"
  shows "prims_preserve_on {ep_handleBookingMessage} False P"
  unfolding prims_preserve_on_def
  by (auto intro: assms[rotated 2] simp: workflow_calls_def)

lemma handleBookingMessage_frame:
  "workflow_conversations (snd (handleBookingMessage e a m w)) = workflow_conversations w"
  "workflow_calls (snd (handleBookingMessage e a m w)) = workflow_calls w"
proof -
  let ?P = "\<lambda>w'. workflow_conversations w' = workflow_conversations w
                  \<and> workflow_calls w' = workflow_calls w"
  have "prims_preserve_on {ep_handleBookingMessage} False ?P"
    by (rule other_tables_pp) simp
  from preservesD[OF handleBookingMessage_pres_on[OF this], of w e a m]
  show "workflow_conversations (snd (handleBookingMessage e a m w)) = workflow_conversations w"
    "workflow_calls (snd (handleBookingMessage e a m w)) = workflow_calls w"
    by simp_all
qed


section \<open>Proofs: the order of the dispatch routers\<close>

lemma calls_prefix_pp: "prims_preserve (\<lambda>w. \<exists>rest. invoked w = X @ rest)"
  by (auto simp: prims_preserve_on_def)

lemma insert_message_invoked: "invoked (snd (insert_message row w)) = invoked w"
  by (simp add: insert_message_def)

lemma tryHandle_recorded:
  "\<exists>rest. invoked (snd (tryHandle e a m w)) = (invoked w @ [ep_tryHandle]) @ rest"
proof -
  have "\<exists>rest. invoked (log_call ep_tryHandle w) = (invoked w @ [ep_tryHandle]) @ rest"
    by (simp add: log_call_def)
  from catch_false_pres[OF tryHandle_body_pres[OF calls_prefix_pp] this]
  show ?thesis by (simp add: tryHandle_def)
qed

lemma handleWebMessage_calls_tryHandle_first:
  assumes "js_trim content \<noteq> []"
  shows "\<exists>rest. invoked (handleWebMessage e sessionId botId businessId content w)
                  = invoked w @ ep_tryHandle # rest"
proof -
  let ?a = "web_adapter sessionId botId businessId"
  let ?row = "web_inbound sessionId botId businessId content"
  from tryHandle_recorded[of e ?a content "snd (insert_message ?row w)"]
  have "\<exists>rest. invoked (snd (tryHandle e ?a content (snd (insert_message ?row w))))
                 = (invoked w @ [ep_tryHandle]) @ rest"
    by (simp add: insert_message_invoked)
  from web_turn_after_tryHandle[OF calls_prefix_pp this] assms show ?thesis
    unfolding handleWebMessage_def Let_def by simp
qed

lemma handleWebMessage_after_tryHandle:
  assumes "js_trim content \<noteq> []"
  shows "handleWebMessage e sessionId botId businessId content w
          = (if fst (tryHandle e (web_adapter sessionId botId businessId) content
                       (snd (insert_message (web_inbound sessionId botId businessId content) w)))
             then snd (tryHandle e (web_adapter sessionId botId businessId) content
                         (snd (insert_message (web_inbound sessionId botId businessId content) w)))
             else snd (try_catch
                         (web_after_workflow e (web_adapter sessionId botId businessId) content)
                         (web_failure_notice e (web_adapter sessionId botId businessId))
                         (snd (tryHandle e (web_adapter sessionId botId businessId) content
                                 (snd (insert_message
                                         (web_inbound sessionId botId businessId content) w))))))"
proof -
  let ?a = "web_adapter sessionId botId businessId"
  let ?row = "web_inbound sessionId botId businessId content"
  obtain c w1 where i: "insert_message ?row w = (c, w1)" by (cases "insert_message ?row w")
  obtain b w2 where t: "tryHandle e ?a content w1 = (b, w2)" by (cases "tryHandle e ?a content w1")
  from assms i t show ?thesis
    unfolding handleWebMessage_def Let_def
    by (cases b) (simp_all add: try_catch_def split: prod.splits completion.splits)
qed

text \<open>
  Claim C3, as the two routers implement it. On the phone router
  (\<open>handleIncomingMessage\<close>) booking comes first: with booking enabled, a message that
  passes the filters and arrives while a booking conversation is active, or that contains
  a booking keyword, is handled by \<open>handleBookingMessage\<close> and by nothing else, and the
  turn records no call of the workflow engine; so a message that matches a workflow
  trigger and a booking keyword starts the booking. On the web router
  (\<open>handleWebMessage\<close>) the workflow engine comes first: for every non-blank message,
  also while a booking conversation is active, the first call the turn records is
  \<open>tryHandle\<close>, run on the store that holds the inbound row; when \<open>tryHandle\<close> returns true
  the turn ends with the store \<open>tryHandle\<close> left, and only when it returns false does the
  turn go on, from that store, to the booking checks, the widget check and the reply.
\<close>

theorem router_priority_by_channel:
  "(isBookingEnabled w botId
      \<and> (hasActiveConversation botId fromNumber w
           \<or> isBookingTrigger content (getBookingKeywords w botId))
      \<and> content \<noteq> [] \<and> started \<noteq> 0 \<and> started \<le> ts
    \<longrightarrow> handleIncomingMessage e botId businessId (Some started) ts fromNumber content w
          = snd (handleBookingMessage e (phone_adapter botId businessId fromNumber) content w)
        \<and> workflow_calls
            (handleIncomingMessage e botId businessId (Some started) ts fromNumber content w)
          = workflow_calls w)
   \<and> (js_trim content' \<noteq> []
    \<longrightarrow> ep_tryHandle
          \<in> set (invoked (handleWebMessage e' sessionId botId' businessId' content' w'))
        \<and> (\<exists>rest. invoked (handleWebMessage e' sessionId botId' businessId' content' w')
                    = invoked w' @ ep_tryHandle # rest)
        \<and> handleWebMessage e' sessionId botId' businessId' content' w'
          = (if fst (tryHandle e' (web_adapter sessionId botId' businessId') content'
                       (snd (insert_message (web_inbound sessionId botId' businessId' content') w')))
             then snd (tryHandle e' (web_adapter sessionId botId' businessId') content'
                         (snd (insert_message (web_inbound sessionId botId' businessId' content') w')))
             else snd (try_catch
                         (web_after_workflow e' (web_adapter sessionId botId' businessId') content')
                         (web_failure_notice e' (web_adapter sessionId botId' businessId'))
                         (snd (tryHandle e' (web_adapter sessionId botId' businessId') content'
                                 (snd (insert_message
                                         (web_inbound sessionId botId' businessId' content') w')))))))"
proof (intro conjI impI)
  assume h: "isBookingEnabled w botId
      \<and> (hasActiveConversation botId fromNumber w
           \<or> isBookingTrigger content (getBookingKeywords w botId))
      \<and> content \<noteq> [] \<and> started \<noteq> 0 \<and> started \<le> ts"
  then show eq: "handleIncomingMessage e botId businessId (Some started) ts fromNumber content w
          = snd (handleBookingMessage e (phone_adapter botId businessId fromNumber) content w)"
    by (auto simp: handleIncomingMessage_def Let_def)
  show "workflow_calls
            (handleIncomingMessage e botId businessId (Some started) ts fromNumber content w)
          = workflow_calls w"
    unfolding eq by (rule handleBookingMessage_frame)
next
  assume nb: "js_trim content' \<noteq> []"
  from handleWebMessage_calls_tryHandle_first[OF nb, of e' sessionId botId' businessId' w']
  show first: "\<exists>rest. invoked (handleWebMessage e' sessionId botId' businessId' content' w')
                    = invoked w' @ ep_tryHandle # rest" .
  then show "ep_tryHandle
          \<in> set (invoked (handleWebMessage e' sessionId botId' businessId' content' w'))"
    by auto
  show "handleWebMessage e' sessionId botId' businessId' content' w'
          = (if fst (tryHandle e' (web_adapter sessionId botId' businessId') content'
                       (snd (insert_message (web_inbound sessionId botId' businessId' content') w')))
             then snd (tryHandle e' (web_adapter sessionId botId' businessId') content'
                         (snd (insert_message (web_inbound sessionId botId' businessId' content') w')))
             else snd (try_catch
                         (web_after_workflow e' (web_adapter sessionId botId' businessId') content')
                         (web_failure_notice e' (web_adapter sessionId botId' businessId'))
                         (snd (tryHandle e' (web_adapter sessionId botId' businessId') content'
                                 (snd (insert_message
                                         (web_inbound sessionId botId' businessId' content') w'))))))"
    by (rule handleWebMessage_after_tryHandle[OF nb])
qed

theorem router_priority_by_channel_witness:
  "isBookingEnabled ex_world_flow ''bot1''
   \<and> isBookingTrigger ''book'' (getBookingKeywords ex_world_flow ''bot1'')
   \<and> handleIncomingMessage ex_env ''bot1'' ''b1'' (Some 1) 2 ''100'' ''book'' ex_world_flow
       = snd (handleBookingMessage ex_env (phone_adapter ''bot1'' ''b1'' ''100'') ''book'' ex_world_flow)
   \<and> workflow_calls
        (handleIncomingMessage ex_env ''bot1'' ''b1'' (Some 1) 2 ''100'' ''book'' ex_world_flow)
       = workflow_calls ex_world_flow
   \<and> js_trim ''Jane'' \<noteq> []
   \<and> ep_tryHandle
        \<in> set (invoked (handleWebMessage ex_env ''100'' ''bot1'' ''b1'' ''Jane'' ex_world_booking_active))"
proof -
  have h1: "isBookingEnabled ex_world_flow ''bot1''"
    by (simp add: isBookingEnabled_def settings_of_def single_def ex_world_flow_def example_eval)
  have h2: "isBookingTrigger ''book'' (getBookingKeywords ex_world_flow ''bot1'')"
    by (simp add: isBookingTrigger_def getBookingKeywords_def default_keywords_def
        settings_of_def single_def ex_world_flow_def example_eval
        string_eval)
  have h3: "js_trim ''Jane'' \<noteq> []"
    by (simp add: string_eval)
  have h4: "''book'' \<noteq> [] \<and> (1::int) \<noteq> 0 \<and> (1::int) \<le> 2"
    by simp
  from router_priority_by_channel[of ex_world_flow "''bot1''" "''100''" "''book''" 1 2
      ex_env "''b1''" "''Jane''" ex_env "''100''" "''bot1''" "''b1''" ex_world_booking_active]
    h1 h2 h3 h4
  show ?thesis by blast
qed

text \<open>
  The claim as stated fails on both routers. On the phone router the sample bot has no
  conversation, the message \<open>book\<close> matches a trigger keyword of its published workflow
  and a booking keyword, and the turn starts a booking conversation, creates no workflow
  conversation and never calls the workflow engine. On the web router the sample user is
  in a booking conversation, and the message \<open>hello\<close> is given to the workflow engine,
  which matches it against the triggers.
\<close>

theorem stated_priority_fails_on_both_routers:
  "trigger_matches (toLowerCase ''book'') ex_flow
   \<and> isBookingTrigger ''book'' (getBookingKeywords ex_world_flow ''bot1'')
   \<and> booking_conversations ex_world_flow = []
   \<and> workflow_conversations ex_world_flow = []
   \<and> workflow_conversations
        (handleIncomingMessage ex_env ''bot1'' ''b1'' (Some 1) 2 ''100'' ''book'' ex_world_flow) = []
   \<and> invoked (handleIncomingMessage ex_env ''bot1'' ''b1'' (Some 1) 2 ''100'' ''book'' ex_world_flow)
       = [ep_handleBookingMessage]
   \<and> active_steps (handleIncomingMessage ex_env ''bot1'' ''b1'' (Some 1) 2 ''100'' ''book'' ex_world_flow)
        ''bot1'' ''100'' = [COLLECTING_NAME]
   \<and> hasActiveConversation ''bot1'' ''100'' ex_world_booking_active
   \<and> invoked (handleWebMessage ex_env ''100'' ''bot1'' ''b1'' ''hello'' ex_world_booking_active)
       = [ep_tryHandle, ep_trigger_match]"
  by (simp add: handleIncomingMessage_def handleBookingMessage_def route_step_def startBooking_def
      set_step_def phone_adapter_def hasActiveConversation_def
      trigger_matches_def isBookingTrigger_def isBookingEnabled_def getBookingKeywords_def
      default_keywords_def active_steps_def
      handleWebMessage_def web_adapter_def insert_message_def web_inbound_def message_checks_def
      web_after_workflow_def web_failure_notice_def
      tryHandle_def tryHandle_body_def catch_false_def log_call_def start_workflow_def
      new_wf_conversation_def returning_def prompt_step_def step_id_def or_else_def
      wc_active_def ex_world_booking_active_def ex_world_flow_def ex_flow_def ex_name_step_def
      ex_plan_step_def ex_email_step_def seq.simps
      Let_def string_eval store_eval adapter_eval example_eval)


section \<open>Proofs: active conversations per user\<close>

lemma snd_returning: "snd (returning v act w) = snd (act w)"
  by (simp add: returning_def split: prod.splits completion.splits)






section \<open>Proofs: unmatched input on an options step\<close>

lemma wc_only_pp:
  assumes "\<And>w w'. workflow_conversations w' = workflow_conversations w \<Longrightarrow> P w \<Longrightarrow> P w'"
  shows "prims_preserve_on UNIV False P"
  unfolding prims_preserve_on_def
  by (auto intro: assms[rotated])

lemma moved_on_pp:
  "prims_preserve_on UNIV False (\<lambda>w. list_all (moved_on n s) (wc_rows convo w))"
  by (rule wc_only_pp) (simp add: wc_rows_def)

lemma moved_on_after_update:
  assumes "\<And>r. moved_on n s (f r)"
  shows "list_all (moved_on n s) (wc_rows convo (snd (wc_update (\<lambda>r. wc_id r = wc_id convo) f w)))"
  using assms by (auto simp: wc_rows_def wc_update_def list_all_iff)

lemma unmatched_input_kept_out:
  assumes st: "s_type st = show_options"
    and unmatched: "parseOption e message (s_options st) = None"
  shows "collected_state e message st idx state = state"
    and "run_step e a message flow convo idx st w =
          (case next_step_id (wf_steps flow) idx st of
             None \<Rightarrow> returning True (complete_workflow e a flow convo (wc_state convo)) w
           | Some nextId \<Rightarrow>
               advance_workflow e a message (wf_steps flow) idx convo (wc_state convo) nextId w)"
proof -
  show c: "collected_state e message st idx state = state" for state
    using st unmatched by (simp add: collected_state_def Let_def)
  show "run_step e a message flow convo idx st w =
          (case next_step_id (wf_steps flow) idx st of
             None \<Rightarrow> returning True (complete_workflow e a flow convo (wc_state convo)) w
           | Some nextId \<Rightarrow>
               advance_workflow e a message (wf_steps flow) idx convo (wc_state convo) nextId w)"
    using st by (simp add: run_step_def step_output_def skip_def c split: option.splits)
qed

lemma complete_workflow_moved_on:
  "list_all (moved_on None state) (wc_rows convo (snd (complete_workflow e a flow convo state w)))"
proof -
  let ?P = "\<lambda>w. list_all (moved_on None state) (wc_rows convo w)"
  let ?upd = "wc_update (\<lambda>r. wc_id r = wc_id convo)
                (\<lambda>r. r\<lparr> wc_is_completed := True, wc_state := state \<rparr>)"
  let ?rest = "[(\<lambda>w. if list_ex (\<lambda>t. t = ''save_to_database'') (wf_actions flow)
                then (Ok, w\<lparr> inquiries := inquiries w @
                               [\<lparr> i_bot_id = a_botId a, i_workflow_id = wf_id flow,
                                  i_inquiry_data = state, i_status = ''pending'',
                                  i_source = a_channel a,
                                  i_customer_phone =
                                    (if a_channel a = whatsapp then Some (a_userKey a) else None) \<rparr>] \<rparr>)
                else (Ok, w)),
          sendText e a thank_you_recorded None]"
  have u: "?upd w = (Ok, snd (?upd w))" by (simp add: wc_update_def)
  have P1: "?P (snd (?upd w))"
    by (rule moved_on_after_update) (simp add: moved_on_def)
  have save: "preserves ?P (\<lambda>w. if list_ex (\<lambda>t. t = ''save_to_database'') (wf_actions flow)
                then (Ok, w\<lparr> inquiries := inquiries w @
                               [\<lparr> i_bot_id = a_botId a, i_workflow_id = wf_id flow,
                                  i_inquiry_data = state, i_status = ''pending'',
                                  i_source = a_channel a,
                                  i_customer_phone =
                                    (if a_channel a = whatsapp then Some (a_userKey a) else None) \<rparr>] \<rparr>)
                else (Ok, w))"
    by (simp add: preserves_def wc_rows_def)
  have thank: "preserves ?P (sendText e a thank_you_recorded None)"
    by (rule sendText_pres[OF moved_on_pp])
  have "preserves ?P (seq ?rest)"
    by (intro preserves_seq) (simp add: save thank)
  from preservesD[OF this P1] show ?thesis
    unfolding complete_workflow_def
    using seq_Cons_Ok[where a = ?upd and w = w and w' = "snd (?upd w)", OF u]
    by simp
qed

lemma advance_workflow_moved_on:
  "list_all (moved_on (Some nextId) state)
     (wc_rows convo (snd (advance_workflow e a message steps idx convo state nextId w)))"
proof -
  let ?P = "\<lambda>w. list_all (moved_on (Some nextId) state) (wc_rows convo w)"
  let ?upd = "wc_update (\<lambda>r. wc_id r = wc_id convo)
                (\<lambda>r. r\<lparr> wc_current_step_id := nextId, wc_state := state \<rparr>)"
  let ?fin = "wc_update (\<lambda>r. wc_id r = wc_id convo)
                (\<lambda>r. r\<lparr> wc_is_completed := True, wc_state := state \<rparr>)"
  obtain c w1 where u: "?upd w = (c, w1)" by (cases "?upd w")
  have P1: "?P w1"
    using moved_on_after_update[of "Some nextId" state
        "\<lambda>r. r\<lparr> wc_current_step_id := nextId, wc_state := state \<rparr>" convo w] u
    by (simp add: moved_on_def)
  have fin: "preserves ?P ?fin"
    by (auto simp: preserves_def wc_update_def wc_rows_def list_all_iff moved_on_def)
  have hand: "preserves ?P (hand_over_to_booking e a message convo
                              (\<lambda>r. r\<lparr> wc_is_completed := True, wc_state := state \<rparr>))"
    unfolding hand_over_to_booking_def
    by (intro preserves_seq)
       (simp add: fin handleBookingMessage_pres_on[OF moved_on_pp])
  have prompt: "preserves ?P (prompt_step e a p nxt)" for p nxt
    by (simp add: prompt_step_def sendText_pres[OF moved_on_pp])
  show ?thesis
    unfolding advance_workflow_def
    using u P1 preservesD[OF hand P1] preservesD[OF prompt P1]
    by (simp add: snd_returning split: option.splits)
qed

text \<open>
  Claim C10. The conversation is on a \<open>show_options\<close> step and \<open>parseOption\<close> finds no
  choice in the message. Then the collected state is left as it was, the turn goes on as
  for any other step (it completes the workflow when there is no next step and moves to
  the next step otherwise, prompting that step and not the current one), and at the end
  of the turn every stored row of the conversation holds the old state and points at the
  next step, or is completed when there is none.
\<close>

theorem show_options_unmatched_input_advances:
  assumes st: "s_type st = show_options"
    and unmatched: "parseOption e message (s_options st) = None"
  shows "collected_state e message st idx (wc_state convo) = wc_state convo
         \<and> run_step e a message flow convo idx st w =
             (case next_step_id (wf_steps flow) idx st of
                None \<Rightarrow> returning True (complete_workflow e a flow convo (wc_state convo)) w
              | Some nextId \<Rightarrow>
                  advance_workflow e a message (wf_steps flow) idx convo (wc_state convo) nextId w)
         \<and> list_all (moved_on (next_step_id (wf_steps flow) idx st) (wc_state convo))
              (wc_rows convo (snd (run_step e a message flow convo idx st w)))"
proof (intro conjI)
  show "collected_state e message st idx (wc_state convo) = wc_state convo"
    by (rule unmatched_input_kept_out(1)[OF st unmatched])
  show "run_step e a message flow convo idx st w =
             (case next_step_id (wf_steps flow) idx st of
                None \<Rightarrow> returning True (complete_workflow e a flow convo (wc_state convo)) w
              | Some nextId \<Rightarrow>
                  advance_workflow e a message (wf_steps flow) idx convo (wc_state convo) nextId w)"
    by (rule unmatched_input_kept_out(2)[OF st unmatched])
  show "list_all (moved_on (next_step_id (wf_steps flow) idx st) (wc_state convo))
              (wc_rows convo (snd (run_step e a message flow convo idx st w)))"
    unfolding unmatched_input_kept_out(2)[OF st unmatched]
    using complete_workflow_moved_on advance_workflow_moved_on
    by (simp add: snd_returning split: option.splits)
qed

theorem show_options_unmatched_input_advances_witness:
  "s_type ex_plan_step = show_options
   \<and> parseOption ex_env ''maybe'' (s_options ex_plan_step) = None
   \<and> next_step_id (wf_steps ex_flow) (Some 1) ex_plan_step = Some ''email''
   \<and> collected_state ex_env ''maybe'' ex_plan_step (Some 1) (wc_state (ex_wf_conversation ''plan''))
       = wc_state (ex_wf_conversation ''plan'')
   \<and> list_all (moved_on (next_step_id (wf_steps ex_flow) (Some 1) ex_plan_step)
                  (wc_state (ex_wf_conversation ''plan'')))
        (wc_rows (ex_wf_conversation ''plan'')
           (snd (run_step ex_env (ex_adapter whatsapp) ''maybe'' ex_flow
                   (ex_wf_conversation ''plan'') (Some 1) ex_plan_step ex_world_at_plan)))"
proof -
  have h1: "s_type ex_plan_step = show_options"
    by (simp add: ex_plan_step_def)
  have h2: "parseOption ex_env ''maybe'' (s_options ex_plan_step) = None"
    by (simp add: parseOption_def findIndex_def or_else_def ex_plan_step_def ex_env_def
        string_eval Let_def)
  have h3: "next_step_id (wf_steps ex_flow) (Some 1) ex_plan_step = Some ''email''"
    by (simp add: next_step_id_def truthy_def ex_flow_def ex_plan_step_def ex_email_step_def
        ex_name_step_def Let_def)
  from show_options_unmatched_input_advances[OF h1 h2, of "Some 1" "ex_wf_conversation ''plan''"
      "ex_adapter whatsapp" ex_flow ex_world_at_plan] h1 h2 h3
  show ?thesis by blast
qed

text \<open>
  Claim C10, at its failing input. The step offers two options and the user sends
  \<open>1.5\<close>: this is no label, and no index of an option, but \<open>parseOption\<close> tests only
  \<open>num >= 1 && num <= options.length\<close> and returns \<open>0.5\<close>. No option is found at that
  index, and the turn stores \<open>String(0.5)\<close> under the key of the step before it moves on.
\<close>

theorem fractional_choice_is_stored:
  "parseOption ex_env_fraction ''1.5'' (s_options ex_plan_step) = Some (1 / 2)
   \<and> option_at (s_options ex_plan_step) (1 / 2) = None
   \<and> list_all (\<lambda>opt. toLowerCase (or_else (o_label opt) []) \<noteq> ''1.5'') (s_options ex_plan_step)
   \<and> map (\<lambda>r. (wc_current_step_id r, wc_state r))
        (workflow_conversations
           (snd (continueConversation ex_env_fraction (ex_adapter whatsapp) ''1.5''
                   (ex_wf_conversation ''plan'') ex_world_at_plan)))
       = [(''email'', [(''name'', ''Jane''), (''plan'', ''0.5'')])]"
proof -
  have half: "\<lfloor>(1::rat) / 2\<rfloor> = 0"
    by (simp add: floor_eq_iff)
  show ?thesis
  by (simp add: half continueConversation_def continueConversation_body_def catch_false_def
      log_call_def current_step_def findIndex_def run_step_def step_output_def skip_def
      next_step_id_def truthy_def collected_state_def parseOption_def option_at_def
      chosen_value_def obj_set_def advance_workflow_def step_after_def wc_update_def
      returning_def prompt_step_def step_id_def or_else_def single_def
      ex_env_fraction_def ex_world_at_plan_def ex_wf_conversation_def
      ex_world_flow_def ex_flow_def ex_name_step_def ex_plan_step_def ex_email_step_def
      seq.simps Let_def string_eval adapter_eval example_eval)
qed


end
